(* ===== verification/Prelude.thy ===== *)
theory Prelude
  imports Main "HOL-Library.Word" "HOL-Library.Code_Target_Nat"
begin

text \<open>
  Vocabulary shared by every component of the airjail model: results with errors as
  values, Go byte strings and the functions of Go's packages \<open>strings\<close>, \<open>strconv\<close> and
  \<open>unicode/utf8\<close> that the code calls, and the lemmas about them that several
  components use.  A Go string is a sequence of bytes; it is a \<open>string\<close> here, one
  \<open>char\<close> per byte.  A Go error is a value of an error datatype of its own for each
  package, one constructor per error site, carried on the left of a sum.
\<close>

named_theorems res_simps \<open>case analysis of results\<close>

section \<open>Results\<close>

type_synonym ('e, 'a) result = "'e + 'a"

abbreviation Err :: "'e \<Rightarrow> ('e, 'a) result" where "Err \<equiv> Inl"
abbreviation Ok :: "'a \<Rightarrow> ('e, 'a) result" where "Ok \<equiv> Inr"

text \<open>Sequencing with the early return of \<open>if err != nil { return err }\<close>.\<close>

definition rbind :: "('e, 'a) result \<Rightarrow> ('a \<Rightarrow> ('e, 'b) result) \<Rightarrow> ('e, 'b) result" where
  "rbind r k = (case r of Inl e \<Rightarrow> Inl e | Inr a \<Rightarrow> k a)"

text \<open>The same when the error is wrapped on the way out (\<open>fmt.Errorf("...: %w", err)\<close>).\<close>

definition rmap_err :: "('e \<Rightarrow> 'f) \<Rightarrow> ('e, 'a) result \<Rightarrow> ('f, 'a) result" where
  "rmap_err f r = (case r of Inl e \<Rightarrow> Inl (f e) | Inr a \<Rightarrow> Inr a)"

definition is_ok :: "('e, 'a) result \<Rightarrow> bool" where
  "is_ok r = (case r of Inl _ \<Rightarrow> False | Inr _ \<Rightarrow> True)"

lemma rbind_simps [simp]:
  "rbind (Inl e) k = Inl e" "rbind (Inr a) k = k a"
  by (simp_all add: rbind_def)

lemma rbind_Inr_iff [res_simps]: "rbind r k = Inr b \<longleftrightarrow> (\<exists>a. r = Inr a \<and> k a = Inr b)"
  by (cases r) (simp_all add: rbind_def)

lemma rmap_err_simps [simp]:
  "rmap_err f (Inl e) = Inl (f e)" "rmap_err f (Inr a) = Inr a"
  by (simp_all add: rmap_err_def)

lemma rmap_err_Inr_iff [simp]: "rmap_err f r = Inr a \<longleftrightarrow> r = Inr a"
  by (cases r) (simp_all add: rmap_err_def)

lemma is_ok_simps [simp]: "\<not> is_ok (Inl e)" "is_ok (Inr a)"
  by (simp_all add: is_ok_def)

lemma is_ok_iff: "is_ok r \<longleftrightarrow> (\<exists>a. r = Inr a)"
  by (cases r) simp_all

section \<open>Bytes\<close>

definition byte :: "char \<Rightarrow> nat" where
  "byte c = of_char c"

definition is_digit :: "char \<Rightarrow> bool" where
  "is_digit c \<longleftrightarrow> 48 \<le> byte c \<and> byte c \<le> 57"

definition is_lower :: "char \<Rightarrow> bool" where
  "is_lower c \<longleftrightarrow> 97 \<le> byte c \<and> byte c \<le> 122"

definition is_upper :: "char \<Rightarrow> bool" where
  "is_upper c \<longleftrightarrow> 65 \<le> byte c \<and> byte c \<le> 90"

definition is_ascii :: "string \<Rightarrow> bool" where
  "is_ascii s \<longleftrightarrow> list_all (\<lambda>c. byte c < 128) s"

text \<open>
  \<open>strings.ToLower\<close> and \<open>strings.ToUpper\<close> map bytes on a pure ASCII string, which is
  their first branch; for other strings they consult the Unicode case tables, which are
  data of the standard library and enter as the argument \<open>uni\<close>.
\<close>

definition lower_byte :: "char \<Rightarrow> char" where
  "lower_byte c = (if is_upper c then char_of (byte c + 32) else c)"

definition upper_byte :: "char \<Rightarrow> char" where
  "upper_byte c = (if is_lower c then char_of (byte c - 32) else c)"

definition ToLower :: "(string \<Rightarrow> string) \<Rightarrow> string \<Rightarrow> string" where
  "ToLower uni s = (if is_ascii s then map lower_byte s else uni s)"

definition ToUpper :: "(string \<Rightarrow> string) \<Rightarrow> string \<Rightarrow> string" where
  "ToUpper uni s = (if is_ascii s then map upper_byte s else uni s)"

text \<open>
  What the code takes from code and data outside the repository when it handles text: the
  IDNA profile \<open>idna.Lookup.ToASCII\<close> of golang.org/x/net (\<open>None\<close> is its error), and the
  Unicode tables of Go's \<open>strings\<close> package, consulted for non-ASCII text only.
\<close>

record text_lib =
  idna_to_ascii :: "string \<Rightarrow> string option"
  uni_lower :: "string \<Rightarrow> string"
  uni_upper :: "string \<Rightarrow> string"
  uni_trim :: "string \<Rightarrow> string"
  uni_fold :: "string \<Rightarrow> string \<Rightarrow> bool"

text \<open>\<open>strings.EqualFold\<close> on two ASCII strings compares their bytes without case.\<close>

definition EqualFold :: "(string \<Rightarrow> string \<Rightarrow> bool) \<Rightarrow> string \<Rightarrow> string \<Rightarrow> bool" where
  "EqualFold uni s t =
     (if is_ascii s \<and> is_ascii t then map lower_byte s = map lower_byte t else uni s t)"

section \<open>Package strings\<close>

definition is_space :: "char \<Rightarrow> bool" where
  "is_space c \<longleftrightarrow> byte c = 32 \<or> (9 \<le> byte c \<and> byte c \<le> 13)"

definition TrimSpace :: "(string \<Rightarrow> string) \<Rightarrow> string \<Rightarrow> string" where
  "TrimSpace uni s =
     (if is_ascii s then rev (dropWhile is_space (rev (dropWhile is_space s))) else uni s)"

definition HasPrefix :: "string \<Rightarrow> string \<Rightarrow> bool" where
  "HasPrefix s p \<longleftrightarrow> take (length p) s = p"

definition HasSuffix :: "string \<Rightarrow> string \<Rightarrow> bool" where
  "HasSuffix s p \<longleftrightarrow> length p \<le> length s \<and> drop (length s - length p) s = p"

text \<open>\<open>strings.Contains\<close>.\<close>

fun ContainsStr :: "string \<Rightarrow> string \<Rightarrow> bool" where
  "ContainsStr [] p \<longleftrightarrow> p = []"
| "ContainsStr (c # s) p \<longleftrightarrow> HasPrefix (c # s) p \<or> ContainsStr s p"

definition TrimPrefix :: "string \<Rightarrow> string \<Rightarrow> string" where
  "TrimPrefix s p = (if HasPrefix s p then drop (length p) s else s)"

definition TrimSuffix :: "string \<Rightarrow> string \<Rightarrow> string" where
  "TrimSuffix s p = (if HasSuffix s p then take (length s - length p) s else s)"

text \<open>\<open>IndexByte\<close> and \<open>LastIndexByte\<close> return -1 where the byte does not occur: \<open>None\<close> here.\<close>

fun IndexByte :: "string \<Rightarrow> char \<Rightarrow> nat option" where
  "IndexByte [] c = None"
| "IndexByte (x # xs) c = (if x = c then Some 0 else map_option Suc (IndexByte xs c))"

fun LastIndexByte :: "string \<Rightarrow> char \<Rightarrow> nat option" where
  "LastIndexByte [] c = None"
| "LastIndexByte (x # xs) c =
     (case LastIndexByte xs c of
        Some i \<Rightarrow> Some (Suc i)
      | None \<Rightarrow> if x = c then Some 0 else None)"

text \<open>\<open>strings.Count(s, ":")\<close> for a one-byte separator.\<close>

definition CountByte :: "string \<Rightarrow> char \<Rightarrow> nat" where
  "CountByte s c = length (filter (\<lambda>x. x = c) s)"

text \<open>\<open>strings.Cut(s, sep)\<close> for a one-byte separator: before, after, found.\<close>

definition Cut :: "string \<Rightarrow> char \<Rightarrow> string \<times> string \<times> bool" where
  "Cut s c = (case IndexByte s c of
      None \<Rightarrow> (s, [], False)
    | Some i \<Rightarrow> (take i s, drop (Suc i) s, True))"

text \<open>\<open>strings.Split(s, sep)\<close> for a one-byte separator.\<close>

fun SplitByte :: "string \<Rightarrow> char \<Rightarrow> string list" where
  "SplitByte [] c = [[]]"
| "SplitByte (x # xs) c =
     (if x = c then [] # SplitByte xs c
      else (case SplitByte xs c of y # ys \<Rightarrow> (x # y) # ys | [] \<Rightarrow> [[x]]))"

fun JoinWith :: "char \<Rightarrow> string list \<Rightarrow> string" where
  "JoinWith c [] = []"
| "JoinWith c [x] = x"
| "JoinWith c (x # y # ys) = x @ c # JoinWith c (y # ys)"

section \<open>Lemmas about byte strings\<close>

lemma IndexByte_None [simp]: "IndexByte s c = None \<longleftrightarrow> c \<notin> set s"
  by (induction s) auto

lemma LastIndexByte_None [simp]: "LastIndexByte s c = None \<longleftrightarrow> c \<notin> set s"
  by (induction s) (auto split: option.splits)

lemma IndexByte_Some:
  "IndexByte s c = Some i \<longleftrightarrow> i < length s \<and> s ! i = c \<and> c \<notin> set (take i s)"
proof (induction s arbitrary: i)
  case Nil
  then show ?case by simp
next
  case (Cons x xs)
  then show ?case by (cases i) auto
qed

lemma IndexByte_append:
  "c \<notin> set xs \<Longrightarrow> IndexByte (xs @ c # ys) c = Some (length xs)"
  by (induction xs) auto

lemma LastIndexByte_append:
  "c \<notin> set ys \<Longrightarrow> LastIndexByte (xs @ c # ys) c = Some (length xs)"
proof (induction xs)
  case Nil
  then show ?case by (simp add: option.case_eq_if)
next
  case (Cons x xs)
  then show ?case by simp
qed

lemma LastIndexByte_SomeD: "LastIndexByte s c = Some i \<Longrightarrow> i < length s \<and> s ! i = c"
proof (induction s arbitrary: i)
  case Nil
  then show ?case by simp
next
  case (Cons x xs)
  then show ?case by (cases i) (auto split: option.splits if_splits)
qed

lemma HasPrefix_append [simp]: "HasPrefix (p @ s) p"
  by (simp add: HasPrefix_def)

lemma HasPrefix_iff: "HasPrefix s p \<longleftrightarrow> (\<exists>t. s = p @ t)"
  unfolding HasPrefix_def by (metis append_eq_conv_conj append_take_drop_id)

lemma HasSuffix_append [simp]: "HasSuffix (s @ p) p"
  by (simp add: HasSuffix_def)

lemma HasSuffix_iff: "HasSuffix s p \<longleftrightarrow> (\<exists>t. s = t @ p)"
  unfolding HasSuffix_def
  by (metis append_eq_conv_conj append_take_drop_id length_append le_add2 add_diff_cancel_right')

lemma TrimSuffix_append [simp]: "TrimSuffix (s @ p) p = s"
  by (simp add: TrimSuffix_def)

lemma TrimSuffix_cases: "TrimSuffix s p = s \<or> s = TrimSuffix s p @ p"
  by (auto simp: TrimSuffix_def HasSuffix_iff)

lemma SplitByte_nonempty [simp]: "SplitByte s c \<noteq> []"
  by (induction s) (auto split: list.splits)

lemma JoinWith_SplitByte [simp]: "JoinWith c (SplitByte s c) = s"
proof (induction s)
  case Nil
  then show ?case by simp
next
  case (Cons x xs)
  obtain y ys where sp: "SplitByte xs c = y # ys"
    by (cases "SplitByte xs c") auto
  with Cons show ?case by (cases ys) auto
qed

lemma SplitByte_no_sep: "y \<in> set (SplitByte s c) \<Longrightarrow> c \<notin> set y"
  by (induction s arbitrary: y) (auto split: list.splits if_splits)

lemma SplitByte_set: "y \<in> set (SplitByte s c) \<Longrightarrow> set y \<subseteq> set s"
proof (induction s arbitrary: y)
  case Nil
  then show ?case by simp
next
  case (Cons x xs)
  then show ?case
    by (auto split: list.splits if_splits) (metis in_mono)+
qed

lemma set_SplitByte: "set s \<subseteq> insert c (\<Union> (set ` set (SplitByte s c)))"
proof (induction s)
  case Nil
  then show ?case by simp
next
  case (Cons x xs)
  obtain y ys where sp: "SplitByte xs c = y # ys"
    by (cases "SplitByte xs c") auto
  with Cons show ?case by auto
qed

lemma SplitByte_snoc: "SplitByte (s @ [c]) c = SplitByte s c @ [[]]"
proof (induction s)
  case Nil
  then show ?case by simp
next
  case (Cons x xs)
  obtain y ys where sp: "SplitByte xs c = y # ys"
    by (cases "SplitByte xs c") auto
  with Cons show ?case by auto
qed

lemma SplitByte_append: "SplitByte (s @ c # t) c = SplitByte s c @ SplitByte t c"
proof (induction s)
  case Nil
  then show ?case by simp
next
  case (Cons x xs)
  obtain y ys where sp: "SplitByte xs c = y # ys"
    by (cases "SplitByte xs c") auto
  with Cons show ?case by auto
qed

lemma JoinWith_append:
  "xs \<noteq> [] \<Longrightarrow> ys \<noteq> [] \<Longrightarrow> JoinWith c (xs @ ys) = JoinWith c xs @ c # JoinWith c ys"
proof (induction xs)
  case Nil
  then show ?case by simp
next
  case (Cons x xs)
  then show ?case by (cases xs; cases ys) auto
qed

lemma SplitByte_strict_suffix:
  "(\<exists>ls. ls \<noteq> [] \<and> SplitByte h c = ls @ SplitByte d c) \<longleftrightarrow> (\<exists>t. h = t @ c # d)"
proof
  assume "\<exists>ls. ls \<noteq> [] \<and> SplitByte h c = ls @ SplitByte d c"
  then obtain ls where "ls \<noteq> []" "SplitByte h c = ls @ SplitByte d c" by blast
  then have "JoinWith c (SplitByte h c) = JoinWith c ls @ c # JoinWith c (SplitByte d c)"
    by (simp only: JoinWith_append SplitByte_nonempty not_False_eq_True)
  then show "\<exists>t. h = t @ c # d" by auto
next
  assume "\<exists>t. h = t @ c # d"
  then show "\<exists>ls. ls \<noteq> [] \<and> SplitByte h c = ls @ SplitByte d c"
    by (auto simp: SplitByte_append)
qed

lemma byte_less [simp]: "byte c < 256"
  by (simp add: byte_def)

lemma byte_inj [simp]: "byte c = byte d \<longleftrightarrow> c = d"
  by (simp add: byte_def)

end
