(* ===== verification/Go_Lib.thy ===== *)
theory Go_Lib
  imports Prelude
begin

text \<open>
  The functions of Go's \<open>strconv\<close>, \<open>unicode/utf8\<close> and \<open>net\<close> packages that airjail calls
  on untrusted text: decimal conversion with its range check, UTF-8 validation, and the
  \<open>host:port\<close> syntax of \<open>net.SplitHostPort\<close> and \<open>net.JoinHostPort\<close>.  The lemmas show
  the conversions to be inverse to each other.
\<close>

section \<open>Package strconv\<close>

definition digit_val :: "char \<Rightarrow> nat" where
  "digit_val c = byte c - 48"

definition digits_val :: "string \<Rightarrow> nat" where
  "digits_val s = foldl (\<lambda>n c. n * 10 + digit_val c) 0 s"

text \<open>
  \<open>strconv.ParseUint(s, 10, bits)\<close>: with an explicit base the text is a non-empty
  sequence of digits, without sign, underscore or space, whose value fits; every other
  input is an error (syntax or range), which the callers do not tell apart.
\<close>

definition ParseUint :: "nat \<Rightarrow> string \<Rightarrow> nat option" where
  "ParseUint bits s =
     (if s \<noteq> [] \<and> list_all is_digit s \<and> digits_val s < 2 ^ bits then Some (digits_val s) else None)"

text \<open>\<open>strconv.Atoi\<close>: an optional sign, digits, and the range of a 64-bit \<open>int\<close>.\<close>

definition Atoi :: "string \<Rightarrow> int option" where
  "Atoi s =
     (let (neg, ds) = (case s of [] \<Rightarrow> (False, [])
          | c # cs \<Rightarrow> if c = CHR ''-'' then (True, cs) else if c = CHR ''+'' then (False, cs) else (False, c # cs))
      in if ds = [] \<or> \<not> list_all is_digit ds then None
         else if neg then (if digits_val ds \<le> 2 ^ 63 then Some (- int (digits_val ds)) else None)
         else if digits_val ds < 2 ^ 63 then Some (int (digits_val ds)) else None)"

definition digit_char :: "nat \<Rightarrow> char" where
  "digit_char d = char_of (48 + d)"

text \<open>\<open>strconv.Itoa\<close> on a non-negative number.\<close>

fun Itoa :: "nat \<Rightarrow> string" where
  "Itoa n = (if n < 10 then [digit_char n] else Itoa (n div 10) @ [digit_char (n mod 10)])"

declare Itoa.simps [simp del]

lemma byte_digit_char [simp]: "d < 10 \<Longrightarrow> byte (digit_char d) = 48 + d"
  by (simp add: digit_char_def byte_def)

lemma is_digit_digit_char [simp]: "d < 10 \<Longrightarrow> is_digit (digit_char d)"
  by (simp add: is_digit_def)

lemma digit_val_digit_char [simp]: "d < 10 \<Longrightarrow> digit_val (digit_char d) = d"
  by (simp add: digit_val_def)

lemma digits_val_snoc: "digits_val (s @ [c]) = digits_val s * 10 + digit_val c"
  by (simp add: digits_val_def)

lemma Itoa_nonempty [simp]: "Itoa n \<noteq> []"
  by (subst Itoa.simps) simp

lemma Itoa_digits [simp]: "list_all is_digit (Itoa n)"
proof (induction n rule: Itoa.induct)
  case (1 n)
  then show ?case by (subst Itoa.simps) simp
qed

lemma digits_val_Itoa [simp]: "digits_val (Itoa n) = n"
proof (induction n rule: Itoa.induct)
  case (1 n)
  show ?case
  proof (cases "n < 10")
    case True
    then show ?thesis by (subst Itoa.simps) (simp add: digits_val_def)
  next
    case False
    with 1 show ?thesis by (subst Itoa.simps) (simp add: digits_val_snoc)
  qed
qed

lemma ParseUint_Itoa [simp]: "ParseUint bits (Itoa n) = (if n < 2 ^ bits then Some n else None)"
  by (simp add: ParseUint_def)

lemma ParseUint_bound: "ParseUint bits s = Some n \<Longrightarrow> n < 2 ^ bits"
  by (auto simp: ParseUint_def split: if_splits)

lemma digit_not_in:
  assumes "list_all is_digit s" and "\<not> is_digit c"
  shows "c \<notin> set s"
  using assms by (auto simp: list_all_iff)

lemma not_digit_punct [simp]:
  "\<not> is_digit CHR '':''" "\<not> is_digit CHR ''[''" "\<not> is_digit CHR '']''" "\<not> is_digit CHR ''%''"
  "\<not> is_digit CHR ''.''" "\<not> is_digit CHR ''-''" "\<not> is_digit CHR ''+''" "\<not> is_digit CHR ''/''"
  by (simp_all add: is_digit_def byte_def)

lemma Itoa_no_punct [simp]:
  "CHR '':'' \<notin> set (Itoa n)" "CHR ''['' \<notin> set (Itoa n)" "CHR '']'' \<notin> set (Itoa n)"
  "CHR ''%'' \<notin> set (Itoa n)" "CHR ''.'' \<notin> set (Itoa n)"
  by (rule digit_not_in [OF Itoa_digits]; simp)+

lemma Atoi_Itoa [simp]: "n < 2 ^ 63 \<Longrightarrow> Atoi (Itoa n) = Some (int n)"
proof -
  assume n: "n < 2 ^ 63"
  obtain c cs where it: "Itoa n = c # cs" by (cases "Itoa n") auto
  have "list_all is_digit (c # cs)" using Itoa_digits [of n] it by simp
  moreover have "c \<noteq> CHR ''-''" "c \<noteq> CHR ''+''"
    using calculation by auto
  moreover have "digits_val (c # cs) = n" using digits_val_Itoa [of n] it by simp
  ultimately show ?thesis using n by (simp add: Atoi_def it)
qed

section \<open>Package unicode/utf8\<close>

definition utf8_cont :: "nat \<Rightarrow> bool" where
  "utf8_cont b \<longleftrightarrow> 128 \<le> b \<and> b \<le> 191"

text \<open>\<open>utf8.ValidString\<close>: the accept ranges of the encoding, surrogates and overlong forms excluded.\<close>

fun utf8_valid :: "nat list \<Rightarrow> bool" where
  "utf8_valid [] = True"
| "utf8_valid (a # s) =
     (if a < 128 then utf8_valid s
      else if 194 \<le> a \<and> a \<le> 223 then
        (case s of b # r \<Rightarrow> utf8_cont b \<and> utf8_valid r | _ \<Rightarrow> False)
      else if 224 \<le> a \<and> a \<le> 239 then
        (case s of b # c # r \<Rightarrow>
           (if a = 224 then 160 \<le> b \<and> b \<le> 191
            else if a = 237 then 128 \<le> b \<and> b \<le> 159 else utf8_cont b)
           \<and> utf8_cont c \<and> utf8_valid r
         | _ \<Rightarrow> False)
      else if 240 \<le> a \<and> a \<le> 244 then
        (case s of b # c # d # r \<Rightarrow>
           (if a = 240 then 144 \<le> b \<and> b \<le> 191
            else if a = 244 then 128 \<le> b \<and> b \<le> 143 else utf8_cont b)
           \<and> utf8_cont c \<and> utf8_cont d \<and> utf8_valid r
         | _ \<Rightarrow> False)
      else False)"

definition ValidString :: "string \<Rightarrow> bool" where
  "ValidString s = utf8_valid (map byte s)"

lemma utf8_valid_ascii: "\<forall>b \<in> set bs. b < 128 \<Longrightarrow> utf8_valid bs"
  by (induction bs) auto

lemma ValidString_ascii: "is_ascii s \<Longrightarrow> ValidString s"
  by (auto simp: ValidString_def is_ascii_def list_all_iff intro!: utf8_valid_ascii)

section \<open>Package net: host and port\<close>

datatype addr_error =
    MissingPort
  | TooManyColons
  | MissingCloseBracket
  | UnexpectedOpenBracket
  | UnexpectedCloseBracket

definition split_tail :: "string \<Rightarrow> string \<Rightarrow> string \<Rightarrow> string \<Rightarrow> (addr_error, string \<times> string) result" where
  "split_tail host from_j from_k port =
     (if CHR ''['' \<in> set from_j then Err UnexpectedOpenBracket
      else if CHR '']'' \<in> set from_k then Err UnexpectedCloseBracket
      else Ok (host, port))"

definition SplitHostPort :: "string \<Rightarrow> (addr_error, string \<times> string) result" where
  "SplitHostPort hp =
     (case LastIndexByte hp CHR '':'' of
        None \<Rightarrow> Err MissingPort
      | Some i \<Rightarrow>
          if HasPrefix hp ''['' then
            (case IndexByte hp CHR '']'' of
               None \<Rightarrow> Err MissingCloseBracket
             | Some e \<Rightarrow>
                 if e + 1 = length hp then Err MissingPort
                 else if e + 1 = i then
                   split_tail (drop 1 (take e hp)) (drop 1 hp) (drop (e + 1) hp) (drop (i + 1) hp)
                 else if hp ! (e + 1) = CHR '':'' then Err TooManyColons
                 else Err MissingPort)
          else if CHR '':'' \<in> set (take i hp) then Err TooManyColons
          else split_tail (take i hp) hp hp (drop (i + 1) hp))"

definition JoinHostPort :: "string \<Rightarrow> string \<Rightarrow> string" where
  "JoinHostPort host port =
     (if CHR '':'' \<in> set host then ''['' @ host @ '']:'' @ port else host @ '':'' @ port)"

definition host_clean :: "string \<Rightarrow> bool" where
  "host_clean h \<longleftrightarrow> CHR ''['' \<notin> set h \<and> CHR '']'' \<notin> set h"

definition port_clean :: "string \<Rightarrow> bool" where
  "port_clean p \<longleftrightarrow> CHR '':'' \<notin> set p \<and> CHR ''['' \<notin> set p \<and> CHR '']'' \<notin> set p"

lemma port_clean_Itoa [simp]: "port_clean (Itoa n)"
  by (simp add: port_clean_def)

text \<open>Splitting is the inverse of joining, for hosts and ports free of brackets.\<close>

lemma SplitHostPort_JoinHostPort:
  assumes h: "host_clean h" and p: "port_clean p"
  shows "SplitHostPort (JoinHostPort h p) = Ok (h, p)"
proof (cases "CHR '':'' \<in> set h")
  case True
  have j: "JoinHostPort h p = (CHR ''['' # h @ [CHR '']'']) @ CHR '':'' # p"
    using True by (simp add: JoinHostPort_def)
  have li: "LastIndexByte (JoinHostPort h p) CHR '':'' = Some (length h + 2)"
    using p LastIndexByte_append [of "CHR '':''" p "CHR ''['' # h @ [CHR '']'']"]
    by (simp add: j port_clean_def)
  have "IndexByte ((CHR ''['' # h) @ CHR '']'' # CHR '':'' # p) CHR '']'' = Some (length (CHR ''['' # h))"
    using h by (intro IndexByte_append) (simp add: host_clean_def)
  then have ii: "IndexByte (JoinHostPort h p) CHR '']'' = Some (length h + 1)"
    by (simp add: j)
  have pre: "HasPrefix (JoinHostPort h p) ''[''"
    by (simp add: j HasPrefix_def)
  show ?thesis
    unfolding SplitHostPort_def li ii
    using pre h p by (simp add: j split_tail_def host_clean_def port_clean_def)
next
  case False
  have j: "JoinHostPort h p = h @ CHR '':'' # p"
    using False by (simp add: JoinHostPort_def)
  have li: "LastIndexByte (JoinHostPort h p) CHR '':'' = Some (length h)"
    using p by (simp add: j port_clean_def LastIndexByte_append)
  have pre: "\<not> HasPrefix (JoinHostPort h p) ''[''"
    unfolding j using h by (cases h) (auto simp: HasPrefix_def host_clean_def)
  show ?thesis
    unfolding SplitHostPort_def li
    using pre h p False by (simp add: j split_tail_def host_clean_def port_clean_def)
qed

section \<open>Package net/url\<close>

text \<open>
  The fields of a parsed \<open>*url.URL\<close> that airjail reads.  \<open>url_user\<close> is the user name and the
  password, each absent where the URL has none.  Parsing itself (\<open>url.Parse\<close>) is a parameter
  of the definitions that use it; \<open>Hostname\<close> and \<open>Port\<close> split the host field.
\<close>

record url =
  url_scheme :: string
  url_user :: "(string \<times> string option) option"
  url_host :: string
  url_path :: string
  url_query :: string
  url_fragment :: string

definition valid_optional_port :: "string \<Rightarrow> bool" where
  "valid_optional_port s = (case s of [] \<Rightarrow> True | c # cs \<Rightarrow> c = CHR '':'' \<and> list_all is_digit cs)"

definition url_split :: "string \<Rightarrow> string \<times> string" where
  "url_split hp =
     (let (host, port) = (case LastIndexByte hp CHR '':'' of
          Some i \<Rightarrow> if valid_optional_port (drop i hp) then (take i hp, drop (i + 1) hp) else (hp, [])
        | None \<Rightarrow> (hp, []))
      in (if HasPrefix host ''['' \<and> HasSuffix host '']'' then drop 1 (take (length host - 1) host) else host, port))"

definition url_hostname :: "url \<Rightarrow> string" where "url_hostname u = fst (url_split (url_host u))"
definition url_port :: "url \<Rightarrow> string" where "url_port u = snd (url_split (url_host u))"

section \<open>Package encoding/base64\<close>

definition b64_char :: "nat \<Rightarrow> char" where
  "b64_char n = (if n < 26 then char_of (65 + n) else if n < 52 then char_of (97 + (n - 26))
     else if n < 62 then char_of (48 + (n - 52)) else if n = 62 then CHR ''+'' else CHR ''/'')"

fun b64_encode :: "nat list \<Rightarrow> string" where
  "b64_encode [] = []"
| "b64_encode [a] = [b64_char (a div 4), b64_char (a mod 4 * 16), CHR ''='', CHR ''='']"
| "b64_encode [a, b] =
     [b64_char (a div 4), b64_char (a mod 4 * 16 + b div 16), b64_char (b mod 16 * 4), CHR ''='']"
| "b64_encode (a # b # c # r) =
     b64_char (a div 4) # b64_char (a mod 4 * 16 + b div 16) # b64_char (b mod 16 * 4 + c div 64) #
     b64_char (c mod 64) # b64_encode r"

definition StdEncoding :: "string \<Rightarrow> string" where
  "StdEncoding s = b64_encode (map byte s)"

end
