(* ===== verification/Netip.thy ===== *)
theory Netip
  imports Go_Lib
begin

unbundle bit_operations_syntax

text \<open>
  The part of Go's package \<open>net/netip\<close> that airjail uses: addresses with their zones,
  the strict literal parser, CIDR prefixes, and the textual form that is dialed and logged.
  An address is the zero \<open>Addr{}\<close>, an IPv4 address, or an IPv6 address with a zone
  (the empty zone is "no zone").  The lemmas relate \<open>Unmap\<close>, \<open>Masked\<close> and \<open>Contains\<close> to
  intervals of numbers, which is what the policy's theorems are stated over.
\<close>

section \<open>Addresses\<close>

datatype addr =
    NoAddr
  | Addr4 "32 word"
  | Addr6 "128 word" string

definition IsValid :: "addr \<Rightarrow> bool" where
  "IsValid a \<longleftrightarrow> a \<noteq> NoAddr"

fun Zone :: "addr \<Rightarrow> string" where
  "Zone (Addr6 w z) = z"
| "Zone _ = []"

fun Is6 :: "addr \<Rightarrow> bool" where
  "Is6 (Addr6 w z) = True"
| "Is6 _ = False"

fun Is4In6 :: "addr \<Rightarrow> bool" where
  "Is4In6 (Addr6 w z) = (drop_bit 32 w = 65535)"
| "Is4In6 _ = False"

fun Unmap :: "addr \<Rightarrow> addr" where
  "Unmap (Addr6 w z) = (if drop_bit 32 w = 65535 then Addr4 (ucast w) else Addr6 w z)"
| "Unmap a = a"

fun WithZone :: "addr \<Rightarrow> string \<Rightarrow> addr" where
  "WithZone (Addr6 w _) z = Addr6 w z"
| "WithZone a _ = a"

fun BitLen :: "addr \<Rightarrow> nat" where
  "BitLen NoAddr = 0"
| "BitLen (Addr4 _) = 32"
| "BitLen (Addr6 _ _) = 128"

definition map4 :: "32 word \<Rightarrow> 128 word" where
  "map4 w = push_bit 32 65535 OR ucast w"

text \<open>
  The canonical addresses are those the policy stores and compares: valid, without a zone,
  and never an IPv4-mapped IPv6 address.
\<close>

definition canonical_addr :: "addr \<Rightarrow> bool" where
  "canonical_addr a \<longleftrightarrow> IsValid a \<and> Zone a = [] \<and> \<not> Is4In6 a"

lemma IsValid_simps [simp]: "\<not> IsValid NoAddr" "IsValid (Addr4 w)" "IsValid (Addr6 v z)"
  by (simp_all add: IsValid_def)

lemma Unmap_idem [simp]: "Unmap (Unmap a) = Unmap a"
  by (cases a) auto

lemma Unmap_not_4in6 [simp]: "\<not> Is4In6 (Unmap a)"
  by (cases a) auto

lemma IsValid_Unmap [simp]: "IsValid (Unmap a) = IsValid a"
  by (cases a) auto

lemma Zone_Unmap [simp]: "Zone a = [] \<Longrightarrow> Zone (Unmap a) = []"
  by (cases a) auto

lemma canonical_Unmap: "IsValid a \<Longrightarrow> Zone a = [] \<Longrightarrow> canonical_addr (Unmap a)"
  by (simp add: canonical_addr_def)

lemma Unmap_canonical [simp]: "canonical_addr a \<Longrightarrow> Unmap a = a"
  by (cases a) (auto simp: canonical_addr_def)

lemma Unmap_unchanged: "\<not> Is4In6 a \<Longrightarrow> Unmap a = a"
  by (cases a) auto

lemma BitLen_valid: "IsValid a \<Longrightarrow> BitLen a = (if Is6 a then 128 else 32)"
  by (cases a) auto

lemma WithZone_simps [simp]:
  "Zone (WithZone a []) = []" "IsValid (WithZone a z) = IsValid a" "Is4In6 (WithZone a z) = Is4In6 a"
  by (cases a; simp)+

lemma WithZone_same [simp]: "Zone a = z \<Longrightarrow> WithZone a z = a"
  by (cases a) auto

section \<open>Parsing literals\<close>

datatype parse_error =
    MissingIPv6Address
  | UnableToParse
  | V4LeadingZero
  | V4Over255
  | V4EmptyField
  | V4TooLong
  | V4UnexpectedChar
  | V4TooShort
  | V6EmptyZone
  | V6GroupTooLong
  | V6GroupOverflow
  | V6EmptyGroup
  | V6EmbeddedPlace
  | V6EmbeddedRoom
  | V6WantColon
  | V6ColonAtEnd
  | V6MultipleEllipsis
  | V6TrailingGarbage
  | V6TooShort
  | V6EllipsisEmpty

text \<open>
  \<open>parseIPv4Fields\<close>: \<open>prev\<close> is the previous byte (\<open>None\<close> at the start), \<open>val\<close> and
  \<open>digs\<close> describe the current octet, \<open>octets\<close> holds the octets completed so far.
\<close>

fun v4_fields :: "char option \<Rightarrow> string \<Rightarrow> nat \<Rightarrow> nat \<Rightarrow> nat list \<Rightarrow> (parse_error, nat list) result" where
  "v4_fields prev [] val digs octets =
     (if length octets < 3 then Err V4TooShort else Ok (octets @ [val]))"
| "v4_fields prev (c # cs) val digs octets =
     (if is_digit c then
        (if digs = 1 \<and> val = 0 then Err V4LeadingZero
         else let v = val * 10 + digit_val c in
           if v > 255 then Err V4Over255 else v4_fields (Some c) cs v (Suc digs) octets)
      else if c = CHR ''.'' then
        (if prev = None \<or> cs = [] \<or> prev = Some CHR ''.'' then Err V4EmptyField
         else if length octets = 3 then Err V4TooLong
         else v4_fields (Some c) cs 0 0 (octets @ [val]))
      else Err V4UnexpectedChar)"

definition bytes_word :: "nat list \<Rightarrow> 'a::len word" where
  "bytes_word bs = of_nat (foldl (\<lambda>n b. n * 256 + b) 0 bs)"

definition parse_v4 :: "string \<Rightarrow> (parse_error, addr) result" where
  "parse_v4 s = rbind (v4_fields None s 0 0 []) (\<lambda>fs. Ok (Addr4 (bytes_word fs)))"

definition hex_val :: "char \<Rightarrow> nat option" where
  "hex_val c =
     (if is_digit c then Some (byte c - 48)
      else if 97 \<le> byte c \<and> byte c \<le> 102 then Some (byte c - 97 + 10)
      else if 65 \<le> byte c \<and> byte c \<le> 70 then Some (byte c - 65 + 10)
      else None)"

text \<open>The inner loop of \<open>parseIPv6\<close>: at most four hex digits, and what follows them.\<close>

fun scan_hex :: "string \<Rightarrow> nat \<Rightarrow> nat \<Rightarrow> (parse_error, nat \<times> nat \<times> string) result" where
  "scan_hex [] off acc = Ok (off, acc, [])"
| "scan_hex (c # cs) off acc =
     (case hex_val c of
        None \<Rightarrow> Ok (off, acc, c # cs)
      | Some d \<Rightarrow>
          let acc' = acc * 16 + d in
          if off > 3 then Err V6GroupTooLong
          else if acc' > 65535 then Err V6GroupOverflow
          else scan_hex cs (Suc off) acc')"

lemma scan_hex_shorter:
  "scan_hex s off acc = Inr (off', acc', r) \<Longrightarrow> off' + length r = off + length s"
  by (induction s off acc rule: scan_hex.induct) (auto simp: Let_def split: option.splits if_splits)

text \<open>
  The outer loop: \<open>ip\<close> holds the bytes stored so far (their number is the loop variable
  \<open>i\<close>) and \<open>ell\<close> the position of the ellipsis.  The result carries the rest of the text.
\<close>

function v6_loop :: "string \<Rightarrow> nat list \<Rightarrow> nat option \<Rightarrow>
    (parse_error, nat list \<times> nat option \<times> string) result" where
  "v6_loop s ip ell =
     (if 16 \<le> length ip then Ok (ip, ell, s)
      else case scan_hex s 0 0 of
        Inl e \<Rightarrow> Inl e
      | Inr (off, acc, rest) \<Rightarrow>
          if off = 0 then Err V6EmptyGroup
          else if rest \<noteq> [] \<and> hd rest = CHR ''.'' then
            (if ell = None \<and> length ip \<noteq> 12 then Err V6EmbeddedPlace
             else if length ip + 4 > 16 then Err V6EmbeddedRoom
             else rbind (v4_fields None s 0 0 []) (\<lambda>fs. Ok (ip @ fs, ell, [])))
          else
            let ip' = ip @ [acc div 256, acc mod 256] in
            (case rest of
              [] \<Rightarrow> Ok (ip', ell, [])
            | c # cs \<Rightarrow>
                if c \<noteq> CHR '':'' then Err V6WantColon
                else (case cs of
                  [] \<Rightarrow> Err V6ColonAtEnd
                | d # ds \<Rightarrow>
                    if d = CHR '':'' then
                      (if ell \<noteq> None then Err V6MultipleEllipsis
                       else if ds = [] then Ok (ip', Some (length ip'), [])
                       else v6_loop ds ip' (Some (length ip')))
                    else v6_loop cs ip' ell)))"
  by pat_completeness auto
termination
  by (relation "measure (\<lambda>(s, ip, ell). length s)") (auto dest!: scan_hex_shorter)

declare v6_loop.simps [simp del]

definition v6_finish :: "string \<Rightarrow> nat list \<Rightarrow> nat option \<Rightarrow> string \<Rightarrow> (parse_error, addr) result" where
  "v6_finish zone ip ell rest =
     (if rest \<noteq> [] then Err V6TrailingGarbage
      else if length ip < 16 then
        (case ell of
           None \<Rightarrow> Err V6TooShort
         | Some e \<Rightarrow>
             Ok (Addr6 (bytes_word (take e ip @ replicate (16 - length ip) 0 @ drop e ip)) zone))
      else if ell \<noteq> None then Err V6EllipsisEmpty
      else Ok (Addr6 (bytes_word ip) zone))"

definition parse_v6 :: "string \<Rightarrow> (parse_error, addr) result" where
  "parse_v6 inp =
     (let (s, zone, cut) = Cut inp CHR ''%'' in
      if cut \<and> zone = [] then Err V6EmptyZone
      else if HasPrefix s ''::'' then
        (if length s = 2 then Ok (Addr6 0 zone)
         else rbind (v6_loop (drop 2 s) [] (Some 0)) (\<lambda>(ip, ell, rest). v6_finish zone ip ell rest))
      else rbind (v6_loop s [] None) (\<lambda>(ip, ell, rest). v6_finish zone ip ell rest))"

text \<open>\<open>ParseAddr\<close> dispatches on the first of the bytes dot, colon and percent.\<close>

fun parse_dispatch :: "string \<Rightarrow> string \<Rightarrow> (parse_error, addr) result" where
  "parse_dispatch s [] = Err UnableToParse"
| "parse_dispatch s (c # cs) =
     (if c = CHR ''.'' then parse_v4 s
      else if c = CHR '':'' then parse_v6 s
      else if c = CHR ''%'' then Err MissingIPv6Address
      else parse_dispatch s cs)"

definition ParseAddr :: "string \<Rightarrow> (parse_error, addr) result" where
  "ParseAddr s = parse_dispatch s s"

lemma ParseAddr_no_mark:
  assumes "CHR ''.'' \<notin> set s" and "CHR '':'' \<notin> set s"
  shows "\<exists>e. ParseAddr s = Err e"
proof -
  have "\<exists>e. parse_dispatch t u = Err e" if "set u \<subseteq> set s" for t u
    using that assms by (induction u) auto
  then show ?thesis by (simp add: ParseAddr_def)
qed

lemma parse_v4_Inr: "parse_v4 s = Inr a \<Longrightarrow> \<exists>w. a = Addr4 w"
  by (auto simp: parse_v4_def res_simps)

lemma v6_finish_Inr: "v6_finish z ip ell r = Inr a \<Longrightarrow> \<exists>w. a = Addr6 w z"
  by (auto simp: v6_finish_def split: if_splits option.splits)

lemma parse_v6_Inr: "parse_v6 s = Inr a \<Longrightarrow> \<exists>w z. a = Addr6 w z"
  by (auto simp: parse_v6_def res_simps split: prod.splits if_splits dest: v6_finish_Inr)

text \<open>A parsed literal is never the zero address.\<close>

lemma ParseAddr_valid: "ParseAddr s = Inr a \<Longrightarrow> IsValid a"
proof -
  have "parse_dispatch t u = Inr a \<Longrightarrow> IsValid a" for t u
    by (induction t u rule: parse_dispatch.induct)
      (auto split: if_splits dest: parse_v4_Inr parse_v6_Inr)
  then show "ParseAddr s = Inr a \<Longrightarrow> IsValid a" by (simp add: ParseAddr_def)
qed

lemma ParseAddr_canonical: "ParseAddr s = Inr a \<Longrightarrow> Zone a = [] \<Longrightarrow> canonical_addr (Unmap a)"
  by (intro canonical_Unmap ParseAddr_valid)

section \<open>CIDR prefixes\<close>

text \<open>\<open>pbits = None\<close> is the invalid length that \<open>Bits\<close> reports as -1.\<close>

datatype prefix = Prefix (paddr: addr) (pbits: "nat option")

definition PrefixFrom :: "addr \<Rightarrow> int \<Rightarrow> prefix" where
  "PrefixFrom a b =
     Prefix (WithZone a [])
       (if IsValid a \<and> 0 \<le> b \<and> b \<le> int (BitLen a) then Some (nat b) else None)"

definition PrefixBits :: "prefix \<Rightarrow> int" where
  "PrefixBits p = (case pbits p of None \<Rightarrow> -1 | Some b \<Rightarrow> int b)"

fun mask_addr :: "addr \<Rightarrow> nat \<Rightarrow> addr" where
  "mask_addr NoAddr b = NoAddr"
| "mask_addr (Addr4 w) b = Addr4 (w AND NOT (mask (32 - b)))"
| "mask_addr (Addr6 w z) b = Addr6 (w AND NOT (mask (128 - b))) z"

text \<open>\<open>Masked\<close> returns the zero prefix when the length is invalid.\<close>

definition Masked :: "prefix \<Rightarrow> prefix" where
  "Masked p = (case pbits p of
      None \<Rightarrow> Prefix NoAddr None
    | Some b \<Rightarrow> PrefixFrom (mask_addr (paddr p) b) (int b))"

fun Contains :: "prefix \<Rightarrow> addr \<Rightarrow> bool" where
  "Contains (Prefix (Addr4 p) (Some b)) (Addr4 a) = (drop_bit (32 - b) (a XOR p) = 0)"
| "Contains (Prefix (Addr6 p _) (Some b)) (Addr6 a z) =
     (z = [] \<and> (a XOR p) AND NOT (mask (128 - b)) = 0)"
| "Contains _ _ = False"

datatype prefix_error = NoSlash | PrefixAddr parse_error | PrefixZone | BadBits | BitsRange

definition ParsePrefix :: "string \<Rightarrow> (prefix_error, prefix) result" where
  "ParsePrefix s =
     (case LastIndexByte s CHR ''/'' of
        None \<Rightarrow> Err NoSlash
      | Some i \<Rightarrow>
          rbind (rmap_err PrefixAddr (ParseAddr (take i s))) (\<lambda>ip.
            if Is6 ip \<and> Zone ip \<noteq> [] then Err PrefixZone
            else let bs = drop (i + 1) s in
              if 1 < length bs \<and> \<not> (49 \<le> byte (hd bs) \<and> byte (hd bs) \<le> 57) then Err BadBits
              else case Atoi bs of
                  None \<Rightarrow> Err BadBits
                | Some b \<Rightarrow>
                    if b < 0 \<or> b > (if Is6 ip then 128 else 32) then Err BitsRange
                    else Ok (PrefixFrom ip b)))"

definition valid_prefix :: "prefix \<Rightarrow> bool" where
  "valid_prefix p \<longleftrightarrow>
     IsValid (paddr p) \<and> Zone (paddr p) = [] \<and> (\<exists>b. pbits p = Some b \<and> b \<le> BitLen (paddr p))"

definition masked_prefix :: "prefix \<Rightarrow> bool" where
  "masked_prefix p \<longleftrightarrow> valid_prefix p \<and> Masked p = p"

lemma xor_mask_zero:
  fixes a p :: "'a::len word"
  shows "(a XOR p) AND NOT (mask n) = 0 \<longleftrightarrow> drop_bit n a = drop_bit n p"
proof
  assume z: "(a XOR p) AND NOT (mask n) = 0"
  show "drop_bit n a = drop_bit n p"
  proof (rule bit_word_eqI)
    fix k assume "k < LENGTH('a)"
    have "bit ((a XOR p) AND NOT (mask n)) (n + k) = False" by (simp add: z)
    then show "bit (drop_bit n a) k = bit (drop_bit n p) k"
      by (auto simp: bit_simps dest: bit_imp_le_length)
  qed
next
  assume e: "drop_bit n a = drop_bit n p"
  show "(a XOR p) AND NOT (mask n) = 0"
  proof (rule bit_word_eqI)
    fix k assume k: "k < LENGTH('a)"
    have "bit (drop_bit n a) (k - n) = bit (drop_bit n p) (k - n)" by (simp add: e)
    with k show "bit ((a XOR p) AND NOT (mask n)) k = bit (0 :: 'a word) k"
      by (auto simp: bit_simps)
  qed
qed

lemma xor_eq_zero_iff:
  fixes x y :: "'a::len word"
  shows "x XOR y = 0 \<longleftrightarrow> x = y"
  by (metis xor.right_neutral xor_self_eq xor.assoc)

lemma drop_bit_xor_zero:
  fixes a p :: "'a::len word"
  shows "drop_bit n (a XOR p) = 0 \<longleftrightarrow> drop_bit n a = drop_bit n p"
  by (simp add: xor_eq_zero_iff)

lemma drop_bit_word_eq:
  fixes a p :: "'a::len word"
  shows "drop_bit n a = drop_bit n p \<longleftrightarrow> unat a div 2 ^ n = unat p div 2 ^ n"
proof -
  have q: "unat x div 2 ^ n = unat (drop_bit n x)" for x :: "'a word"
    by (subst unat_drop_bit_eq) (rule drop_bit_eq_div [symmetric])
  show ?thesis unfolding q by (auto intro: unsigned_word_eqI)
qed

lemma drop_bit_and_not_mask:
  fixes w :: "'a::len word"
  shows "drop_bit n (w AND NOT (mask n)) = drop_bit n w"
  by (rule bit_word_eqI) (auto simp: bit_simps dest: bit_imp_le_length)

lemma and_not_mask_quot:
  fixes w :: "'a::len word"
  shows "unat (w AND NOT (mask n)) div 2 ^ n = unat w div 2 ^ n"
  by (rule drop_bit_word_eq [THEN iffD1], rule drop_bit_and_not_mask)

text \<open>The numeric value of an address, and membership in a prefix as equality of quotients.\<close>

fun addr_num :: "addr \<Rightarrow> nat" where
  "addr_num NoAddr = 0"
| "addr_num (Addr4 w) = unat w"
| "addr_num (Addr6 w _) = unat w"

definition in_prefix :: "addr \<Rightarrow> nat \<Rightarrow> addr \<Rightarrow> bool" where
  "in_prefix p b a \<longleftrightarrow>
     BitLen a = BitLen p \<and> addr_num a div 2 ^ (BitLen p - b) = addr_num p div 2 ^ (BitLen p - b)"

lemma Contains_iff:
  assumes "IsValid p"
  shows "Contains (Prefix p (Some b)) a \<longleftrightarrow> Zone a = [] \<and> in_prefix p b a"
  using assms
  by (cases p; cases a)
    (auto simp: in_prefix_def xor_eq_zero_iff xor_mask_zero drop_bit_word_eq)

lemma Contains_valid: "Contains p a \<Longrightarrow> IsValid a \<and> Zone a = [] \<and> IsValid (paddr p) \<and> pbits p \<noteq> None"
  by (induction p a rule: Contains.induct) auto

lemma mask_addr_simps [simp]:
  "IsValid (mask_addr a b) = IsValid a" "BitLen (mask_addr a b) = BitLen a"
  "Zone (mask_addr a b) = Zone a" "mask_addr (mask_addr a b) b = mask_addr a b"
  by (cases a; simp add: and.assoc)+

lemma PrefixFrom_valid:
  "IsValid a \<Longrightarrow> 0 \<le> b \<Longrightarrow> b \<le> int (BitLen a) \<Longrightarrow> valid_prefix (PrefixFrom a b)"
  by (cases a) (auto simp: PrefixFrom_def valid_prefix_def)

lemma valid_prefix_PrefixFrom:
  "valid_prefix p \<Longrightarrow> \<exists>b. p = PrefixFrom (paddr p) (int b) \<and> b \<le> BitLen (paddr p)"
  by (cases p) (auto simp: PrefixFrom_def valid_prefix_def)

lemma Masked_valid: "valid_prefix p \<Longrightarrow> valid_prefix (Masked p)"
  by (cases p) (auto simp: valid_prefix_def Masked_def PrefixFrom_def)

lemma Masked_masked: "valid_prefix p \<Longrightarrow> masked_prefix (Masked p)"
  by (cases p) (auto simp: masked_prefix_def valid_prefix_def Masked_def PrefixFrom_def)

lemma mask_addr_quot:
  "b \<le> BitLen p \<Longrightarrow>
   addr_num (mask_addr p b) div 2 ^ (BitLen p - b) = addr_num p div 2 ^ (BitLen p - b)"
  by (cases p) (simp_all add: and_not_mask_quot)

text \<open>Clearing the host bits of a prefix does not change its members.\<close>

lemma Contains_Masked:
  assumes "valid_prefix p"
  shows "Contains (Masked p) a \<longleftrightarrow> Contains p a"
proof -
  obtain ip b where p: "p = Prefix ip (Some b)" and ip: "IsValid ip" "Zone ip = []" "b \<le> BitLen ip"
    using assms by (cases p) (auto simp: valid_prefix_def)
  have "Masked p = Prefix (mask_addr ip b) (Some b)"
    using ip by (simp add: p Masked_def PrefixFrom_def)
  then show ?thesis
    using ip by (simp add: p Contains_iff in_prefix_def mask_addr_quot)
qed

lemma ParsePrefix_valid: "ParsePrefix s = Inr p \<Longrightarrow> valid_prefix p"
  by (auto simp: ParsePrefix_def res_simps Let_def split: option.splits if_splits
      intro!: PrefixFrom_valid dest!: ParseAddr_valid simp: BitLen_valid)

section \<open>Textual form\<close>

definition addr4_string :: "32 word \<Rightarrow> string" where
  "addr4_string w =
     Itoa (unat w div 2 ^ 24) @ ''.'' @ Itoa (unat w div 2 ^ 16 mod 256) @ ''.'' @
     Itoa (unat w div 2 ^ 8 mod 256) @ ''.'' @ Itoa (unat w mod 256)"

definition hex_char :: "nat \<Rightarrow> char" where
  "hex_char d = (if d < 10 then char_of (48 + d) else char_of (87 + d))"

fun hex_string :: "nat \<Rightarrow> string" where
  "hex_string n = (if n < 16 then [hex_char n] else hex_string (n div 16) @ [hex_char (n mod 16)])"

declare hex_string.simps [simp del]

definition addr6_groups :: "128 word \<Rightarrow> nat list" where
  "addr6_groups w = map (\<lambda>i. unat w div 2 ^ (16 * (7 - i)) mod 65536) [0..<8]"

text \<open>
  \<open>appendTo6\<close>: the first longest run of at least two zero groups is written as a double
  colon.  Start and end are 255 while no run was found.
\<close>

definition zero_run :: "nat list \<Rightarrow> nat \<times> nat" where
  "zero_run g = fold (\<lambda>i (zs, ze).
     let l = length (takeWhile (\<lambda>x. x = 0) (drop i g)) in
     if 2 \<le> l \<and> ze - zs < l then (i, i + l) else (zs, ze)) [0..<8] (255, 255)"

definition addr6_string :: "128 word \<Rightarrow> string" where
  "addr6_string w =
     (let g = addr6_groups w; (zs, ze) = zero_run g in
      if zs = 255 then JoinWith CHR '':'' (map hex_string g)
      else JoinWith CHR '':'' (map hex_string (take zs g)) @ ''::'' @
           JoinWith CHR '':'' (map hex_string (drop ze g)))"

fun addr_string :: "addr \<Rightarrow> string" where
  "addr_string NoAddr = ''invalid IP''"
| "addr_string (Addr4 w) = addr4_string w"
| "addr_string (Addr6 w z) =
     (if drop_bit 32 w = 65535 then ''::ffff:'' @ addr4_string (ucast w) else addr6_string w) @
     (if z = [] then [] else CHR ''%'' # z)"

section \<open>IPv4-mapped addresses, bit by bit\<close>

lemma mask16: "(65535 :: 128 word) = mask 16"
  by (simp add: mask_eq_exp_minus_1)

lemma bit_map4: "bit (map4 a) k \<longleftrightarrow> bit a k \<or> (32 \<le> k \<and> k < 48)"
  by (auto simp: map4_def mask16 bit_simps dest: bit_imp_le_length)

lemma Unmap_map4 [simp]: "Unmap (Addr6 (map4 a) z) = Addr4 a"
proof -
  have "drop_bit 32 (map4 a) = 65535"
    by (rule bit_word_eqI) (auto simp: mask16 bit_simps bit_map4 dest: bit_imp_le_length)
  moreover have "ucast (map4 a) = a"
    by (rule bit_word_eqI) (auto simp: bit_simps bit_map4 dest: bit_imp_le_length)
  ultimately show ?thesis by simp
qed

lemma map4_ucast: "drop_bit 32 w = 65535 \<Longrightarrow> map4 (ucast w) = w"
proof (rule bit_word_eqI)
  fix k assume w: "drop_bit 32 w = 65535" and "k < LENGTH(128)"
  have h: "bit w (32 + j) \<longleftrightarrow> j < 16" for j
  proof -
    have "bit w (32 + j) \<longleftrightarrow> bit (drop_bit 32 w) j" by (simp add: bit_drop_bit_eq)
    also have "\<dots> \<longleftrightarrow> j < 16" unfolding w by (auto simp: mask16 bit_mask_iff)
    finally show ?thesis .
  qed
  show "bit (map4 (ucast w)) k \<longleftrightarrow> bit w k"
    using h [of "k - 32"] by (cases "k < 32") (auto simp: bit_map4 bit_simps)
qed

lemma drop_map4: "n \<le> 32 \<Longrightarrow> drop_bit n (map4 a) = drop_bit n (map4 c) \<longleftrightarrow> drop_bit n a = drop_bit n c"
proof
  assume n: "n \<le> 32" and e: "drop_bit n (map4 a) = drop_bit n (map4 c)"
  show "drop_bit n a = drop_bit n c"
  proof (rule bit_word_eqI)
    fix k assume k: "k < LENGTH(32)"
    have "bit (drop_bit n (map4 a)) k = bit (drop_bit n (map4 c)) k" by (simp add: e)
    with n k show "bit (drop_bit n a) k = bit (drop_bit n c) k"
      by (auto simp: bit_simps bit_map4 dest: bit_imp_le_length)
  qed
next
  assume n: "n \<le> 32" and e: "drop_bit n a = drop_bit n c"
  show "drop_bit n (map4 a) = drop_bit n (map4 c)"
  proof (rule bit_word_eqI)
    fix k assume k: "k < LENGTH(128)"
    have "bit (drop_bit n a) k = bit (drop_bit n c) k" by (simp add: e)
    with n k show "bit (drop_bit n (map4 a)) k = bit (drop_bit n (map4 c)) k"
      by (auto simp: bit_simps bit_map4)
  qed
qed

lemma mapped_mask_bits:
  assumes "Is4In6 (mask_addr (Addr6 w z) b)" shows "96 \<le> b"
proof -
  have "bit (drop_bit 32 (w AND NOT (mask (128 - b)))) 0 = bit (65535 :: 128 word) 0"
    using assms by simp
  then show ?thesis by (auto simp: mask16 bit_simps)
qed

lemma ucast_masked: 
  assumes "n \<le> 32" "w AND NOT (mask n) = w"
  shows "(ucast w :: 32 word) AND NOT (mask n) = ucast (w :: 128 word)"
proof (rule bit_word_eqI)
  fix k assume k: "k < LENGTH(32)"
  have "bit (w AND NOT (mask n)) k = bit w k" by (simp add: assms(2))
  with k show "bit ((ucast w :: 32 word) AND NOT (mask n)) k = bit (ucast w :: 32 word) k"
    by (auto simp: bit_simps)
qed

end
