(* ===== verification/Hostname.thy ===== *)
theory Hostname
  imports Netip
begin

text \<open>
  internal/policy/rules.go, \<open>NormalizeHostname\<close> and \<open>validateHostnameLabel\<close>: the canonical
  ASCII form of a hostname and the predicate \<open>canonical_hostname\<close> it establishes.  The
  IDNA profile is the parameter \<open>idna_to_ascii\<close> of \<open>text_lib\<close>; \<open>idna_stable\<close> is the
  documented idempotence of ToASCII that some properties of repeated normalisation need.
\<close>

datatype host_error =
    InvalidUtf8
  | HostEmpty
  | IdnaError
  | HostTooLong
  | LabelEmpty
  | LabelTooLong
  | LabelHyphen
  | LabelChar

definition label_char :: "char \<Rightarrow> bool" where
  "label_char c \<longleftrightarrow> is_lower c \<or> is_digit c \<or> c = CHR ''-''"

text \<open>
  The source ranges over the runes of the label.  A rune below 128 is one byte and every
  other rune is refused, so the verdict is that of the bytes.
\<close>

definition validateHostnameLabel :: "string \<Rightarrow> (host_error, unit) result" where
  "validateHostnameLabel label =
     (if label = [] then Err LabelEmpty
      else if length label > 63 then Err LabelTooLong
      else if hd label = CHR ''-'' \<or> last label = CHR ''-'' then Err LabelHyphen
      else if \<not> list_all label_char label then Err LabelChar
      else Ok ())"

fun validate_labels :: "string list \<Rightarrow> (host_error, unit) result" where
  "validate_labels [] = Ok ()"
| "validate_labels (l # ls) = rbind (validateHostnameLabel l) (\<lambda>_. validate_labels ls)"

definition NormalizeHostname :: "text_lib \<Rightarrow> string \<Rightarrow> (host_error, string) result" where
  "NormalizeHostname tx raw =
     (if \<not> ValidString raw then Err InvalidUtf8
      else
        let raw = TrimSuffix raw ''.'' in
        if raw = [] then Err HostEmpty
        else case idna_to_ascii tx raw of
            None \<Rightarrow> Err IdnaError
          | Some ascii \<Rightarrow>
              let ascii = ToLower (uni_lower tx) ascii in
              if length ascii > 253 then Err HostTooLong
              else rbind (validate_labels (SplitByte ascii CHR ''.'')) (\<lambda>_. Ok ascii))"

section \<open>Canonical hostnames\<close>

definition canonical_label :: "string \<Rightarrow> bool" where
  "canonical_label l \<longleftrightarrow>
     l \<noteq> [] \<and> length l \<le> 63 \<and> hd l \<noteq> CHR ''-'' \<and> last l \<noteq> CHR ''-'' \<and> list_all label_char l"

definition canonical_hostname :: "string \<Rightarrow> bool" where
  "canonical_hostname h \<longleftrightarrow>
     length h \<le> 253 \<and> list_all canonical_label (SplitByte h CHR ''.'')"

lemma validateHostnameLabel_iff [simp]: "validateHostnameLabel l = Inr u \<longleftrightarrow> canonical_label l"
  by (auto simp: validateHostnameLabel_def canonical_label_def)

lemma validate_labels_iff [simp]: "validate_labels ls = Inr u \<longleftrightarrow> list_all canonical_label ls"
  by (induction ls) (auto simp: rbind_Inr_iff)

lemma canonical_hostname_nonempty: "canonical_hostname h \<Longrightarrow> h \<noteq> []"
  by (auto simp: canonical_hostname_def canonical_label_def)

lemma canonical_hostname_chars:
  assumes "canonical_hostname h" and "c \<in> set h"
  shows "label_char c \<or> c = CHR ''.''"
  using assms set_SplitByte [of h "CHR ''.''"]
  by (fastforce simp: canonical_hostname_def canonical_label_def list_all_iff)

lemma label_char_ascii: "label_char c \<Longrightarrow> byte c < 128 \<and> \<not> is_upper c"
  by (auto simp: label_char_def is_lower_def is_digit_def is_upper_def byte_def)

lemma canonical_hostname_ascii: "canonical_hostname h \<Longrightarrow> is_ascii h"
  unfolding is_ascii_def list_all_iff
  using canonical_hostname_chars label_char_ascii by (fastforce simp: byte_def)

lemma canonical_hostname_not_upper: "canonical_hostname h \<Longrightarrow> c \<in> set h \<Longrightarrow> \<not> is_upper c"
  using canonical_hostname_chars label_char_ascii by (fastforce simp: is_upper_def byte_def)

lemma canonical_hostname_lower [simp]: "canonical_hostname h \<Longrightarrow> ToLower u h = h"
  by (simp add: ToLower_def canonical_hostname_ascii map_idI lower_byte_def canonical_hostname_not_upper)

lemma not_label_char [simp]:
  "\<not> label_char CHR '':''" "\<not> label_char CHR ''[''" "\<not> label_char CHR '']''"
  "\<not> label_char CHR ''*''" "\<not> label_char CHR ''%''" "\<not> label_char CHR ''.''" "\<not> label_char CHR ''/''"
  by (simp_all add: label_char_def is_lower_def is_digit_def byte_def)

lemma canonical_hostname_no_punct:
  assumes "canonical_hostname h"
  shows "CHR '':'' \<notin> set h" "CHR ''['' \<notin> set h" "CHR '']'' \<notin> set h" "CHR ''*'' \<notin> set h"
    "CHR ''%'' \<notin> set h" "CHR ''/'' \<notin> set h"
  using canonical_hostname_chars [OF assms] by force+

lemma canonical_hostname_no_dot_end: "canonical_hostname h \<Longrightarrow> TrimSuffix h ''.'' = h"
proof (rule ccontr)
  assume c: "canonical_hostname h" and t: "TrimSuffix h ''.'' \<noteq> h"
  then obtain t where h: "h = t @ ''.''" using TrimSuffix_cases by metis
  with c show False by (simp add: canonical_hostname_def SplitByte_snoc canonical_label_def)
qed

lemma NormalizeHostname_canonical:
  "NormalizeHostname tx raw = Inr h \<Longrightarrow> canonical_hostname h"
  by (auto simp: NormalizeHostname_def Let_def res_simps canonical_hostname_def
      split: if_splits option.splits)

lemma NormalizeHostname_nonempty [simp]: "NormalizeHostname tx raw \<noteq> Inr []"
  using NormalizeHostname_canonical canonical_hostname_nonempty by blast

definition idna_stable :: "text_lib \<Rightarrow> bool" where
  "idna_stable tx \<longleftrightarrow>
     (\<forall>x y. idna_to_ascii tx x = Some y \<longrightarrow>
        idna_to_ascii tx (ToLower (uni_lower tx) y) = Some (ToLower (uni_lower tx) y))"

lemma NormalizeHostname_Inr_idna:
  assumes "NormalizeHostname tx raw = Inr h"
  shows "\<exists>x y. idna_to_ascii tx x = Some y \<and> ToLower (uni_lower tx) y = h"
  using assms by (auto simp: NormalizeHostname_def Let_def res_simps split: if_splits option.splits)

lemma NormalizeHostname_fixed:
  assumes "canonical_hostname h" and "idna_to_ascii tx h = Some h"
  shows "NormalizeHostname tx h = Inr h"
  using assms canonical_hostname_no_dot_end [OF assms(1)]
    canonical_hostname_nonempty [OF assms(1)]
    ValidString_ascii [OF canonical_hostname_ascii [OF assms(1)]]
  by (auto simp: NormalizeHostname_def res_simps canonical_hostname_def)

lemma NormalizeHostname_idem:
  assumes "idna_stable tx" and "NormalizeHostname tx raw = Inr h"
  shows "NormalizeHostname tx h = Inr h"
  using assms NormalizeHostname_Inr_idna [OF assms(2)]
  by (auto simp: idna_stable_def intro!: NormalizeHostname_fixed NormalizeHostname_canonical)

text \<open>
  A concrete profile for the closed instances of the theorems: the identity on hostnames
  that are already ASCII, an error on every other text.  It is stable.
\<close>

definition ascii_lib :: text_lib where
  "ascii_lib = \<lparr>idna_to_ascii = (\<lambda>s. if is_ascii s then Some s else None),
     uni_lower = id, uni_upper = id, uni_trim = id, uni_fold = (=)\<rparr>"

lemma ascii_lib_stable: "idna_stable ascii_lib"
proof -
  have "is_ascii (map lower_byte s)" if "is_ascii s" for s
    using that by (auto simp: is_ascii_def list_all_iff lower_byte_def is_upper_def byte_def)
  then show ?thesis
    by (auto simp: idna_stable_def ascii_lib_def ToLower_def split: if_splits)
qed

end
