(* ===== verification/Logging.thy ===== *)
theory Logging
  imports Prelude
begin

text \<open>
  internal/logging/logging.go: the levels and their order, the logger and its prefix chain,
  and \<open>logf\<close>, which decides what reaches stderr.  A \<open>*Logger\<close> may be nil, so it is an
  option.  The text that \<open>fmt.Sprintf\<close> makes of a format string and its arguments is a
  function of the format (\<open>None\<close> when there are no arguments).
\<close>

section \<open>Levels\<close>

datatype level = Silent | Warning | Traffic | Info | Debug

fun level_num :: "level \<Rightarrow> nat" where
  "level_num Silent = 0"
| "level_num Warning = 1"
| "level_num Traffic = 2"
| "level_num Info = 3"
| "level_num Debug = 4"

text \<open>The order of the levels is the order of the Go constants.\<close>

instantiation level :: linorder
begin

definition less_eq_level :: "level \<Rightarrow> level \<Rightarrow> bool" where
  "less_eq_level a b \<longleftrightarrow> level_num a \<le> level_num b"

definition less_level :: "level \<Rightarrow> level \<Rightarrow> bool" where
  "less_level a b \<longleftrightarrow> level_num a < level_num b"

instance
proof
  fix a b :: level
  show "a \<le> b \<Longrightarrow> b \<le> a \<Longrightarrow> a = b"
    by (cases a; cases b) (simp_all add: less_eq_level_def)
qed (auto simp: less_eq_level_def less_level_def)

end

fun level_string :: "level \<Rightarrow> string" where
  "level_string Silent = ''silent''"
| "level_string Warning = ''warning''"
| "level_string Traffic = ''traffic''"
| "level_string Info = ''info''"
| "level_string Debug = ''debug''"

section \<open>Loggers\<close>

text \<open>\<open>has_writer\<close> is False for a nil writer; the writer itself is the stream \<open>logf\<close> appends to.\<close>

record logger =
  colored :: bool
  lg_level :: level
  lg_prefix :: string
  has_writer :: bool

definition WithPrefix :: "logger option \<Rightarrow> string \<Rightarrow> logger option" where
  "WithPrefix lg prefix = (case lg of
      None \<Rightarrow> None
    | Some l \<Rightarrow>
        Some \<lparr>colored = colored l, lg_level = lg_level l,
          lg_prefix = (if lg_prefix l \<noteq> [] then lg_prefix l @ '': '' @ prefix else prefix),
          has_writer = has_writer l\<rparr>)"

definition parse_level :: "text_lib \<Rightarrow> string \<Rightarrow> level option" where
  "parse_level tx name =
     (let s = ToLower (uni_lower tx) (TrimSpace (uni_trim tx) name) in
      if s = ''silent'' then Some Silent
      else if s = ''warning'' then Some Warning
      else if s = ''traffic'' then Some Traffic
      else if s = ''info'' then Some Info
      else if s = ''debug'' then Some Debug
      else None)"

text \<open>
  \<open>New\<close>: \<open>file_term\<close> is \<open>None\<close> for a writer that is no \<open>*os.File\<close>, otherwise what
  \<open>term.IsTerminal\<close> says of it.  The error is the rejected level name.
\<close>

definition new_logger ::
  "text_lib \<Rightarrow> bool \<Rightarrow> bool option \<Rightarrow> string \<Rightarrow> string \<Rightarrow> (string, logger option) result" where
  "new_logger tx writer file_term name prefix =
     (case parse_level tx name of
        None \<Rightarrow> Err name
      | Some lv \<Rightarrow>
          let l = \<lparr>colored = (case file_term of None \<Rightarrow> False | Some t \<Rightarrow> t), lg_level = lv,
                   lg_prefix = [], has_writer = writer\<rparr>
          in if prefix = [] then Ok (Some l) else Ok (WithPrefix (Some l) prefix))"

definition LevelName :: "logger option \<Rightarrow> string" where
  "LevelName lg = (case lg of None \<Rightarrow> level_string Silent | Some l \<Rightarrow> level_string (lg_level l))"

definition logs_at :: "logger option \<Rightarrow> level \<Rightarrow> bool" where
  "logs_at lg lv = (case lg of
      None \<Rightarrow> False
    | Some l \<Rightarrow> has_writer l \<and> lv \<noteq> Silent \<and> \<not> lv > lg_level l)"

definition esc :: string where "esc = [char_of (27 :: nat)]"

definition logf ::
  "text_lib \<Rightarrow> logger option \<Rightarrow> level \<Rightarrow> string \<Rightarrow> string \<Rightarrow> string \<Rightarrow> (string \<Rightarrow> string) option \<Rightarrow> string" where
  "logf tx lg lv label color format args =
     (case lg of
        None \<Rightarrow> []
      | Some l \<Rightarrow>
          if \<not> has_writer l \<or> lv = Silent \<or> lv > lg_level l then []
          else
            let text = TrimSpace (uni_trim tx) format;
                text = (case args of None \<Rightarrow> text | Some sprintf \<Rightarrow> sprintf text);
                reset = (if colored l then esc @ ''[0m'' else []);
                color = (if colored l then color else []);
                pre = (if lg_prefix l \<noteq> [] then lg_prefix l @ '': '' else [])
            in color @ ''airjail: '' @ label @ '': '' @ pre @ text @ reset @ [char_of (10 :: nat)])"

definition Debugf where "Debugf tx lg = logf tx lg Debug ''debug'' (esc @ ''[2m'')"
definition Infof where "Infof tx lg = logf tx lg Info ''info'' (esc @ ''[36m'')"
definition Allowf where "Allowf tx lg = logf tx lg Traffic ''allowed'' (esc @ ''[32m'')"
definition Blockf where "Blockf tx lg = logf tx lg Traffic ''blocked'' (esc @ ''[31m'')"
definition Warnf where "Warnf tx lg = logf tx lg Warning ''warning'' (esc @ ''[33m'')"

section \<open>Lemmas\<close>

lemma level_string_clean [simp]:
  "TrimSpace u (level_string l) = level_string l" "ToLower v (level_string l) = level_string l"
  by (cases l; simp add: TrimSpace_def ToLower_def is_ascii_def is_space_def byte_def lower_byte_def
      is_upper_def)+

lemma parse_level_string [simp]: "parse_level tx (level_string l) = Some l"
  by (cases l) (simp_all add: parse_level_def del: level_string.simps, simp_all)

lemma logf_silent_iff: "logf tx lg lv label color format args = [] \<longleftrightarrow> \<not> logs_at lg lv"
  by (auto simp: logf_def logs_at_def Let_def split: option.splits)

end
