(* ===== verification/Rules.thy ===== *)
theory Rules
  imports Hostname Logging
begin

text \<open>
  internal/policy/rules.go: the rule types, the parser of one rule (\<open>splitRulePort\<close>,
  \<open>parsePort\<close>, \<open>normalizePrefix\<close>, \<open>add\<close>) and of a list of rules (\<open>parseRules\<close>).  What the
  parser logs is threaded as a list of \<open>policy_log\<close> events, in order.  The invariant
  \<open>wf_rule_set\<close> says what a parsed rule set looks like: ports from 1 to 65535, canonical
  hostnames, canonical addresses, masked prefixes that are never IPv4-mapped.
\<close>

section \<open>Rule types\<close>

record port_matcher =
  pm_port :: "16 word"
  pm_set :: bool

definition port_matches :: "port_matcher \<Rightarrow> 16 word \<Rightarrow> bool" where
  "port_matches m port \<longleftrightarrow> \<not> pm_set m \<or> pm_port m = port"

definition any_port :: port_matcher where
  "any_port = \<lparr>pm_port = 0, pm_set = False\<rparr>"

record host_rule =
  hr_hostname :: string
  hr_wildcard :: bool
  hr_port :: port_matcher
  hr_resolved :: "addr list"

record address_rule =
  ar_address :: addr
  ar_port :: port_matcher

record prefix_rule =
  pr_prefix :: prefix
  pr_port :: port_matcher

record rule_set =
  hosts :: "host_rule list"
  addresses :: "address_rule list"
  prefixes :: "prefix_rule list"

definition empty_rules :: rule_set where
  "empty_rules = \<lparr>hosts = [], addresses = [], prefixes = []\<rparr>"

datatype policy_log =
    CidrNormalized prefix prefix
  | RuleUnresolved string string
  | RuleNoAddresses string

fun policy_log_level :: "policy_log \<Rightarrow> level" where
  "policy_log_level (CidrNormalized p q) = Debug"
| "policy_log_level (RuleUnresolved h e) = Warning"
| "policy_log_level (RuleNoAddresses h) = Warning"

section \<open>Splitting off the port\<close>

datatype rule_error =
    RuleIsEmpty
  | NoClosingBracket
  | BracketEmpty
  | BracketWithoutPort
  | PortEmpty
  | PortOutOfRange
  | TargetEmpty
  | InvalidUnbracketed
  | AddressZone
  | BracketNotAddress
  | InvalidWildcard
  | HostError host_error

definition parsePort :: "string \<Rightarrow> (rule_error, port_matcher) result" where
  "parsePort raw =
     (if raw = [] then Err PortEmpty
      else case ParseUint 16 raw of
          None \<Rightarrow> Err PortOutOfRange
        | Some n \<Rightarrow>
            if n = 0 then Err PortOutOfRange
            else Ok \<lparr>pm_port = of_nat n, pm_set = True\<rparr>)"

text \<open>The result is the host text, the port and whether the host was in brackets.\<close>

definition splitRulePort :: "string \<Rightarrow> (rule_error, string \<times> port_matcher \<times> bool) result" where
  "splitRulePort raw =
     (if raw = [] then Err RuleIsEmpty
      else if HasPrefix raw ''['' then
        (case IndexByte raw CHR '']'' of
           None \<Rightarrow> Err NoClosingBracket
         | Some closing \<Rightarrow>
             if closing = 1 then Err BracketEmpty
             else if closing + 1 \<ge> length raw \<or> raw ! (closing + 1) \<noteq> CHR '':'' then
               Err BracketWithoutPort
             else rbind (parsePort (drop (closing + 2) raw)) (\<lambda>port.
               Ok (drop 1 (take closing raw), port, True)))
      else if is_ok (ParseAddr raw) then Ok (raw, any_port, False)
      else if is_ok (ParsePrefix raw) then Ok (raw, any_port, False)
      else
        let colons = CountByte raw CHR '':'' in
        if colons = 0 then Ok (raw, any_port, False)
        else if colons = 1 then
          (case LastIndexByte raw CHR '':'' of
             None \<Rightarrow> Err InvalidUnbracketed \<comment> \<open>not reachable: there is one colon\<close>
           | Some separator \<Rightarrow>
               if separator = 0 then Err TargetEmpty
               else rbind (parsePort (drop (separator + 1) raw)) (\<lambda>port.
                 Ok (take separator raw, port, False)))
        else Err InvalidUnbracketed)"

section \<open>Parsing rules\<close>

definition normalizePrefix :: "prefix \<Rightarrow> prefix" where
  "normalizePrefix p =
     (if \<not> Is4In6 (paddr p) then p
      else PrefixFrom (Unmap (paddr p)) (PrefixBits p - 96))"

text \<open>
  \<open>(*ruleSet).add\<close>: the rule set and the log before the call, the outcome and the log after
  it.  The rule set of an error outcome is discarded by the only caller.
\<close>

definition add_rule ::
  "text_lib \<Rightarrow> rule_set \<Rightarrow> string \<Rightarrow> policy_log list \<Rightarrow>
   (rule_error, rule_set) result \<times> policy_log list" where
  "add_rule tx rules raw logs =
     (case splitRulePort raw of
        Inl e \<Rightarrow> (Err e, logs)
      | Inr (host, port, bracketed) \<Rightarrow>
          (case ParsePrefix host of
             Inr prefix \<Rightarrow>
               let masked = Masked prefix;
                   logs = (if prefix \<noteq> masked then logs @ [CidrNormalized prefix masked] else logs)
               in (Ok (rules\<lparr>prefixes := prefixes rules @
                     [\<lparr>pr_prefix = normalizePrefix masked, pr_port = port\<rparr>]\<rparr>), logs)
           | Inl _ \<Rightarrow>
               (case ParseAddr host of
                  Inr address \<Rightarrow>
                    (if Zone address \<noteq> [] then Err AddressZone
                     else Ok (rules\<lparr>addresses := addresses rules @
                       [\<lparr>ar_address = Unmap address, ar_port = port\<rparr>]\<rparr>), logs)
                | Inl _ \<Rightarrow>
                    (if bracketed then Err BracketNotAddress
                     else
                       let wildcard = HasPrefix host ''*.'';
                           host = (if wildcard then TrimPrefix host ''*.'' else host)
                       in if CHR ''*'' \<in> set host then Err InvalidWildcard
                          else rbind (rmap_err HostError (NormalizeHostname tx host)) (\<lambda>hostname.
                            Ok (rules\<lparr>hosts := hosts rules @
                              [\<lparr>hr_hostname = hostname, hr_wildcard = wildcard, hr_port = port,
                                hr_resolved = []\<rparr>]\<rparr>)), logs))))"

text \<open>\<open>parseRules\<close> stops at the first rule in error and names it.\<close>

fun parse_rules_from ::
  "text_lib \<Rightarrow> rule_set \<Rightarrow> string list \<Rightarrow> policy_log list \<Rightarrow>
   (string \<times> rule_error, rule_set) result \<times> policy_log list" where
  "parse_rules_from tx rules [] logs = (Ok rules, logs)"
| "parse_rules_from tx rules (raw # raws) logs =
     (case add_rule tx rules raw logs of
        (Inl e, logs) \<Rightarrow> (Err (raw, e), logs)
      | (Inr rules', logs) \<Rightarrow> parse_rules_from tx rules' raws logs)"

definition parseRules ::
  "text_lib \<Rightarrow> string list \<Rightarrow> policy_log list \<Rightarrow>
   (string \<times> rule_error, rule_set) result \<times> policy_log list" where
  "parseRules tx raws logs = parse_rules_from tx empty_rules raws logs"

section \<open>Well-formed rule sets\<close>

definition wf_port :: "port_matcher \<Rightarrow> bool" where
  "wf_port m \<longleftrightarrow> (if pm_set m then pm_port m \<noteq> 0 else pm_port m = 0)"

definition wf_host_rule :: "host_rule \<Rightarrow> bool" where
  "wf_host_rule r \<longleftrightarrow>
     canonical_hostname (hr_hostname r) \<and> wf_port (hr_port r) \<and>
     list_all canonical_addr (hr_resolved r) \<and> distinct (hr_resolved r) \<and>
     (hr_wildcard r \<longrightarrow> hr_resolved r = [])"

definition wf_address_rule :: "address_rule \<Rightarrow> bool" where
  "wf_address_rule r \<longleftrightarrow> canonical_addr (ar_address r) \<and> wf_port (ar_port r)"

definition wf_prefix_rule :: "prefix_rule \<Rightarrow> bool" where
  "wf_prefix_rule r \<longleftrightarrow>
     masked_prefix (pr_prefix r) \<and> \<not> Is4In6 (paddr (pr_prefix r)) \<and> wf_port (pr_port r)"

definition wf_rule_set :: "rule_set \<Rightarrow> bool" where
  "wf_rule_set rs \<longleftrightarrow>
     list_all wf_host_rule (hosts rs) \<and> list_all wf_address_rule (addresses rs) \<and>
     list_all wf_prefix_rule (prefixes rs)"

lemma wf_any_port [simp]: "wf_port any_port"
  by (simp add: wf_port_def any_port_def)

lemma wf_empty_rules [simp]: "wf_rule_set empty_rules"
  by (simp add: wf_rule_set_def empty_rules_def)

text \<open>A parsed port is the number written, from 1 to 65535.\<close>

lemma parsePort_Inr:
  assumes "parsePort raw = Inr m"
  shows "wf_port m \<and> pm_set m \<and> unat (pm_port m) = digits_val raw \<and> list_all is_digit raw"
proof -
  obtain n where n: "ParseUint 16 raw = Some n" "n \<noteq> 0"
    and m: "m = \<lparr>pm_port = of_nat n, pm_set = True\<rparr>"
    using assms by (auto simp: parsePort_def split: if_splits option.splits)
  have b: "n < 65536" using ParseUint_bound [OF n(1)] by simp
  then have u: "unat (of_nat n :: 16 word) = n" by (simp add: unat_of_nat take_bit_nat_eq_self)
  then have "(of_nat n :: 16 word) \<noteq> 0" using n(2) by auto
  with u n(1) show ?thesis by (auto simp: m wf_port_def ParseUint_def split: if_splits)
qed

lemma splitRulePort_wf:
  "splitRulePort raw = Inr (host, port, bracketed) \<Longrightarrow> wf_port port"
  by (auto simp: splitRulePort_def Let_def res_simps dest!: parsePort_Inr split: if_splits option.splits)

section \<open>Parsing establishes the invariant\<close>

lemma masked_prefixE:
  assumes "masked_prefix p"
  obtains ip b where "p = Prefix ip (Some b)" "IsValid ip" "Zone ip = []" "b \<le> BitLen ip"
    "mask_addr ip b = ip"
  using assms
  by (cases p) (auto simp: masked_prefix_def valid_prefix_def Masked_def PrefixFrom_def)

lemma masked_prefixI:
  "IsValid ip \<Longrightarrow> Zone ip = [] \<Longrightarrow> b \<le> BitLen ip \<Longrightarrow> mask_addr ip b = ip \<Longrightarrow>
   masked_prefix (Prefix ip (Some b))"
  by (simp add: masked_prefix_def valid_prefix_def Masked_def PrefixFrom_def)

text \<open>
  A masked prefix with an IPv4-mapped address has at least 96 bits, so \<open>prefix.Bits()-96\<close>
  is never negative and the normalised prefix is valid.
\<close>

lemma normalizePrefix_4in6:
  assumes "masked_prefix p" and "Is4In6 (paddr p)"
  obtains w b where "p = Prefix (Addr6 w []) (Some b)" "96 \<le> b" "b \<le> 128" "drop_bit 32 w = 65535"
    "w AND NOT (mask (128 - b)) = w" "normalizePrefix p = Prefix (Addr4 (ucast w)) (Some (b - 96))"
proof -
  obtain ip b where p: "p = Prefix ip (Some b)" and ip: "IsValid ip" "Zone ip = []"
    and b: "b \<le> BitLen ip" and m: "mask_addr ip b = ip"
    using assms(1) by (rule masked_prefixE)
  obtain w where w: "ip = Addr6 w []" and d: "drop_bit 32 w = 65535"
    using assms(2) p ip by (cases ip) auto
  have 96: "96 \<le> b" using m assms(2) by (intro mapped_mask_bits [of w "[]"]) (simp add: p w)
  have "normalizePrefix p = Prefix (Addr4 (ucast w)) (Some (b - 96))"
    using 96 b d by (simp add: normalizePrefix_def p w PrefixFrom_def PrefixBits_def nat_diff_distrib')
  then show thesis using that p w b d 96 m by simp
qed

lemma normalizePrefix_wf:
  assumes "masked_prefix p"
  shows "masked_prefix (normalizePrefix p) \<and> \<not> Is4In6 (paddr (normalizePrefix p))"
proof (cases "Is4In6 (paddr p)")
  case True
  then show ?thesis
    using assms
    by (rule_tac normalizePrefix_4in6 [OF assms True])
      (auto intro!: masked_prefixI simp: ucast_masked)
next
  case False
  with assms show ?thesis by (simp add: normalizePrefix_def)
qed

lemma wf_rule_set_add [simp]:
  "wf_rule_set (rs\<lparr>prefixes := prefixes rs @ [p]\<rparr>) \<longleftrightarrow> wf_rule_set rs \<and> wf_prefix_rule p"
  "wf_rule_set (rs\<lparr>addresses := addresses rs @ [a]\<rparr>) \<longleftrightarrow> wf_rule_set rs \<and> wf_address_rule a"
  "wf_rule_set (rs\<lparr>hosts := hosts rs @ [h]\<rparr>) \<longleftrightarrow> wf_rule_set rs \<and> wf_host_rule h"
  by (auto simp: wf_rule_set_def)

lemma add_rule_wf:
  assumes "wf_rule_set rs" and "add_rule tx rs raw logs = (Inr rs', logs')"
  shows "wf_rule_set rs'"
proof -
  obtain host port br where sp: "splitRulePort raw = Inr (host, port, br)"
    using assms(2) by (cases "splitRulePort raw") (auto simp: add_rule_def)
  have port: "wf_port port" using sp by (rule splitRulePort_wf)
  show ?thesis
  proof (cases "ParsePrefix host")
    case (Inr p)
    then have "masked_prefix (Masked p)" by (intro Masked_masked ParsePrefix_valid)
    with Inr assms sp port show ?thesis
      by (auto simp: add_rule_def Let_def wf_prefix_rule_def dest: normalizePrefix_wf)
  next
    case (Inl e)
    with assms sp port show ?thesis
      by (auto simp: add_rule_def Let_def res_simps wf_address_rule_def wf_host_rule_def
          intro: ParseAddr_canonical dest: NormalizeHostname_canonical
          split: sum.splits if_splits)
  qed
qed

lemma parse_rules_from_wf:
  "wf_rule_set rs \<Longrightarrow> parse_rules_from tx rs raws logs = (Inr rs', logs') \<Longrightarrow> wf_rule_set rs'"
  by (induction raws arbitrary: rs logs) (auto split: prod.splits sum.splits dest: add_rule_wf)

lemma parseRules_wf: "parseRules tx raws logs = (Inr rs, logs') \<Longrightarrow> wf_rule_set rs"
  unfolding parseRules_def by (rule parse_rules_from_wf [OF wf_empty_rules])

text \<open>Every raw rule becomes exactly one rule.\<close>

definition rule_count :: "rule_set \<Rightarrow> nat" where
  "rule_count rs = length (hosts rs) + length (addresses rs) + length (prefixes rs)"

lemma add_rule_count:
  "add_rule tx rs raw logs = (Inr rs', logs') \<Longrightarrow> rule_count rs' = Suc (rule_count rs)"
  by (auto simp: add_rule_def Let_def res_simps rule_count_def split: sum.splits if_splits prod.splits)

lemma parse_rules_from_count:
  "parse_rules_from tx rs raws logs = (Inr rs', logs') \<Longrightarrow> rule_count rs' = rule_count rs + length raws"
  by (induction raws arbitrary: rs logs) (auto split: prod.splits sum.splits dest: add_rule_count)

lemma parseRules_count: "parseRules tx raws logs = (Inr rs, logs') \<Longrightarrow> rule_count rs = length raws"
  unfolding parseRules_def by (drule parse_rules_from_count) (simp add: rule_count_def empty_rules_def)

text \<open>Freshly parsed host rules carry no resolved addresses.\<close>

definition unresolved :: "rule_set \<Rightarrow> bool" where
  "unresolved rs \<longleftrightarrow> list_all (\<lambda>r. hr_resolved r = []) (hosts rs)"

lemma add_rule_unresolved:
  "unresolved rs \<Longrightarrow> add_rule tx rs raw logs = (Inr rs', logs') \<Longrightarrow> unresolved rs'"
  by (auto simp: add_rule_def Let_def res_simps unresolved_def split: sum.splits if_splits prod.splits)

lemma parseRules_unresolved:
  assumes "parseRules tx raws logs = (Inr rs, logs')" shows "unresolved rs"
proof -
  have "unresolved r \<Longrightarrow> parse_rules_from tx r raws l = (Inr r', l') \<Longrightarrow> unresolved r'" for r r' l l'
    by (induction raws arbitrary: r l) (auto split: prod.splits sum.splits dest: add_rule_unresolved)
  moreover have "unresolved empty_rules" by (simp add: unresolved_def empty_rules_def)
  ultimately show ?thesis using assms by (auto simp: parseRules_def)
qed

end
