(* ===== verification/Decision.thy ===== *)
theory Decision
  imports Prelude
begin

text \<open>
  The decision procedure of internal/policy/policy.go on its own, over any rule language:
  \<open>decide\<close> is the end of \<open>Allows\<close> for two rule sets.  The locale \<open>rule_matcher\<close> is the
  interface between the decision and the rules: whether a rule set matches a request, is
  empty, and how two rule sets are joined.  Its lemmas are the operating modes of the README
  (no access, allowlist, blocklist, mixed) and the monotonicity of the decision.
\<close>

definition decide :: "('r \<Rightarrow> bool) \<Rightarrow> ('r \<Rightarrow> 'q \<Rightarrow> bool) \<Rightarrow> 'r \<Rightarrow> 'r \<Rightarrow> 'q \<Rightarrow> bool" where
  "decide is_empty matches al bl q =
     (if is_empty al \<and> is_empty bl then False
      else
        let allowed = is_empty al \<or> matches al q in
        if \<not> allowed then False else \<not> matches bl q)"

locale rule_matcher =
  fixes is_empty :: "'r \<Rightarrow> bool"
    and matches :: "'r \<Rightarrow> 'q \<Rightarrow> bool"
    and join :: "'r \<Rightarrow> 'r \<Rightarrow> 'r"
  assumes empty_no_match: "is_empty r \<Longrightarrow> \<not> matches r q"
    and matches_join: "matches (join r s) q \<longleftrightarrow> matches r q \<or> matches s q"
    and empty_join: "is_empty (join r s) \<longleftrightarrow> is_empty r \<and> is_empty s"
begin

lemma decide_iff:
  "decide is_empty matches al bl q \<longleftrightarrow>
     \<not> (is_empty al \<and> is_empty bl) \<and> (is_empty al \<or> matches al q) \<and> \<not> matches bl q"
  by (auto simp: decide_def)

lemma no_rules_deny: "is_empty al \<Longrightarrow> is_empty bl \<Longrightarrow> \<not> decide is_empty matches al bl q"
  by (simp add: decide_iff)

lemma allowlist_mode:
  "\<not> is_empty al \<Longrightarrow> is_empty bl \<Longrightarrow> decide is_empty matches al bl q \<longleftrightarrow> matches al q"
  by (auto simp: decide_iff dest: empty_no_match)

lemma blocklist_mode:
  "is_empty al \<Longrightarrow> \<not> is_empty bl \<Longrightarrow> decide is_empty matches al bl q \<longleftrightarrow> \<not> matches bl q"
  by (auto simp: decide_iff)

lemma mixed_mode:
  "\<not> is_empty al \<Longrightarrow> \<not> is_empty bl \<Longrightarrow> decide is_empty matches al bl q \<longleftrightarrow> matches al q \<and> \<not> matches bl q"
  by (auto simp: decide_iff)

lemma block_vetoes: "matches bl q \<Longrightarrow> \<not> decide is_empty matches al bl q"
  by (simp add: decide_iff)

text \<open>
  Extending a non-empty allow list grows the decision and extending the block list shrinks
  it, unless the policy was empty: the first block rule opens the default.
\<close>

lemma more_block_denies_more:
  "\<not> (is_empty al \<and> is_empty bl) \<Longrightarrow> decide is_empty matches al (join bl bl') q \<Longrightarrow>
   decide is_empty matches al bl q"
  by (auto simp: decide_iff matches_join empty_join)

lemma more_allow_allows_more:
  "\<not> is_empty al \<Longrightarrow> decide is_empty matches al bl q \<Longrightarrow> decide is_empty matches (join al al') bl q"
  by (auto simp: decide_iff matches_join empty_join)

end

end
