(* ===== verification/Policy.thy ===== *)
theory Policy
  imports Rules Decision
begin

text \<open>
  internal/policy/policy.go: matching of a rule set, the policy and its decision \<open>Allows\<close>,
  and the construction \<open>New\<close> with its resolver cache.  The resolver is outside the
  repository: a function of the hostname and of the state of the outside world \<open>'w\<close>.
\<close>

section \<open>Matching\<close>

definition matchesHostname :: "host_rule \<Rightarrow> string \<Rightarrow> bool" where
  "matchesHostname r hostname =
     (if \<not> hr_wildcard r then hostname = hr_hostname r
      else length hostname > length (hr_hostname r) \<and> HasSuffix hostname (''.'' @ hr_hostname r))"

fun match_hosts :: "host_rule list \<Rightarrow> string \<Rightarrow> addr \<Rightarrow> 16 word \<Rightarrow> bool" where
  "match_hosts [] hostname address port = False"
| "match_hosts (r # rs) hostname address port =
     (if \<not> port_matches (hr_port r) port then match_hosts rs hostname address port
      else if hostname \<noteq> [] \<and> matchesHostname r hostname then True
      else if IsValid address \<and> address \<in> set (hr_resolved r) then True
      else match_hosts rs hostname address port)"

fun match_addresses :: "address_rule list \<Rightarrow> addr \<Rightarrow> 16 word \<Rightarrow> bool" where
  "match_addresses [] address port = False"
| "match_addresses (r # rs) address port =
     (if port_matches (ar_port r) port \<and> ar_address r = address then True
      else match_addresses rs address port)"

fun match_prefixes :: "prefix_rule list \<Rightarrow> addr \<Rightarrow> 16 word \<Rightarrow> bool" where
  "match_prefixes [] address port = False"
| "match_prefixes (r # rs) address port =
     (if port_matches (pr_port r) port \<and> Contains (pr_prefix r) address then True
      else match_prefixes rs address port)"

definition rules_matches :: "rule_set \<Rightarrow> string \<Rightarrow> addr \<Rightarrow> 16 word \<Rightarrow> bool" where
  "rules_matches rs hostname address port =
     (if match_hosts (hosts rs) hostname address port then True
      else if IsValid address then
        (if match_addresses (addresses rs) address port then True
         else match_prefixes (prefixes rs) address port)
      else False)"

definition rules_empty :: "rule_set \<Rightarrow> bool" where
  "rules_empty rs \<longleftrightarrow> length (hosts rs) = 0 \<and> length (addresses rs) = 0 \<and> length (prefixes rs) = 0"

section \<open>The policy\<close>

record policy =
  pol_allow :: rule_set
  pol_block :: rule_set

definition policy_empty :: "policy \<Rightarrow> bool" where
  "policy_empty p \<longleftrightarrow> rules_empty (pol_allow p) \<and> rules_empty (pol_block p)"

datatype allows_error = PortZero | NoTarget | DestinationHost host_error | DestinationZone

type_synonym request = "string \<times> addr \<times> 16 word"

text \<open>The three checks and the normalisation at the start of \<open>Allows\<close>.\<close>

definition normalize_request ::
  "text_lib \<Rightarrow> string \<Rightarrow> addr \<Rightarrow> 16 word \<Rightarrow> (allows_error, request) result" where
  "normalize_request tx hostname address port =
     (if port = 0 then Err PortZero
      else if hostname = [] \<and> \<not> IsValid address then Err NoTarget
      else
        rbind (if hostname \<noteq> [] then rmap_err DestinationHost (NormalizeHostname tx hostname)
               else Ok hostname) (\<lambda>hostname.
          if IsValid address then
            (if Zone address \<noteq> [] then Err DestinationZone
             else Ok (hostname, Unmap address, port))
          else Ok (hostname, address, port)))"

definition Allows :: "text_lib \<Rightarrow> policy \<Rightarrow> string \<Rightarrow> addr \<Rightarrow> 16 word \<Rightarrow> (allows_error, bool) result" where
  "Allows tx p hostname address port =
     rbind (normalize_request tx hostname address port) (\<lambda>(hostname, address, port).
       Ok (decide rules_empty (\<lambda>rs (h, a, n). rules_matches rs h a n) (pol_allow p) (pol_block p)
             (hostname, address, port)))"

section \<open>Construction\<close>

type_synonym 'w resolver = "string \<Rightarrow> 'w \<Rightarrow> (string, addr list) result \<times> 'w"

type_synonym lookup_result = "(string, addr list) result"

text \<open>\<open>normalizeAddresses\<close>: the loop over the answers with the set of those already seen.\<close>

fun normalize_from :: "addr set \<Rightarrow> addr list \<Rightarrow> addr list" where
  "normalize_from seen [] = []"
| "normalize_from seen (a # as) =
     (if \<not> IsValid a \<or> Zone a \<noteq> [] then normalize_from seen as
      else if Unmap a \<in> seen then normalize_from seen as
      else Unmap a # normalize_from (insert (Unmap a) seen) as)"

definition normalizeAddresses :: "addr list \<Rightarrow> addr list" where
  "normalizeAddresses as = normalize_from {} as"

datatype policy_error =
    ParseAllow string rule_error
  | ParseBlock string rule_error
  | ResolveFailed string string
  | ResolveEmpty string

record 'w new_state =
  cache :: "string \<rightharpoonup> lookup_result"
  world :: 'w
  logs :: "policy_log list"

definition lookup_cached :: "'w resolver \<Rightarrow> string \<Rightarrow> 'w new_state \<Rightarrow> lookup_result \<times> 'w new_state" where
  "lookup_cached resolver hostname st =
     (case cache st hostname of
        Some result \<Rightarrow> (result, st)
      | None \<Rightarrow>
          let (answer, w) = resolver hostname (world st);
              result = map_sum id normalizeAddresses answer
          in (result, st\<lparr>cache := (cache st)(hostname \<mapsto> result), world := w\<rparr>))"

text \<open>
  The body of the loop of \<open>resolveHostRules\<close>: a wildcard rule is skipped; a failed or empty
  lookup is an error unless unresolved rules are allowed, and then it is logged and leaves
  the rule as it was.
\<close>

definition resolve_rule ::
  "'w resolver \<Rightarrow> bool \<Rightarrow> host_rule \<Rightarrow> 'w new_state \<Rightarrow> (policy_error, host_rule) result \<times> 'w new_state" where
  "resolve_rule resolver lenient r st =
     (if hr_wildcard r then (Ok r, st)
      else
        (case lookup_cached resolver (hr_hostname r) st of (result, st) \<Rightarrow>
          (case result of
             Inl e \<Rightarrow>
               if \<not> lenient then (Err (ResolveFailed (hr_hostname r) e), st)
               else (Ok r, st\<lparr>logs := logs st @ [RuleUnresolved (hr_hostname r) e]\<rparr>)
           | Inr as \<Rightarrow>
               if as = [] then
                 (if \<not> lenient then (Err (ResolveEmpty (hr_hostname r)), st)
                  else (Ok r, st\<lparr>logs := logs st @ [RuleNoAddresses (hr_hostname r)]\<rparr>))
               else (Ok (r\<lparr>hr_resolved := as\<rparr>), st))))"

text \<open>The loop: it stops at the first error.  The result is the rewritten slice of rules.\<close>

fun resolveHostRules ::
  "'w resolver \<Rightarrow> bool \<Rightarrow> host_rule list \<Rightarrow> 'w new_state \<Rightarrow>
   (policy_error, host_rule list) result \<times> 'w new_state" where
  "resolveHostRules resolver lenient [] st = (Ok [], st)"
| "resolveHostRules resolver lenient (r # rs) st =
     (case resolve_rule resolver lenient r st of
        (Inl e, st) \<Rightarrow> (Err e, st)
      | (Inr r', st) \<Rightarrow>
          (case resolveHostRules resolver lenient rs st of
             (res, st) \<Rightarrow> (rbind res (\<lambda>rs'. Ok (r' # rs')), st)))"

text \<open>
  \<open>New\<close>: both lists are parsed before anything is looked up; the allow rules are resolved
  before the block rules, with one cache for both.
\<close>

definition new_policy ::
  "text_lib \<Rightarrow> 'w resolver \<Rightarrow> bool \<Rightarrow> string list \<Rightarrow> string list \<Rightarrow> 'w \<Rightarrow>
   (policy_error, policy) result \<times> 'w new_state" where
  "new_policy tx resolver lenient allowRules blockRules w =
     (case parseRules tx allowRules [] of
        (Inl (raw, e), lg) \<Rightarrow> (Err (ParseAllow raw e), \<lparr>cache = Map.empty, world = w, logs = lg\<rparr>)
      | (Inr al, lg) \<Rightarrow>
          (case parseRules tx blockRules lg of
             (Inl (raw, e), lg) \<Rightarrow> (Err (ParseBlock raw e), \<lparr>cache = Map.empty, world = w, logs = lg\<rparr>)
           | (Inr bl, lg) \<Rightarrow>
               (case resolveHostRules resolver lenient (hosts al)
                       \<lparr>cache = Map.empty, world = w, logs = lg\<rparr> of
                  (Inl e, st) \<Rightarrow> (Err e, st)
                | (Inr ahosts, st) \<Rightarrow>
                    (case resolveHostRules resolver lenient (hosts bl) st of
                       (Inl e, st) \<Rightarrow> (Err e, st)
                     | (Inr bhosts, st) \<Rightarrow>
                         (Ok \<lparr>pol_allow = al\<lparr>hosts := ahosts\<rparr>, pol_block = bl\<lparr>hosts := bhosts\<rparr>\<rparr>, st)))))"

end
