(* ===== verification/Policy_Spec.thy ===== *)
theory Policy_Spec
  imports Policy
begin

text \<open>
  What a policy promises, and that \<open>New\<close> and \<open>Allows\<close> keep the promise.  \<open>permits\<close> is the
  specification: a request passes when the policy has rules, an allow rule covers it or there
  are none, and no block rule covers it.  Coverage is stated rule by rule: an exact name, a
  strict subdomain as a longer sequence of labels, an address, the numbers of a prefix.
\<close>

section \<open>Specification\<close>

definition subdomain_of :: "string \<Rightarrow> string \<Rightarrow> bool" where
  "subdomain_of h d \<longleftrightarrow>
     (\<exists>ls. ls \<noteq> [] \<and> SplitByte h CHR ''.'' = ls @ SplitByte d CHR ''.'')"

fun host_rule_covers :: "request \<Rightarrow> host_rule \<Rightarrow> bool" where
  "host_rule_covers (h, a, n) r \<longleftrightarrow>
     port_matches (hr_port r) n \<and>
     (h \<noteq> [] \<and> (if hr_wildcard r then subdomain_of h (hr_hostname r) else h = hr_hostname r) \<or>
      IsValid a \<and> a \<in> set (hr_resolved r))"

fun address_rule_covers :: "request \<Rightarrow> address_rule \<Rightarrow> bool" where
  "address_rule_covers (h, a, n) r \<longleftrightarrow>
     port_matches (ar_port r) n \<and> IsValid a \<and> a = ar_address r"

fun prefix_rule_covers :: "request \<Rightarrow> prefix_rule \<Rightarrow> bool" where
  "prefix_rule_covers (h, a, n) r \<longleftrightarrow>
     port_matches (pr_port r) n \<and> IsValid a \<and> Zone a = [] \<and>
     (case pbits (pr_prefix r) of None \<Rightarrow> False | Some b \<Rightarrow> in_prefix (paddr (pr_prefix r)) b a)"

definition covers :: "rule_set \<Rightarrow> request \<Rightarrow> bool" where
  "covers rs q \<longleftrightarrow>
     (\<exists>r \<in> set (hosts rs). host_rule_covers q r) \<or>
     (\<exists>r \<in> set (addresses rs). address_rule_covers q r) \<or>
     (\<exists>r \<in> set (prefixes rs). prefix_rule_covers q r)"

definition permits :: "policy \<Rightarrow> request \<Rightarrow> bool" where
  "permits p q \<longleftrightarrow>
     0 < rule_count (pol_allow p) + rule_count (pol_block p) \<and>
     (rule_count (pol_allow p) = 0 \<or> covers (pol_allow p) q) \<and>
     \<not> covers (pol_block p) q"

definition wf_policy :: "policy \<Rightarrow> bool" where
  "wf_policy p \<longleftrightarrow> wf_rule_set (pol_allow p) \<and> wf_rule_set (pol_block p)"

section \<open>Matching is coverage\<close>

lemma matchesHostname_iff:
  "matchesHostname r h \<longleftrightarrow>
     (if hr_wildcard r then subdomain_of h (hr_hostname r) else h = hr_hostname r)"
proof -
  have "(length h > length d \<and> HasSuffix h (''.'' @ d)) \<longleftrightarrow> subdomain_of h d" for d
    unfolding subdomain_of_def SplitByte_strict_suffix HasSuffix_iff by auto
  then show ?thesis by (simp add: matchesHostname_def)
qed

lemma match_hosts_iff:
  "match_hosts rs h a n \<longleftrightarrow> (\<exists>r \<in> set rs. host_rule_covers (h, a, n) r)"
  by (induction rs) (auto simp: matchesHostname_iff)

lemma match_addresses_iff:
  "IsValid a \<Longrightarrow> match_addresses rs a n \<longleftrightarrow> (\<exists>r \<in> set rs. address_rule_covers (h, a, n) r)"
  by (induction rs) auto

lemma prefix_covers_iff:
  "wf_prefix_rule r \<Longrightarrow> IsValid a \<Longrightarrow>
   prefix_rule_covers (h, a, n) r \<longleftrightarrow> port_matches (pr_port r) n \<and> Contains (pr_prefix r) a"
  by (cases "pr_prefix r")
    (auto simp: wf_prefix_rule_def masked_prefix_def valid_prefix_def Contains_iff)

lemma match_prefixes_iff:
  "list_all wf_prefix_rule rs \<Longrightarrow> IsValid a \<Longrightarrow>
   match_prefixes rs a n \<longleftrightarrow> (\<exists>r \<in> set rs. prefix_rule_covers (h, a, n) r)"
  by (induction rs) (auto simp: prefix_covers_iff simp del: prefix_rule_covers.simps)

lemma rules_matches_covers:
  assumes "wf_rule_set rs"
  shows "rules_matches rs h a n \<longleftrightarrow> covers rs (h, a, n)"
proof (cases "IsValid a")
  case True
  with assms show ?thesis
    by (auto simp: rules_matches_def covers_def match_hosts_iff match_addresses_iff [of a _ _ h]
        match_prefixes_iff [of _ a _ h] wf_rule_set_def
        simp del: host_rule_covers.simps address_rule_covers.simps prefix_rule_covers.simps)
next
  case False
  then show ?thesis
    by (auto simp: rules_matches_def covers_def match_hosts_iff simp del: host_rule_covers.simps)
qed

lemma rules_empty_iff: "rules_empty rs \<longleftrightarrow> rule_count rs = 0"
  by (auto simp: rules_empty_def rule_count_def)

section \<open>The interface of the decision\<close>

definition join_rules :: "rule_set \<Rightarrow> rule_set \<Rightarrow> rule_set" where
  "join_rules r s = \<lparr>hosts = hosts r @ hosts s, addresses = addresses r @ addresses s,
     prefixes = prefixes r @ prefixes s\<rparr>"

lemma match_hosts_append:
  "match_hosts (xs @ ys) h a n \<longleftrightarrow> match_hosts xs h a n \<or> match_hosts ys h a n"
  by (auto simp: match_hosts_iff)

lemma match_addresses_append:
  "match_addresses (xs @ ys) a n \<longleftrightarrow> match_addresses xs a n \<or> match_addresses ys a n"
  by (induction xs) auto

lemma match_prefixes_append:
  "match_prefixes (xs @ ys) a n \<longleftrightarrow> match_prefixes xs a n \<or> match_prefixes ys a n"
  by (induction xs) auto

lemmas match_append = match_hosts_append match_addresses_append match_prefixes_append

interpretation rules: rule_matcher rules_empty "\<lambda>rs (h, a, n). rules_matches rs h a n" join_rules
proof unfold_locales
  fix r q assume "rules_empty r"
  then show "\<not> (case q of (h, a, n) \<Rightarrow> rules_matches r h a n)"
    by (auto simp: rules_empty_def rules_matches_def split: prod.splits)
next
  fix r s q
  show "(case q of (h, a, n) \<Rightarrow> rules_matches (join_rules r s) h a n) \<longleftrightarrow>
      (case q of (h, a, n) \<Rightarrow> rules_matches r h a n) \<or> (case q of (h, a, n) \<Rightarrow> rules_matches s h a n)"
    by (auto simp: rules_matches_def join_rules_def match_append split: prod.splits)
next
  fix r s show "rules_empty (join_rules r s) \<longleftrightarrow> rules_empty r \<and> rules_empty s"
    by (auto simp: rules_empty_def join_rules_def)
qed

lemma decide_permits:
  assumes "wf_policy p"
  shows "decide rules_empty (\<lambda>rs (h, a, n). rules_matches rs h a n) (pol_allow p) (pol_block p) q
    \<longleftrightarrow> permits p q"
  using assms
  by (cases q)
    (auto simp: rules.decide_iff permits_def wf_policy_def rules_matches_covers rules_empty_iff)

text \<open>\<open>Allows\<close> is the specification on the normalised request.\<close>

lemma Allows_permits:
  "wf_policy p \<Longrightarrow>
   Allows tx p h a n = rbind (normalize_request tx h a n) (\<lambda>q. Ok (permits p q))"
  by (auto simp: Allows_def decide_permits rbind_def split: sum.splits)

end
