(* ===== verification/Policy_New.thy ===== *)
theory Policy_New
  imports Policy_Spec
begin

text \<open>
  Construction of a policy: what \<open>New\<close> establishes.  Answers of the resolver are stored in
  canonical form without duplicates (\<open>normalizeAddresses\<close>), every constructed policy is
  well-formed, a name is looked up at most once (the cache), strict construction leaves no
  exact rule without addresses, and lenient construction never fails on a lookup.
\<close>

section \<open>Normalised answers\<close>

lemma set_normalize_from:
  "set (normalize_from seen as) = Unmap ` {a \<in> set as. IsValid a \<and> Zone a = []} - seen"
  by (induction seen as rule: normalize_from.induct) auto

lemma distinct_normalize_from: "distinct (normalize_from seen as)"
  by (induction seen as rule: normalize_from.induct) (auto simp: set_normalize_from)

lemma set_normalizeAddresses:
  "set (normalizeAddresses as) = Unmap ` {a \<in> set as. IsValid a \<and> Zone a = []}"
  by (simp add: normalizeAddresses_def set_normalize_from)

lemma distinct_normalizeAddresses [simp]: "distinct (normalizeAddresses as)"
  by (simp add: normalizeAddresses_def distinct_normalize_from)

lemma canonical_normalizeAddresses [simp]: "list_all canonical_addr (normalizeAddresses as)"
  by (auto simp: list_all_iff set_normalizeAddresses intro: canonical_Unmap)

lemma normalize_from_fixed:
  "list_all canonical_addr as \<Longrightarrow> distinct as \<Longrightarrow> set as \<inter> seen = {} \<Longrightarrow> normalize_from seen as = as"
  by (induction as arbitrary: seen) (auto simp: canonical_addr_def Unmap_unchanged)

section \<open>The invariant of the loop\<close>

definition good_answer :: "lookup_result \<Rightarrow> bool" where
  "good_answer r = (case r of Inl e \<Rightarrow> True | Inr as \<Rightarrow> list_all canonical_addr as \<and> distinct as)"

definition cache_ok :: "'w new_state \<Rightarrow> bool" where
  "cache_ok st \<longleftrightarrow> (\<forall>h r. cache st h = Some r \<longrightarrow> good_answer r)"

lemma good_answer_simps [simp]:
  "good_answer (Inl e)" "good_answer (Inr as) \<longleftrightarrow> list_all canonical_addr as \<and> distinct as"
  by (simp_all add: good_answer_def)

lemma lookup_cached_ok:
  assumes "cache_ok st" and "lookup_cached resolver h st = (r, st')"
  shows "good_answer r \<and> cache_ok st' \<and> cache st' h = Some r"
proof -
  have "good_answer (map_sum id normalizeAddresses x)" for x :: "(string, addr list) result"
    by (cases x) simp_all
  with assms show ?thesis
    by (auto simp: lookup_cached_def cache_ok_def Let_def split: option.splits prod.splits if_splits)
qed

lemma resolve_rule_wf:
  assumes "cache_ok st" "wf_host_rule r" "resolve_rule resolver lenient r st = (res, st')"
  shows "cache_ok st' \<and> (\<forall>r'. res = Inr r' \<longrightarrow> wf_host_rule r')"
proof (cases "hr_wildcard r")
  case True
  with assms show ?thesis by (auto simp: resolve_rule_def)
next
  case False
  obtain ans st1 where l: "lookup_cached resolver (hr_hostname r) st = (ans, st1)"
    by (cases "lookup_cached resolver (hr_hostname r) st")
  have ok: "good_answer ans" "cache_ok st1" using lookup_cached_ok [OF assms(1) l] by auto
  with False assms(2,3) l show ?thesis
    by (auto simp: resolve_rule_def cache_ok_def wf_host_rule_def split: sum.splits if_splits)
qed

lemma resolveHostRules_wf:
  assumes "cache_ok st" "list_all wf_host_rule rs" "resolveHostRules resolver lenient rs st = (res, st')"
  shows "cache_ok st' \<and> (\<forall>rs'. res = Inr rs' \<longrightarrow> list_all wf_host_rule rs' \<and> length rs' = length rs)"
  using assms
proof (induction rs arbitrary: st res st')
  case Nil
  then show ?case by auto
next
  case (Cons r rs)
  obtain one st1 where o: "resolve_rule resolver lenient r st = (one, st1)"
    by (cases "resolve_rule resolver lenient r st")
  have st1: "cache_ok st1" "\<And>r'. one = Inr r' \<Longrightarrow> wf_host_rule r'"
    using resolve_rule_wf [OF _ _ o] Cons.prems by auto
  show ?case
  proof (cases one)
    case (Inl e)
    with o st1 Cons.prems show ?thesis by auto
  next
    case (Inr r')
    obtain rest st2 where r2: "resolveHostRules resolver lenient rs st1 = (rest, st2)"
      by (cases "resolveHostRules resolver lenient rs st1")
    from Cons.IH [OF st1(1) _ r2] Cons.prems o Inr r2 st1 show ?thesis
      by (auto simp: rbind_Inr_iff)
  qed
qed

text \<open>What a successful construction is made of.\<close>

lemma new_policy_cases:
  assumes "new_policy tx resolver lenient as bs w = (Inr p, st)"
  obtains al bl la lb ahosts bhosts st1 where
    "parseRules tx as [] = (Inr al, la)" "parseRules tx bs la = (Inr bl, lb)"
    "resolveHostRules resolver lenient (hosts al) \<lparr>cache = Map.empty, world = w, logs = lb\<rparr> = (Inr ahosts, st1)"
    "resolveHostRules resolver lenient (hosts bl) st1 = (Inr bhosts, st)"
    "p = \<lparr>pol_allow = al\<lparr>hosts := ahosts\<rparr>, pol_block = bl\<lparr>hosts := bhosts\<rparr>\<rparr>"
  using assms by (auto simp: new_policy_def split: prod.splits sum.splits)

lemma cache_ok_init [simp]: "cache_ok \<lparr>cache = Map.empty, world = w, logs = l\<rparr>"
  by (simp add: cache_ok_def)

lemma wf_rule_set_hosts:
  "wf_rule_set (rs\<lparr>hosts := hs\<rparr>) \<longleftrightarrow>
     list_all wf_host_rule hs \<and> list_all wf_address_rule (addresses rs) \<and>
     list_all wf_prefix_rule (prefixes rs)"
  by (simp add: wf_rule_set_def)

lemma new_policy_wf:
  assumes "new_policy tx resolver lenient as bs w = (Inr p, st)"
  shows "wf_policy p"
proof (rule new_policy_cases [OF assms])
  fix al bl la lb ahosts bhosts st1
  assume a: "parseRules tx as [] = (Inr al, la)" and b: "parseRules tx bs la = (Inr bl, lb)"
    and ra: "resolveHostRules resolver lenient (hosts al) \<lparr>cache = Map.empty, world = w, logs = lb\<rparr> = (Inr ahosts, st1)"
    and rb: "resolveHostRules resolver lenient (hosts bl) st1 = (Inr bhosts, st)"
    and p: "p = \<lparr>pol_allow = al\<lparr>hosts := ahosts\<rparr>, pol_block = bl\<lparr>hosts := bhosts\<rparr>\<rparr>"
  have wa: "wf_rule_set al" and wb: "wf_rule_set bl" using a b by (auto dest: parseRules_wf)
  have "cache_ok st1 \<and> list_all wf_host_rule ahosts"
    using resolveHostRules_wf [OF cache_ok_init _ ra] wa by (auto simp: wf_rule_set_def)
  moreover from this have "list_all wf_host_rule bhosts"
    using resolveHostRules_wf [OF _ _ rb] wb by (auto simp: wf_rule_set_def)
  ultimately show "wf_policy p"
    using wa wb by (simp add: p wf_policy_def wf_rule_set_hosts wf_rule_set_def)
qed

text \<open>Resolution rewrites rules in place: a policy has one rule for each rule text.\<close>

lemma new_policy_count:
  assumes "new_policy tx resolver lenient as bs w = (Inr p, st)"
  shows "rule_count (pol_allow p) = length as \<and> rule_count (pol_block p) = length bs"
proof (rule new_policy_cases [OF assms])
  fix al bl la lb ahosts bhosts st1
  assume a: "parseRules tx as [] = (Inr al, la)" and b: "parseRules tx bs la = (Inr bl, lb)"
    and ra: "resolveHostRules resolver lenient (hosts al) \<lparr>cache = Map.empty, world = w, logs = lb\<rparr> = (Inr ahosts, st1)"
    and rb: "resolveHostRules resolver lenient (hosts bl) st1 = (Inr bhosts, st)"
    and p: "p = \<lparr>pol_allow = al\<lparr>hosts := ahosts\<rparr>, pol_block = bl\<lparr>hosts := bhosts\<rparr>\<rparr>"
  have w: "list_all wf_host_rule (hosts al)" "list_all wf_host_rule (hosts bl)"
    using a b by (auto dest!: parseRules_wf simp: wf_rule_set_def)
  have l: "cache_ok st1 \<and> length ahosts = length (hosts al)"
    using resolveHostRules_wf [OF cache_ok_init w(1) ra] by auto
  then have "length bhosts = length (hosts bl)"
    using resolveHostRules_wf [OF _ w(2) rb] by auto
  with l show "rule_count (pol_allow p) = length as \<and> rule_count (pol_block p) = length bs"
    using parseRules_count [OF a] parseRules_count [OF b] by (simp add: p rule_count_def)
qed

lemma policy_empty_iff:
  assumes "new_policy tx resolver lenient as bs w = (Inr p, st)"
  shows "policy_empty p \<longleftrightarrow> as = [] \<and> bs = []"
  using new_policy_count [OF assms] by (simp add: policy_empty_def rules_empty_iff)

section \<open>Lookups\<close>

text \<open>
  A resolver that records its queries: the world is the list of hostnames looked up so far.
  The cache holds exactly the recorded names, so none is recorded twice.
\<close>

definition recording :: "(string \<Rightarrow> (string, addr list) result) \<Rightarrow> string list resolver" where
  "recording f h w = (f h, w @ [h])"

definition queries_once :: "string list new_state \<Rightarrow> bool" where
  "queries_once st \<longleftrightarrow> distinct (world st) \<and> set (world st) = dom (cache st)"

lemma lookup_cached_once:
  "queries_once st \<Longrightarrow> queries_once (snd (lookup_cached (recording f) h st))"
  by (auto simp: queries_once_def lookup_cached_def recording_def Let_def split: option.splits)

lemma resolve_rule_once:
  assumes "queries_once st"
  shows "queries_once (snd (resolve_rule (recording f) lenient r st))"
proof -
  have "queries_once (snd (lookup_cached (recording f) (hr_hostname r) st))"
    using assms by (rule lookup_cached_once)
  with assms show ?thesis
    by (auto simp: resolve_rule_def queries_once_def split: prod.splits sum.splits)
qed

lemma resolveHostRules_once:
  "queries_once st \<Longrightarrow> queries_once (snd (resolveHostRules (recording f) lenient rs st))"
proof (induction rs arbitrary: st)
  case Nil
  then show ?case by simp
next
  case (Cons r rs)
  from Cons.IH resolve_rule_once [OF Cons.prems, of f lenient r] show ?case
    by (fastforce split: prod.splits sum.splits)
qed

lemma resolveHostRules_onceD:
  "resolveHostRules (recording f) lenient rs st = (r, st') \<Longrightarrow> queries_once st \<Longrightarrow> queries_once st'"
  by (metis resolveHostRules_once snd_conv)

lemma queries_once_init [simp]: "queries_once \<lparr>cache = Map.empty, world = [], logs = l\<rparr>"
  by (simp add: queries_once_def)

lemma new_policy_once: "queries_once (snd (new_policy tx (recording f) lenient as bs []))"
  by (auto simp: new_policy_def split: prod.splits sum.splits dest!: resolveHostRules_onceD)

section \<open>Strict and lenient resolution\<close>

lemma resolve_rule_strict:
  "resolve_rule resolver False r st = (Inr r', st') \<Longrightarrow> hr_wildcard r' \<or> hr_resolved r' \<noteq> []"
  by (auto simp: resolve_rule_def split: prod.splits sum.splits if_splits)

lemma resolveHostRules_strict:
  "resolveHostRules resolver False rs st = (Inr rs', st') \<Longrightarrow>
   \<forall>r \<in> set rs'. hr_wildcard r \<or> hr_resolved r \<noteq> []"
  by (induction rs arbitrary: st rs')
    (fastforce simp: rbind_Inr_iff dest: resolve_rule_strict split: prod.splits sum.splits)+

lemma resolve_rule_lenient: "\<exists>r' st'. resolve_rule resolver True r st = (Inr r', st')"
  by (auto simp: resolve_rule_def split: prod.splits sum.splits)

lemma resolveHostRules_lenient: "\<exists>rs' st'. resolveHostRules resolver True rs st = (Inr rs', st')"
proof (induction rs arbitrary: st)
  case Nil
  then show ?case by simp
next
  case (Cons r rs)
  obtain r' st1 where "resolve_rule resolver True r st = (Inr r', st1)"
    using resolve_rule_lenient by blast
  with Cons [of st1] show ?case by (auto simp: rbind_def)
qed

section \<open>A resolver that does not change its mind\<close>

text \<open>
  With a resolver that is a function of the name alone, the resolved rules are a function of
  the parsed ones, and policies of longer rule lists extend those of shorter ones.
\<close>

definition pure_resolver :: "(string \<Rightarrow> (string, addr list) result) \<Rightarrow> 'w resolver" where
  "pure_resolver f h w = (f h, w)"

definition resolved_rule :: "(string \<Rightarrow> (string, addr list) result) \<Rightarrow> host_rule \<Rightarrow> host_rule" where
  "resolved_rule f r =
     (if hr_wildcard r then r
      else case f (hr_hostname r) of
          Inl e \<Rightarrow> r
        | Inr as \<Rightarrow> (if normalizeAddresses as = [] then r
                    else r\<lparr>hr_resolved := normalizeAddresses as\<rparr>))"

definition cache_from :: "(string \<Rightarrow> (string, addr list) result) \<Rightarrow> 'w new_state \<Rightarrow> bool" where
  "cache_from f st \<longleftrightarrow>
     (\<forall>h r. cache st h = Some r \<longrightarrow> r = map_sum id normalizeAddresses (f h))"

lemma cache_from_init [simp]: "cache_from f \<lparr>cache = Map.empty, world = w, logs = l\<rparr>"
  by (simp add: cache_from_def)

lemma lookup_cached_from:
  assumes "cache_from f st" "lookup_cached (pure_resolver f) h st = (r, st')"
  shows "r = map_sum id normalizeAddresses (f h) \<and> cache_from f st'"
  using assms
  by (auto simp: lookup_cached_def cache_from_def pure_resolver_def Let_def split: option.splits if_splits)

lemma resolve_rule_from:
  assumes "cache_from f st" "resolve_rule (pure_resolver f) lenient r st = (res, st')"
  shows "cache_from f st' \<and> (\<forall>r'. res = Inr r' \<longrightarrow> r' = resolved_rule f r)"
proof -
  obtain ans st1 where l: "lookup_cached (pure_resolver f) (hr_hostname r) st = (ans, st1)"
    by (cases "lookup_cached (pure_resolver f) (hr_hostname r) st")
  from lookup_cached_from [OF assms(1) l] assms l show ?thesis
    by (cases "f (hr_hostname r)")
      (auto simp: resolve_rule_def resolved_rule_def cache_from_def split: if_splits)
qed

lemma resolveHostRules_from:
  assumes "cache_from f st" "resolveHostRules (pure_resolver f) lenient rs st = (res, st')"
  shows "cache_from f st' \<and> (\<forall>rs'. res = Inr rs' \<longrightarrow> rs' = map (resolved_rule f) rs)"
  using assms
proof (induction rs arbitrary: st res st')
  case Nil
  then show ?case by auto
next
  case (Cons r rs)
  obtain one st1 where o: "resolve_rule (pure_resolver f) lenient r st = (one, st1)"
    by (cases "resolve_rule (pure_resolver f) lenient r st")
  obtain rest st2 where r2: "resolveHostRules (pure_resolver f) lenient rs st1 = (rest, st2)"
    by (cases "resolveHostRules (pure_resolver f) lenient rs st1")
  have st1: "cache_from f st1" "\<And>r'. one = Inr r' \<Longrightarrow> r' = resolved_rule f r"
    using resolve_rule_from [OF Cons.prems(1) o] by auto
  from Cons.IH [OF st1(1) r2] Cons.prems(2) o r2 st1 show ?case
    by (cases one) (auto simp: rbind_Inr_iff)
qed

definition resolved_rules :: "(string \<Rightarrow> (string, addr list) result) \<Rightarrow> rule_set \<Rightarrow> rule_set" where
  "resolved_rules f rs = rs\<lparr>hosts := map (resolved_rule f) (hosts rs)\<rparr>"

lemma resolved_rules_join: "resolved_rules f (join_rules r s) = join_rules (resolved_rules f r) (resolved_rules f s)"
  by (simp add: resolved_rules_def join_rules_def)

text \<open>The log is only written: parsing does not depend on it.\<close>

lemma add_rule_logs: "fst (add_rule tx rs raw l) = fst (add_rule tx rs raw l')"
  by (auto simp: add_rule_def Let_def split: sum.splits)

lemma parse_rules_from_logs: "fst (parse_rules_from tx rs raws l) = fst (parse_rules_from tx rs raws l')"
proof (induction raws arbitrary: rs l l')
  case Nil
  then show ?case by simp
next
  case (Cons raw raws)
  have "fst (add_rule tx rs raw l) = fst (add_rule tx rs raw l')" by (rule add_rule_logs)
  with Cons show ?case by (auto split: prod.splits sum.splits)
qed

lemma join_one:
  "\<exists>d. rs\<lparr>hosts := hosts rs @ [h]\<rparr> = join_rules rs d"
  "\<exists>d. rs\<lparr>addresses := addresses rs @ [a]\<rparr> = join_rules rs d"
  "\<exists>d. rs\<lparr>prefixes := prefixes rs @ [p]\<rparr> = join_rules rs d"
    apply (rule exI [of _ "\<lparr>hosts = [h], addresses = [], prefixes = []\<rparr>"], simp add: join_rules_def)
   apply (rule exI [of _ "\<lparr>hosts = [], addresses = [a], prefixes = []\<rparr>"], simp add: join_rules_def)
  apply (rule exI [of _ "\<lparr>hosts = [], addresses = [], prefixes = [p]\<rparr>"], simp add: join_rules_def)
  done

lemma add_rule_join:
  "add_rule tx rs raw l = (Inr rs', l') \<Longrightarrow> \<exists>d. rs' = join_rules rs d"
  by (auto simp: add_rule_def Let_def res_simps join_one split: sum.splits if_splits)

lemma join_rules_assoc: "join_rules (join_rules r s) t = join_rules r (join_rules s t)"
  by (simp add: join_rules_def)

lemma parse_rules_from_join:
  "parse_rules_from tx rs raws l = (Inr rs', l') \<Longrightarrow> \<exists>d. rs' = join_rules rs d"
proof (induction raws arbitrary: rs l)
  case Nil
  then show ?case
    by (intro exI [of _ empty_rules]) (simp add: join_rules_def empty_rules_def)
next
  case (Cons raw raws)
  then obtain r1 l1 where a: "add_rule tx rs raw l = (Inr r1, l1)"
    and p: "parse_rules_from tx r1 raws l1 = (Inr rs', l')"
    by (auto split: prod.splits sum.splits)
  with Cons.IH [OF p] add_rule_join [OF a] show ?case
    by (auto simp: join_rules_assoc)
qed

lemma parse_rules_from_append:
  "parse_rules_from tx rs (xs @ ys) l =
     (case parse_rules_from tx rs xs l of
        (Inl e, l') \<Rightarrow> (Inl e, l')
      | (Inr r, l') \<Rightarrow> parse_rules_from tx r ys l')"
  by (induction xs arbitrary: rs l) (auto split: prod.splits sum.splits)

lemma parseRules_append:
  assumes "parseRules tx xs l1 = (Inr r, m1)" and "parseRules tx (xs @ ys) l2 = (Inr r', m2)"
  shows "\<exists>d. r' = join_rules r d"
proof -
  obtain r1 k where p: "parse_rules_from tx empty_rules xs l2 = (Inr r1, k)"
    and q: "parse_rules_from tx r1 ys k = (Inr r', m2)"
    using assms(2) by (auto simp: parseRules_def parse_rules_from_append split: prod.splits sum.splits)
  have "r1 = r"
    using assms(1) p parse_rules_from_logs [of tx empty_rules xs l1 l2] by (simp add: parseRules_def)
  with parse_rules_from_join [OF q] show ?thesis by simp
qed

lemma parseRules_same:
  "parseRules tx xs l1 = (Inr r, m1) \<Longrightarrow> parseRules tx xs l2 = (Inr r', m2) \<Longrightarrow> r' = r"
  using parse_rules_from_logs [of tx empty_rules xs l1 l2] by (simp add: parseRules_def)

text \<open>A policy built with a pure resolver is the parsed rules, each resolved on its own.\<close>

lemma new_policy_pure:
  assumes "new_policy tx (pure_resolver f) lenient as bs w = (Inr p, st)"
  obtains al bl la lb where "parseRules tx as [] = (Inr al, la)" "parseRules tx bs la = (Inr bl, lb)"
    "pol_allow p = resolved_rules f al" "pol_block p = resolved_rules f bl"
proof (rule new_policy_cases [OF assms])
  fix al bl la lb ahosts bhosts st1
  assume a: "parseRules tx as [] = (Inr al, la)" and b: "parseRules tx bs la = (Inr bl, lb)"
    and ra: "resolveHostRules (pure_resolver f) lenient (hosts al)
       \<lparr>cache = Map.empty, world = w, logs = lb\<rparr> = (Inr ahosts, st1)"
    and rb: "resolveHostRules (pure_resolver f) lenient (hosts bl) st1 = (Inr bhosts, st)"
    and p: "p = \<lparr>pol_allow = al\<lparr>hosts := ahosts\<rparr>, pol_block = bl\<lparr>hosts := bhosts\<rparr>\<rparr>"
  have "cache_from f st1 \<and> ahosts = map (resolved_rule f) (hosts al)"
    using resolveHostRules_from [OF cache_from_init ra] by simp
  moreover from this have "bhosts = map (resolved_rule f) (hosts bl)"
    using resolveHostRules_from [OF _ rb] by simp
  ultimately show thesis using a b that by (simp add: p resolved_rules_def)
qed

lemma new_policy_more_block:
  assumes p: "new_policy tx (pure_resolver f) lenient as bs w = (Inr p, st)"
    and p': "new_policy tx (pure_resolver f) lenient' as (bs @ xs) w' = (Inr p', st')"
  shows "pol_allow p' = pol_allow p \<and> (\<exists>d. pol_block p' = join_rules (pol_block p) d)"
proof -
  obtain al bl la lb where one: "parseRules tx as [] = (Inr al, la)" "parseRules tx bs la = (Inr bl, lb)"
    "pol_allow p = resolved_rules f al" "pol_block p = resolved_rules f bl"
    by (rule new_policy_pure [OF p])
  obtain al' bl' la' lb' where two: "parseRules tx as [] = (Inr al', la')"
    "parseRules tx (bs @ xs) la' = (Inr bl', lb')"
    "pol_allow p' = resolved_rules f al'" "pol_block p' = resolved_rules f bl'"
    by (rule new_policy_pure [OF p'])
  obtain d where "bl' = join_rules bl d" using parseRules_append [OF one(2) two(2)] by blast
  then have more: "pol_block p' = join_rules (pol_block p) (resolved_rules f d)"
    by (simp only: one two resolved_rules_join)
  have "al' = al" using one(1) two(1) by simp
  then have "pol_allow p' = pol_allow p" by (simp only: one two)
  with more show ?thesis by (intro conjI exI)
qed

lemma new_policy_more_allow:
  assumes p: "new_policy tx (pure_resolver f) lenient as bs w = (Inr p, st)"
    and p': "new_policy tx (pure_resolver f) lenient' (as @ xs) bs w' = (Inr p', st')"
  shows "pol_block p' = pol_block p \<and> (\<exists>d. pol_allow p' = join_rules (pol_allow p) d)"
proof -
  obtain al bl la lb where one: "parseRules tx as [] = (Inr al, la)" "parseRules tx bs la = (Inr bl, lb)"
    "pol_allow p = resolved_rules f al" "pol_block p = resolved_rules f bl"
    by (rule new_policy_pure [OF p])
  obtain al' bl' la' lb' where two: "parseRules tx (as @ xs) [] = (Inr al', la')"
    "parseRules tx bs la' = (Inr bl', lb')"
    "pol_allow p' = resolved_rules f al'" "pol_block p' = resolved_rules f bl'"
    by (rule new_policy_pure [OF p'])
  obtain d where "al' = join_rules al d" using parseRules_append [OF one(1) two(1)] by blast
  then have more: "pol_allow p' = join_rules (pol_allow p) (resolved_rules f d)"
    by (simp only: one two resolved_rules_join)
  have "bl' = bl" using parseRules_same [OF one(2) two(2)] .
  then have "pol_block p' = pol_block p" by (simp only: one two)
  with more show ?thesis by (intro conjI exI)
qed

end
