(* ===== verification/Destination.thy ===== *)
theory Destination
  imports Hostname
begin

text \<open>
  internal/policy/destination.go: the classification of a destination text as a hostname or
  an IP literal with an optional IPv6 zone.  The invariant \<open>wf_destination\<close> is what the
  connector relies on: exactly one of hostname and address is set, the hostname is
  canonical, the address is canonical and carries its zone apart.
\<close>

record destination =
  d_hostname :: string
  d_address :: addr
  d_zone :: string

datatype dest_error =
    DestHost host_error
  | MappedZone
  | ZoneTooLong
  | ZoneDots
  | ZoneChar

definition zone_char :: "char \<Rightarrow> bool" where
  "zone_char c \<longleftrightarrow> is_lower c \<or> is_upper c \<or> is_digit c \<or>
     c = CHR ''_'' \<or> c = CHR ''-'' \<or> c = CHR ''.''"

definition validateZone :: "string \<Rightarrow> (dest_error, unit) result" where
  "validateZone zone =
     (if length zone > 15 then Err ZoneTooLong
      else if zone = ''.'' \<or> zone = ''..'' then Err ZoneDots
      else if \<not> list_all zone_char zone then Err ZoneChar
      else Ok ())"

definition parseAddressDestination :: "addr \<Rightarrow> (dest_error, destination) result" where
  "parseAddressDestination address =
     (let zone = Zone address in
      if zone = [] then Ok \<lparr>d_hostname = [], d_address = Unmap address, d_zone = []\<rparr>
      else if Is4In6 address then Err MappedZone
      else rbind (validateZone zone) (\<lambda>_.
        Ok \<lparr>d_hostname = [], d_address = WithZone address [], d_zone = zone\<rparr>))"

definition ParseDestination :: "text_lib \<Rightarrow> string \<Rightarrow> (dest_error, destination) result" where
  "ParseDestination tx raw =
     (case ParseAddr raw of
        Inr address \<Rightarrow> parseAddressDestination address
      | Inl _ \<Rightarrow>
          rbind (rmap_err DestHost (NormalizeHostname tx raw)) (\<lambda>hostname.
            Ok \<lparr>d_hostname = hostname, d_address = NoAddr, d_zone = []\<rparr>))"

definition IsHostname :: "destination \<Rightarrow> bool" where
  "IsHostname d \<longleftrightarrow> d_hostname d \<noteq> []"

definition RoutingAddress :: "destination \<Rightarrow> addr" where
  "RoutingAddress d = (if d_zone d = [] then d_address d else WithZone (d_address d) (d_zone d))"

section \<open>Well-formed destinations\<close>

definition valid_zone :: "string \<Rightarrow> bool" where
  "valid_zone z \<longleftrightarrow> length z \<le> 15 \<and> z \<noteq> ''.'' \<and> z \<noteq> ''..'' \<and> list_all zone_char z"

definition wf_destination :: "destination \<Rightarrow> bool" where
  "wf_destination d \<longleftrightarrow>
     (if IsHostname d then canonical_hostname (d_hostname d) \<and> d_address d = NoAddr \<and> d_zone d = []
      else canonical_addr (d_address d) \<and> valid_zone (d_zone d) \<and>
           (d_zone d \<noteq> [] \<longrightarrow> Is6 (d_address d)))"

lemma validateZone_iff [simp]: "validateZone z = Inr u \<longleftrightarrow> valid_zone z"
  by (auto simp: validateZone_def valid_zone_def)

lemma zone_nonempty_Is6: "Zone a \<noteq> [] \<Longrightarrow> Is6 a"
  by (cases a) auto

lemma Is6_WithZone [simp]: "Is6 (WithZone a z) = Is6 a"
  by (cases a) auto

lemma parseAddressDestination_wf:
  assumes "parseAddressDestination a = Inr d" and "IsValid a"
  shows "wf_destination d \<and> \<not> IsHostname d"
proof (cases "Zone a = []")
  case True
  with assms have "d = \<lparr>d_hostname = [], d_address = Unmap a, d_zone = []\<rparr>"
    by (simp add: parseAddressDestination_def)
  with True assms(2) show ?thesis
    by (simp add: wf_destination_def IsHostname_def valid_zone_def canonical_Unmap)
next
  case False
  with assms have "\<not> Is4In6 a" "valid_zone (Zone a)"
    "d = \<lparr>d_hostname = [], d_address = WithZone a [], d_zone = Zone a\<rparr>"
    by (auto simp: parseAddressDestination_def Let_def rbind_Inr_iff split: if_splits)
  with False assms(2) show ?thesis
    by (simp add: wf_destination_def IsHostname_def canonical_addr_def zone_nonempty_Is6)
qed

lemma ParseDestination_wf:
  "ParseDestination tx raw = Inr d \<Longrightarrow> wf_destination d"
  by (auto simp: ParseDestination_def rbind_Inr_iff wf_destination_def IsHostname_def
      dest: parseAddressDestination_wf ParseAddr_valid NormalizeHostname_canonical
        canonical_hostname_nonempty split: sum.splits)

text \<open>A name that was parsed is left alone by another normalisation.\<close>

lemma ParseDestination_stable:
  assumes "idna_stable tx" and "ParseDestination tx raw = Inr d" and "IsHostname d"
  shows "NormalizeHostname tx (d_hostname d) = Inr (d_hostname d)"
proof (cases "ParseAddr raw")
  case (Inl e)
  then have "NormalizeHostname tx raw = Inr (d_hostname d)"
    using assms(2) by (auto simp: ParseDestination_def rbind_Inr_iff)
  then show ?thesis by (rule NormalizeHostname_idem [OF assms(1)])
next
  case (Inr a)
  then have "d_hostname d = []"
    using assms(2) by (auto simp: ParseDestination_def parseAddressDestination_def Let_def res_simps split: if_splits)
  with assms(3) show ?thesis by (simp add: IsHostname_def)
qed

lemma wf_destination_literal:
  "wf_destination d \<Longrightarrow> \<not> IsHostname d \<Longrightarrow> canonical_addr (d_address d)"
  by (simp add: wf_destination_def)

text \<open>The routing address is the policy address plus the zone.\<close>

lemma RoutingAddress_strip:
  "wf_destination d \<Longrightarrow> WithZone (RoutingAddress d) [] = d_address d"
  by (cases "d_address d")
    (auto simp: wf_destination_def RoutingAddress_def IsHostname_def canonical_addr_def split: if_splits)

lemma RoutingAddress_zone:
  "wf_destination d \<Longrightarrow> Zone (RoutingAddress d) = d_zone d"
  by (cases "d_address d")
    (auto simp: wf_destination_def RoutingAddress_def IsHostname_def canonical_addr_def split: if_splits)

end
