(* ===== verification/Connector.thy ===== *)
theory Connector
  imports Destination
begin

text \<open>
  The interface between the proxies and the outbound connector: the Go interface
  \<open>Connector\<close> that internal/proxyhttp and internal/proxysocks each declare.  The state
  \<open>'s\<close> holds the outside world and the record of the connection attempts made so far
  (\<open>dials\<close>).  The provider promises that an attempt is made only at an approved target, that
  a connection comes from an attempt, and that port 0 is refused without an attempt.  The
  lemmas about a series of calls are proved once here for every client.
\<close>

type_synonym target = "string \<times> addr \<times> 16 word"

type_synonym ('s, 'e, 'c) dial = "destination \<Rightarrow> 16 word \<Rightarrow> 's \<Rightarrow> ('e, 'c) result \<times> 's"

text \<open>A client that hands a series of parsed targets to the connector, one after the other.\<close>

fun dial_all :: "('s, 'e, 'c) dial \<Rightarrow> (destination \<times> 16 word) list \<Rightarrow> 's \<Rightarrow> ('e, 'c) result list \<times> 's" where
  "dial_all dial [] s = ([], s)"
| "dial_all dial ((d, n) # ts) s =
     (case dial d n s of (r, s) \<Rightarrow> (case dial_all dial ts s of (rs, s) \<Rightarrow> (r # rs, s)))"

locale connector =
  fixes dial :: "('s, 'e, 'c) dial"
    and dials :: "'s \<Rightarrow> target list"
    and approved :: "target \<Rightarrow> bool"
  assumes dials_approved:
      "wf_destination d \<Longrightarrow> \<exists>new. dials (snd (dial d n s)) = dials s @ new \<and> list_all approved new"
    and connection_dialed:
      "fst (dial d n s) = Inr c \<Longrightarrow> dials (snd (dial d n s)) \<noteq> dials s"
    and port_zero: "\<exists>e. fst (dial d 0 s) = Inl e \<and> dials (snd (dial d 0 s)) = dials s"
begin

lemma dial_all_approved:
  "list_all (\<lambda>(d, n). wf_destination d) ts \<Longrightarrow>
   \<exists>new. dials (snd (dial_all dial ts s)) = dials s @ new \<and> list_all approved new"
proof (induction ts arbitrary: s)
  case Nil
  then show ?case by simp
next
  case (Cons t ts)
  obtain d n where t: "t = (d, n)" by (cases t)
  obtain r s1 where one: "dial d n s = (r, s1)" by (cases "dial d n s")
  obtain n1 where "dials s1 = dials s @ n1" "list_all approved n1"
    using dials_approved [of d n s] Cons.prems one t by auto
  moreover obtain n2 where "dials (snd (dial_all dial ts s1)) = dials s1 @ n2" "list_all approved n2"
    using Cons by auto
  ultimately show ?case
    by (intro exI [of _ "n1 @ n2"]) (auto simp: t one split: prod.splits)
qed

lemma refused_if_no_dial:
  "dials (snd (dial d n s)) = dials s \<Longrightarrow> \<exists>e. fst (dial d n s) = Inl e"
  using connection_dialed by (cases "fst (dial d n s)") auto

end

end
