(* ===== verification/Direct.thy ===== *)
theory Direct
  imports Policy_New Connector
begin

text \<open>
  internal/outbound/direct.go: the connector that resolves a destination, asks the policy
  about every address and hands only approved addresses to the route.  Resolver and route
  are outside this package and act on the outside world \<open>'w\<close>; the connector's state pairs
  the world with the record \<open>events\<close> of what the connector did: decisions it logged and
  addresses it handed to the route, in order.
\<close>

datatype dial_event =
    Decided bool string addr "16 word"
  | Dialed string addr "16 word"

record 'w conn_state =
  out :: 'w
  events :: "dial_event list"

type_synonym ('w, 'e, 'c) route = "string \<Rightarrow> addr \<Rightarrow> 16 word \<Rightarrow> 'w \<Rightarrow> ('e, 'c) result \<times> 'w"

record ('w, 'e, 'c) direct =
  dir_policy :: "policy option"
  dir_resolver :: "'w resolver"
  dir_route :: "('w, 'e, 'c) route"

datatype 'e dial_error =
    NilPolicy
  | DialPortZero
  | ResolveDestination string string
  | EvaluatePolicy allows_error
  | DialApproved string 'e
  | DialLiteral addr 'e
  | DeniedHost string "16 word"
  | DeniedAddress string

text \<open>
  The constructors.  The default resolver is the system's; \<open>NewDirect\<close> dials the address
  itself with a conventional network dialer.
\<close>

definition NewRouted ::
  "policy option \<Rightarrow> 'w resolver \<Rightarrow> 'w resolver option \<Rightarrow> ('w, 'e, 'c) route \<Rightarrow> ('w, 'e, 'c) direct" where
  "NewRouted p defaultResolver resolver route =
     \<lparr>dir_policy = p,
      dir_resolver = (case resolver of None \<Rightarrow> defaultResolver | Some r \<Rightarrow> r),
      dir_route = route\<rparr>"

definition NewDirect ::
  "policy option \<Rightarrow> 'w resolver \<Rightarrow> 'w resolver option \<Rightarrow>
   (string \<Rightarrow> string \<Rightarrow> 'w \<Rightarrow> ('e, 'c) result \<times> 'w) \<Rightarrow>
   (string \<Rightarrow> string \<Rightarrow> 'w \<Rightarrow> ('e, 'c) result \<times> 'w) option \<Rightarrow> ('w, 'e, 'c) direct" where
  "NewDirect p defaultResolver resolver netDialer dial =
     (let dial = (case dial of None \<Rightarrow> netDialer | Some d \<Rightarrow> d) in
      NewRouted p defaultResolver resolver (\<lambda>_ address port.
        dial ''tcp'' (JoinHostPort (addr_string address) (Itoa (unat port)))))"

text \<open>\<open>errors.Is(err, ErrDenied)\<close>.\<close>

fun is_denied :: "'e dial_error \<Rightarrow> bool" where
  "is_denied (DeniedHost h n) = True"
| "is_denied (DeniedAddress t) = True"
| "is_denied _ = False"

text \<open>\<open>logDecision\<close>: the line handed to \<open>Allowf\<close> or \<open>Blockf\<close>.\<close>

definition decision_text :: "string \<Rightarrow> addr \<Rightarrow> 16 word \<Rightarrow> string" where
  "decision_text hostname address port =
     ''tcp '' @ (if hostname = [] then addr_string address else hostname) @ '':'' @
     Itoa (unat port) @ '' ('' @ addr_string address @ '')''"

definition logDecision ::
  "bool \<Rightarrow> string \<Rightarrow> addr \<Rightarrow> 16 word \<Rightarrow> 'w conn_state \<Rightarrow> 'w conn_state" where
  "logDecision allowed hostname address port st =
     st\<lparr>events := events st @ [Decided allowed hostname address port]\<rparr>"

definition call_route ::
  "('w, 'e, 'c) route \<Rightarrow> string \<Rightarrow> addr \<Rightarrow> 16 word \<Rightarrow> 'w conn_state \<Rightarrow>
   ('e, 'c) result \<times> 'w conn_state" where
  "call_route route hostname address port st =
     (case route hostname address port (out st) of
        (r, w) \<Rightarrow> (r, st\<lparr>out := w, events := events st @ [Dialed hostname address port]\<rparr>))"

text \<open>
  The loop of \<open>Dial\<close> over the resolver's answers: invalid, zoned and repeated addresses are
  skipped, denied ones are logged and skipped, approved ones are tried until one connects.
\<close>

fun dial_loop ::
  "text_lib \<Rightarrow> policy \<Rightarrow> ('w, 'e, 'c) route \<Rightarrow> string \<Rightarrow> 16 word \<Rightarrow> addr set \<Rightarrow> 'e option \<Rightarrow>
   addr list \<Rightarrow> 'w conn_state \<Rightarrow> ('e dial_error, 'c) result \<times> 'w conn_state" where
  "dial_loop tx p route host port seen lastErr [] st =
     ((case lastErr of
         Some e \<Rightarrow> Err (DialApproved host e)
       | None \<Rightarrow> Err (DeniedHost host port)), st)"
| "dial_loop tx p route host port seen lastErr (a # as) st =
     (if \<not> IsValid a \<or> Zone a \<noteq> [] then dial_loop tx p route host port seen lastErr as st
      else
        let a = Unmap a in
        if a \<in> seen then dial_loop tx p route host port seen lastErr as st
        else
          (case Allows tx p host a port of
             Inl e \<Rightarrow> (Err (EvaluatePolicy e), st)
           | Inr allowed \<Rightarrow>
               let st = logDecision allowed host a port st in
               if \<not> allowed then dial_loop tx p route host port (insert a seen) lastErr as st
               else
                 (case call_route route host a port st of
                    (Inr c, st) \<Rightarrow> (Ok c, st)
                  | (Inl e, st) \<Rightarrow> dial_loop tx p route host port (insert a seen) (Some e) as st)))"

definition dialLiteral ::
  "text_lib \<Rightarrow> policy \<Rightarrow> ('w, 'e, 'c) route \<Rightarrow> addr \<Rightarrow> 16 word \<Rightarrow> 'w conn_state \<Rightarrow>
   ('e dial_error, 'c) result \<times> 'w conn_state" where
  "dialLiteral tx p route address port st =
     (case Allows tx p [] (WithZone address []) port of
        Inl e \<Rightarrow> (Err (EvaluatePolicy e), st)
      | Inr allowed \<Rightarrow>
          let st = logDecision allowed [] address port st in
          if \<not> allowed then
            (Err (DeniedAddress (JoinHostPort (addr_string address) (Itoa (unat port)))), st)
          else
            (case call_route route [] address port st of
               (r, st) \<Rightarrow> (rmap_err (DialLiteral address) r, st)))"

definition Dial ::
  "text_lib \<Rightarrow> ('w, 'e, 'c) direct \<Rightarrow> destination \<Rightarrow> 16 word \<Rightarrow> 'w conn_state \<Rightarrow>
   ('e dial_error, 'c) result \<times> 'w conn_state" where
  "Dial tx direct d port st =
     (case dir_policy direct of
        None \<Rightarrow> (Err NilPolicy, st)
      | Some p \<Rightarrow>
          if port = 0 then (Err DialPortZero, st)
          else if \<not> IsHostname d then dialLiteral tx p (dir_route direct) (RoutingAddress d) port st
          else
            (case dir_resolver direct (d_hostname d) (out st) of
               (answer, w) \<Rightarrow>
                 let st = st\<lparr>out := w\<rparr> in
                 (case answer of
                    Inl e \<Rightarrow> (Err (ResolveDestination (d_hostname d) e), st)
                  | Inr as \<Rightarrow> dial_loop tx p (dir_route direct) (d_hostname d) port {} None as st)))"

section \<open>What was dialed\<close>

fun dialed_of :: "dial_event \<Rightarrow> target list" where
  "dialed_of (Dialed h a n) = [(h, a, n)]"
| "dialed_of (Decided b h a n) = []"

definition dialed :: "'w conn_state \<Rightarrow> target list" where
  "dialed st = concat (map dialed_of (events st))"

definition approves :: "text_lib \<Rightarrow> policy \<Rightarrow> target \<Rightarrow> bool" where
  "approves tx p = (\<lambda>(h, a, n). Allows tx p h (WithZone a []) n = Ok True)"

lemma dialed_simps [simp]:
  "dialed (logDecision b h a n st) = dialed st"
  "dialed (st\<lparr>out := w\<rparr>) = dialed st"
  "out (logDecision b h a n st) = out st"
  by (simp_all add: dialed_def logDecision_def)

lemma call_route_dialed:
  "call_route route h a n st = (r, st') \<Longrightarrow> dialed st' = dialed st @ [(h, a, n)]"
  by (auto simp: call_route_def dialed_def split: prod.splits)

text \<open>One turn of the loop on an address that is considered.\<close>

lemma dial_loop_fresh:
  assumes "IsValid a" "Zone a = []" "Unmap a \<notin> seen"
  shows "dial_loop tx p route h n seen le (a # as) st =
     (case Allows tx p h (Unmap a) n of
        Inl e \<Rightarrow> (Err (EvaluatePolicy e), st)
      | Inr False \<Rightarrow>
          dial_loop tx p route h n (insert (Unmap a) seen) le as (logDecision False h (Unmap a) n st)
      | Inr True \<Rightarrow>
          (case call_route route h (Unmap a) n (logDecision True h (Unmap a) n st) of
             (Inr c, st) \<Rightarrow> (Ok c, st)
           | (Inl e, st) \<Rightarrow> dial_loop tx p route h n (insert (Unmap a) seen) (Some e) as st))"
  using assms by (auto simp: Let_def split: sum.splits bool.splits)

lemma dial_loop_stale:
  "\<not> (IsValid a \<and> Zone a = [] \<and> Unmap a \<notin> seen) \<Longrightarrow>
   dial_loop tx p route h n seen le (a # as) st = dial_loop tx p route h n seen le as st"
  by (auto simp: Let_def)

lemma dial_loop_approved:
  "dial_loop tx p route h n seen le as st = (r, st') \<Longrightarrow>
   \<exists>new. dialed st' = dialed st @ new \<and> list_all (approves tx p) new \<and>
     (\<forall>c. r = Inr c \<longrightarrow> new \<noteq> [])"
proof (induction as arbitrary: seen le st)
  case Nil
  then show ?case by (auto split: option.splits)
next
  case (Cons a as)
  show ?case
  proof (cases "IsValid a \<and> Zone a = [] \<and> Unmap a \<notin> seen")
    case False
    with Cons show ?thesis by (metis dial_loop_stale)
  next
    case True
    then have fresh: "IsValid a" "Zone a = []" "Unmap a \<notin> seen" by auto
    show ?thesis
    proof (cases "Allows tx p h (Unmap a) n")
      case (Inl e)
      with Cons.prems show ?thesis by (auto simp: dial_loop_fresh [OF fresh] simp del: dial_loop.simps)
    next
      case allows: (Inr allowed)
      show ?thesis
      proof (cases allowed)
        case False
        with Cons.prems allows
        have "dial_loop tx p route h n (insert (Unmap a) seen) le as
            (logDecision False h (Unmap a) n st) = (r, st')"
          by (simp add: dial_loop_fresh [OF fresh] del: dial_loop.simps)
        from Cons.IH [OF this] show ?thesis by simp
      next
        case True
        obtain ans st1
          where call: "call_route route h (Unmap a) n (logDecision True h (Unmap a) n st) = (ans, st1)"
          by (cases "call_route route h (Unmap a) n (logDecision True h (Unmap a) n st)")
        have d: "dialed st1 = dialed st @ [(h, Unmap a, n)]"
          using call_route_dialed [OF call] by simp
        have ok: "approves tx p (h, Unmap a, n)"
          using allows True fresh by (simp add: approves_def)
        show ?thesis
        proof (cases ans)
          case (Inr c)
          with Cons.prems allows True call d ok show ?thesis
            by (simp add: dial_loop_fresh [OF fresh] del: dial_loop.simps)
        next
          case (Inl e)
          with Cons.prems allows True call
          have "dial_loop tx p route h n (insert (Unmap a) seen) (Some e) as st1 = (r, st')"
            by (simp add: dial_loop_fresh [OF fresh] del: dial_loop.simps)
          from Cons.IH [OF this] d ok show ?thesis by auto
        qed
      qed
    qed
  qed
qed

lemma dialLiteral_approved:
  "dialLiteral tx p route a n st = (r, st') \<Longrightarrow>
   \<exists>new. dialed st' = dialed st @ new \<and> list_all (approves tx p) new \<and>
     (\<forall>c. r = Inr c \<longrightarrow> new \<noteq> [])"
  by (auto simp: dialLiteral_def Let_def approves_def split: sum.splits if_splits prod.splits
      dest!: call_route_dialed)

lemma Dial_approved:
  assumes "dir_policy dir = Some p" and "Dial tx dir d n st = (r, st')"
  shows "\<exists>new. dialed st' = dialed st @ new \<and> list_all (approves tx p) new \<and>
    (\<forall>c. r = Inr c \<longrightarrow> new \<noteq> [])"
  using assms
  by (auto simp: Dial_def Let_def split: if_splits prod.splits sum.splits
      dest!: dialLiteral_approved dial_loop_approved)

lemma Dial_nil: "dir_policy dir = None \<Longrightarrow> Dial tx dir d n st = (Err NilPolicy, st)"
  by (simp add: Dial_def)

text \<open>The connector of a policy is a connector in the sense of the interface.\<close>

definition approved_by :: "text_lib \<Rightarrow> ('w, 'e, 'c) direct \<Rightarrow> target \<Rightarrow> bool" where
  "approved_by tx dir t = (case dir_policy dir of None \<Rightarrow> False | Some p \<Rightarrow> approves tx p t)"

interpretation direct: connector "Dial tx dir" dialed "approved_by tx dir"
  for tx and dir :: "('w, 'e, 'c) direct"
proof unfold_locales
  fix d n and s :: "'w conn_state"
  obtain r s' where D: "Dial tx dir d n s = (r, s')" by (cases "Dial tx dir d n s")
  show "\<exists>new. dialed (snd (Dial tx dir d n s)) = dialed s @ new \<and> list_all (approved_by tx dir) new"
  proof (cases "dir_policy dir")
    case None
    then show ?thesis by (simp add: Dial_nil)
  next
    case (Some p)
    then have "approved_by tx dir = approves tx p" by (simp add: fun_eq_iff approved_by_def)
    with Dial_approved [OF Some D] D show ?thesis by auto
  qed
next
  fix d n c and s :: "'w conn_state"
  assume "fst (Dial tx dir d n s) = Inr c"
  then show "dialed (snd (Dial tx dir d n s)) \<noteq> dialed s"
    by (cases "dir_policy dir"; cases "Dial tx dir d n s") (auto simp: Dial_nil dest!: Dial_approved)
next
  fix d and s :: "'w conn_state"
  show "\<exists>e. fst (Dial tx dir d 0 s) = Inl e \<and> dialed (snd (Dial tx dir d 0 s)) = dialed s"
    by (auto simp: Dial_def split: option.splits)
qed

section \<open>Which addresses are tried\<close>

text \<open>
  The addresses a hostname may be dialed at: the resolver's answers in canonical form, in
  order and without duplicates, as far as the policy allows them.
\<close>

definition candidates :: "text_lib \<Rightarrow> policy \<Rightarrow> string \<Rightarrow> 16 word \<Rightarrow> addr list \<Rightarrow> addr list" where
  "candidates tx p h n as = filter (\<lambda>a. Allows tx p h a n = Ok True) (normalizeAddresses as)"

lemma Allows_total:
  assumes "NormalizeHostname tx h = Inr h'" "canonical_addr a" "n \<noteq> 0"
  shows "\<exists>b. Allows tx p h a n = Inr b"
proof -
  have "h \<noteq> [] \<Longrightarrow> ?thesis"
    using assms by (simp add: Allows_def normalize_request_def canonical_addr_def)
  moreover have "h = [] \<Longrightarrow> ?thesis"
    using assms by (simp add: Allows_def normalize_request_def canonical_addr_def)
  ultimately show ?thesis by blast
qed

text \<open>
  How the loop ends: \<open>le\<close> is the last error so far, \<open>cs\<close> the candidates left, \<open>k\<close> the number
  tried.  A connection ends it early; otherwise all were tried.
\<close>

definition loop_outcome ::
  "string \<Rightarrow> 16 word \<Rightarrow> 'e option \<Rightarrow> addr list \<Rightarrow> nat \<Rightarrow> ('e dial_error, 'c) result \<Rightarrow> bool" where
  "loop_outcome h n le cs k r \<longleftrightarrow>
     (case r of
        Inr c \<Rightarrow> 0 < k \<and> k \<le> length cs
      | Inl e \<Rightarrow> k = length cs \<and>
          (if cs = [] \<and> le = None then e = DeniedHost h n else \<exists>e'. e = DialApproved h e'))"

lemma dial_loop_candidates:
  assumes "NormalizeHostname tx h = Inr h'" "n \<noteq> 0"
    and "dial_loop tx p route h n seen le as st = (r, st')"
    and "cs = filter (\<lambda>a. Allows tx p h a n = Ok True) (normalize_from seen as)"
  shows "\<exists>k. dialed st' = dialed st @ map (\<lambda>a. (h, a, n)) (take k cs) \<and> loop_outcome h n le cs k r"
  using assms(3,4)
proof (induction as arbitrary: seen le st cs)
  case Nil
  then show ?case by (auto simp: loop_outcome_def split: option.splits)
next
  case (Cons a as)
  show ?case
  proof (cases "IsValid a \<and> Zone a = [] \<and> Unmap a \<notin> seen")
    case False
    then have "normalize_from seen (a # as) = normalize_from seen as" by auto
    with False Cons show ?thesis by (metis dial_loop_stale)
  next
    case True
    then have fresh: "IsValid a" "Zone a = []" "Unmap a \<notin> seen" by auto
    let ?rest = "filter (\<lambda>a. Allows tx p h a n = Ok True) (normalize_from (insert (Unmap a) seen) as)"
    obtain allowed where allows: "Allows tx p h (Unmap a) n = Inr allowed"
      using Allows_total [OF assms(1) canonical_Unmap assms(2)] fresh by blast
    show ?thesis
    proof (cases allowed)
      case False
      with Cons.prems allows fresh
      have "dial_loop tx p route h n (insert (Unmap a) seen) le as
          (logDecision False h (Unmap a) n st) = (r, st')" "cs = ?rest"
        by (simp_all add: dial_loop_fresh [OF fresh] del: dial_loop.simps)
      from Cons.IH [OF this] show ?thesis by simp
    next
      case True
      obtain ans st1
        where call: "call_route route h (Unmap a) n (logDecision True h (Unmap a) n st) = (ans, st1)"
        by (cases "call_route route h (Unmap a) n (logDecision True h (Unmap a) n st)")
      have d: "dialed st1 = dialed st @ [(h, Unmap a, n)]"
        using call_route_dialed [OF call] by simp
      have cs: "cs = Unmap a # ?rest" using Cons.prems(2) allows True fresh by simp
      show ?thesis
      proof (cases ans)
        case (Inr c)
        with Cons.prems(1) allows True call have "r = Inr c" "st' = st1"
          by (simp_all add: dial_loop_fresh [OF fresh] del: dial_loop.simps)
        with d cs show ?thesis by (intro exI [of _ 1]) (simp add: loop_outcome_def)
      next
        case (Inl e)
        with Cons.prems(1) allows True call
        have "dial_loop tx p route h n (insert (Unmap a) seen) (Some e) as st1 = (r, st')"
          by (simp add: dial_loop_fresh [OF fresh] del: dial_loop.simps)
        from Cons.IH [OF this refl] obtain k
          where "dialed st' = dialed st1 @ map (\<lambda>a. (h, a, n)) (take k ?rest)"
            "loop_outcome h n (Some e) ?rest k r" by blast
        with d cs show ?thesis
          by (intro exI [of _ "Suc k"]) (auto simp: loop_outcome_def split: sum.splits)
      qed
    qed
  qed
qed

lemma Dial_hostname:
  assumes "dir_policy dir = Some p" "n \<noteq> 0" "IsHostname d"
    and "NormalizeHostname tx (d_hostname d) = Inr (d_hostname d)"
    and "dir_resolver dir (d_hostname d) (out st) = (Inr as, w)"
    and "Dial tx dir d n st = (r, st')"
  shows "\<exists>k. dialed st' = dialed st @
           map (\<lambda>a. (d_hostname d, a, n)) (take k (candidates tx p (d_hostname d) n as)) \<and>
         loop_outcome (d_hostname d) n None (candidates tx p (d_hostname d) n as) k r"
proof -
  have "dial_loop tx p (dir_route dir) (d_hostname d) n {} None as (st\<lparr>out := w\<rparr>) = (r, st')"
    using assms by (simp add: Dial_def)
  from dial_loop_candidates [OF assms(4,2) this refl] show ?thesis
    by (simp add: candidates_def normalizeAddresses_def)
qed

lemma candidates_distinct: "distinct (candidates tx p h n as)"
  by (simp add: candidates_def)

section \<open>The log\<close>

text \<open>Every address handed to the route comes right after the line that approves it.\<close>

definition audited :: "dial_event list \<Rightarrow> bool" where
  "audited es \<longleftrightarrow>
     (\<forall>i < length es. \<forall>h a n. es ! i = Dialed h a n \<longrightarrow> 0 < i \<and> es ! (i - 1) = Decided True h a n)"

lemma audited_decided: "audited es \<Longrightarrow> audited (es @ [Decided b h a n])"
  by (auto simp: audited_def nth_append)

lemma audited_dialed: "audited es \<Longrightarrow> audited (es @ [Decided True h a n, Dialed h a n])"
  by (auto simp: audited_def nth_append less_Suc_eq)

lemma logDecision_audited:
  "audited (events st) \<Longrightarrow> audited (events (logDecision b h a n st))"
  by (simp add: logDecision_def audited_decided)

lemma call_route_audited:
  "audited (events st) \<Longrightarrow> call_route route h a n (logDecision True h a n st) = (r, st') \<Longrightarrow>
   audited (events st')"
  by (auto simp: call_route_def logDecision_def audited_dialed split: prod.splits)

lemma dial_loop_audited:
  "audited (events st) \<Longrightarrow> audited (events (snd (dial_loop tx p route h n seen le as st)))"
proof (induction as arbitrary: seen le st)
  case Nil
  then show ?case by simp
next
  case (Cons a as)
  show ?case
  proof (cases "IsValid a \<and> Zone a = [] \<and> Unmap a \<notin> seen")
    case False
    with Cons show ?thesis by (metis dial_loop_stale)
  next
    case True
    then have fresh: "IsValid a" "Zone a = []" "Unmap a \<notin> seen" by auto
    show ?thesis
      unfolding dial_loop_fresh [OF fresh]
      using Cons logDecision_audited [OF Cons.prems]
      by (auto split: sum.splits bool.splits prod.splits dest: call_route_audited [OF Cons.prems]
          simp del: dial_loop.simps)
  qed
qed

lemma Dial_audited:
  "audited (events st) \<Longrightarrow> audited (events (snd (Dial tx dir d n st)))"
  by (auto simp: Dial_def dialLiteral_def Let_def dial_loop_audited logDecision_audited
      split: option.splits sum.splits prod.splits dest: call_route_audited)

section \<open>Denials\<close>

text \<open>A denial means that nothing was handed to the route.\<close>

lemma dial_loop_denied:
  "dial_loop tx p route h n seen le as st = (Inl e, st') \<Longrightarrow> is_denied e \<Longrightarrow>
   le = None \<and> dialed st' = dialed st"
proof (induction as arbitrary: seen le st)
  case Nil
  then show ?case by (auto split: option.splits)
next
  case (Cons a as)
  show ?case
  proof (cases "IsValid a \<and> Zone a = [] \<and> Unmap a \<notin> seen")
    case False
    with Cons show ?thesis by (metis dial_loop_stale)
  next
    case True
    then have fresh: "IsValid a" "Zone a = []" "Unmap a \<notin> seen" by auto
    show ?thesis
      using Cons.prems Cons.IH unfolding dial_loop_fresh [OF fresh]
      by (fastforce split: sum.splits bool.splits prod.splits simp del: dial_loop.simps)
  qed
qed

lemma Dial_denied:
  "Dial tx dir d n st = (Inl e, st') \<Longrightarrow> is_denied e \<Longrightarrow> dialed st' = dialed st"
  by (auto simp: Dial_def dialLiteral_def Let_def rmap_err_def
      split: option.splits sum.splits prod.splits if_splits dest!: dial_loop_denied)

section \<open>What a client's calls lead to\<close>

text \<open>Over any series of calls, every address handed to the route is one the policy permits.\<close>

lemma dial_all_permitted:
  assumes "fst (new_policy tx resolver lenient as bs w) = Inr p"
    and "dir_policy dir = Some p"
    and "list_all (\<lambda>(d, n). wf_destination d) ts"
  shows "\<exists>new. dialed (snd (dial_all (Dial tx dir) ts st)) = dialed st @ new \<and>
    (\<forall>(h, a, n) \<in> set new. \<exists>q. normalize_request tx h (WithZone a []) n = Ok q \<and> permits p q)"
proof -
  have wf: "wf_policy p"
    using assms(1) by (cases "new_policy tx resolver lenient as bs w") (auto dest: new_policy_wf)
  obtain new where new: "dialed (snd (dial_all (Dial tx dir) ts st)) = dialed st @ new"
    "list_all (approved_by tx dir) new"
    using direct.dial_all_approved [OF assms(3)] by blast
  have "\<exists>q. normalize_request tx h (WithZone a []) n = Ok q \<and> permits p q"
    if "(h, a, n) \<in> set new" for h a n
    using that new(2) assms(2)
    by (auto simp: list_all_iff approved_by_def approves_def Allows_permits [OF wf] rbind_Inr_iff)
  with new(1) show ?thesis by blast
qed

end
