(* ===== verification/Examples.thy ===== *)
theory Examples
  imports Direct
begin

text \<open>
  Concrete inputs at which the properties are applied: a resolver for two names, a policy
  built from one allowed hostname and one blocked network, and a connector whose route
  accepts every address but one.
\<close>

definition demo_lookup :: "string \<Rightarrow> (string, addr list) result" where
  "demo_lookup h =
     (if h = ''a.example'' then Ok [Addr4 167772161, Addr4 3232235777, Addr4 3232235778]
      else Err ''no such host'')"

definition demo_policy :: policy where
  "demo_policy = \<lparr>
     pol_allow = \<lparr>hosts = [\<lparr>hr_hostname = ''a.example'', hr_wildcard = False, hr_port = any_port,
        hr_resolved = [Addr4 167772161, Addr4 3232235777, Addr4 3232235778]\<rparr>],
        addresses = [], prefixes = []\<rparr>,
     pol_block = \<lparr>hosts = [], addresses = [],
        prefixes = [\<lparr>pr_prefix = Prefix (Addr4 167772160) (Some 8), pr_port = any_port\<rparr>]\<rparr>\<rparr>"

lemma demo_policy_new:
  "fst (new_policy ascii_lib (pure_resolver demo_lookup) False [''a.example''] [''10.0.0.0/8''] ()) =
   Inr demo_policy"
  by code_simp

definition demo_route :: "(nat, string, nat) route" where
  "demo_route h a n w = (if a = Addr4 3232235777 then (Err ''refused'', w + 1) else (Ok w, w + 1))"

definition demo_direct :: "(nat, string, nat) direct" where
  "demo_direct = \<lparr>dir_policy = Some demo_policy, dir_resolver = pure_resolver demo_lookup,
     dir_route = demo_route\<rparr>"

definition demo_state :: "nat conn_state" where
  "demo_state = \<lparr>out = 0, events = []\<rparr>"

definition demo_host :: destination where
  "demo_host = \<lparr>d_hostname = ''a.example'', d_address = NoAddr, d_zone = []\<rparr>"

lemma demo_dial:
  "Dial ascii_lib demo_direct demo_host 443 demo_state =
     (Ok 1, \<lparr>out = 2, events =
        [Decided False ''a.example'' (Addr4 167772161) 443,
         Decided True ''a.example'' (Addr4 3232235777) 443,
         Dialed ''a.example'' (Addr4 3232235777) 443,
         Decided True ''a.example'' (Addr4 3232235778) 443,
         Dialed ''a.example'' (Addr4 3232235778) 443]\<rparr>)"
  by code_simp

end
