(* ===== verification/Policy_Properties.thy ===== *)
theory Policy_Properties
  imports Examples
begin

text \<open>
  The properties of internal/policy: what a parsed and resolved policy looks like, what it
  allows, and how its decision depends on the rules.
\<close>

section \<open>The decision\<close>

text \<open>
  C3: a policy built by \<open>New\<close> implements its specification.  For every hostname, address and
  port, \<open>Allows\<close> fails exactly when the request cannot be normalised, and otherwise returns
  whether the specification permits the normalised request: the policy has rules, an allow
  rule covers the request or there is no allow rule, and no block rule covers it.
\<close>

theorem Allows_refines_permits:
  assumes "fst (new_policy tx resolver lenient as bs w) = Inr p"
  shows "Allows tx p h a n = rbind (normalize_request tx h a n) (\<lambda>q. Ok (permits p q))"
  using assms by (cases "new_policy tx resolver lenient as bs w")
    (auto intro: Allows_permits new_policy_wf)

theorem Allows_refines_permits_witness:
  "Allows ascii_lib demo_policy ''A.Example.'' (Addr4 3232235777) 443 =
     rbind (normalize_request ascii_lib ''A.Example.'' (Addr4 3232235777) 443)
       (\<lambda>q. Ok (permits demo_policy q))"
  by (rule Allows_refines_permits [OF demo_policy_new])

text \<open>
  C4: the four operating modes of the README on a normalised request, by which of the two
  rule lists are given: no rules deny everything, an allowlist allows what it covers, a
  blocklist allows what it does not cover, and with both the block rules are exceptions.
\<close>

theorem operating_modes:
  assumes "fst (new_policy tx resolver lenient as bs w) = Inr p"
    and "normalize_request tx h a n = Inr q"
  shows "Allows tx p h a n = Ok
    (if as = [] \<and> bs = [] then False
     else if bs = [] then covers (pol_allow p) q
     else if as = [] then \<not> covers (pol_block p) q
     else covers (pol_allow p) q \<and> \<not> covers (pol_block p) q)"
proof -
  obtain st where N: "new_policy tx resolver lenient as bs w = (Inr p, st)"
    using assms(1) by (cases "new_policy tx resolver lenient as bs w") auto
  have "rule_count (pol_block p) = 0 \<Longrightarrow> \<not> covers (pol_block p) q"
    by (auto simp: rule_count_def covers_def)
  then show ?thesis
    using new_policy_count [OF N] Allows_permits [OF new_policy_wf [OF N], of tx h a n] assms(2)
    by (auto simp: permits_def)
qed

theorem operating_modes_witness:
  "Allows ascii_lib demo_policy ''a.example'' (Addr4 167772161) 443 = Ok
     (covers (pol_allow demo_policy) (''a.example'', Addr4 167772161, 443) \<and>
      \<not> covers (pol_block demo_policy) (''a.example'', Addr4 167772161, 443))"
proof -
  have q: "normalize_request ascii_lib ''a.example'' (Addr4 167772161) 443 =
      Inr (''a.example'', Addr4 167772161, 443)" by code_simp
  show ?thesis using operating_modes [OF demo_policy_new q] by simp
qed

text \<open>
  an IPv4-mapped IPv6 address is judged as the IPv4 address it stands for, by every policy.
\<close>

theorem Allows_mapped:
  "Allows tx p h (Addr6 (map4 v) []) n = Allows tx p h (Addr4 v) n"
  by (simp add: Allows_def normalize_request_def del: Unmap.simps(1))

text \<open>
  adding block rules never allows more.  For a resolver that is a function of the name,
  whatever the policy with further block rules allows, the policy without them allows,
  provided it has a rule at all (the first block rule turns "no access" into a blocklist).
\<close>

theorem block_rules_only_restrict:
  assumes "fst (new_policy tx (pure_resolver f) lenient as bs w) = Inr p"
    and "fst (new_policy tx (pure_resolver f) lenient as (bs @ extra) w) = Inr p'"
    and "as \<noteq> [] \<or> bs \<noteq> []"
    and "Allows tx p' h a n = Ok True"
  shows "Allows tx p h a n = Ok True"
proof -
  obtain st st' where N: "new_policy tx (pure_resolver f) lenient as bs w = (Inr p, st)"
    and N': "new_policy tx (pure_resolver f) lenient as (bs @ extra) w = (Inr p', st')"
    using assms(1,2) by (metis prod.collapse)
  obtain d where "pol_allow p' = pol_allow p" "pol_block p' = join_rules (pol_block p) d"
    using new_policy_more_block [OF N N'] by blast
  moreover have "\<not> (rules_empty (pol_allow p) \<and> rules_empty (pol_block p))"
    using policy_empty_iff [OF N] assms(3) by (simp add: policy_empty_def)
  ultimately show ?thesis
    using assms(4) rules.more_block_denies_more by (auto simp: Allows_def rbind_Inr_iff)
qed

theorem block_rules_only_restrict_witness:
  "Allows ascii_lib demo_policy ''a.example'' (Addr4 3232235777) 443 = Ok True"
proof -
  let ?p' = "demo_policy\<lparr>pol_block := pol_block demo_policy\<lparr>addresses :=
    [\<lparr>ar_address = Addr4 1, ar_port = any_port\<rparr>]\<rparr>\<rparr>"
  have "fst (new_policy ascii_lib (pure_resolver demo_lookup) False [''a.example'']
      ([''10.0.0.0/8''] @ [''0.0.0.1'']) ()) = Inr ?p'" by code_simp
  moreover have "Allows ascii_lib ?p' ''a.example'' (Addr4 3232235777) 443 = Ok True" by code_simp
  ultimately show ?thesis
    using block_rules_only_restrict [OF demo_policy_new] by blast
qed

text \<open>
  adding allow rules to a non-empty allow list never denies more: what was allowed stays
  allowed.
\<close>

theorem allow_rules_only_extend:
  assumes "fst (new_policy tx (pure_resolver f) lenient as bs w) = Inr p"
    and "fst (new_policy tx (pure_resolver f) lenient (as @ extra) bs w) = Inr p'"
    and "as \<noteq> []"
    and "Allows tx p h a n = Ok True"
  shows "Allows tx p' h a n = Ok True"
proof -
  obtain st st' where N: "new_policy tx (pure_resolver f) lenient as bs w = (Inr p, st)"
    and N': "new_policy tx (pure_resolver f) lenient (as @ extra) bs w = (Inr p', st')"
    using assms(1,2) by (metis prod.collapse)
  obtain d where "pol_block p' = pol_block p" "pol_allow p' = join_rules (pol_allow p) d"
    using new_policy_more_allow [OF N N'] by blast
  moreover have "\<not> rules_empty (pol_allow p)"
    using new_policy_count [OF N] assms(3) by (simp add: rules_empty_iff)
  ultimately show ?thesis
    using assms(4) rules.more_allow_allows_more by (auto simp: Allows_def rbind_Inr_iff)
qed

theorem allow_rules_only_extend_witness:
  "Allows ascii_lib (demo_policy\<lparr>pol_allow := pol_allow demo_policy\<lparr>addresses :=
     [\<lparr>ar_address = Addr4 1, ar_port = any_port\<rparr>]\<rparr>\<rparr>) ''a.example'' (Addr4 3232235777) 443 = Ok True"
proof -
  have "fst (new_policy ascii_lib (pure_resolver demo_lookup) False
      ([''a.example''] @ [''0.0.0.1'']) [''10.0.0.0/8''] ()) =
    Inr (demo_policy\<lparr>pol_allow := pol_allow demo_policy\<lparr>addresses :=
     [\<lparr>ar_address = Addr4 1, ar_port = any_port\<rparr>]\<rparr>\<rparr>)" by code_simp
  moreover have "Allows ascii_lib demo_policy ''a.example'' (Addr4 3232235777) 443 = Ok True"
    by code_simp
  ultimately show ?thesis
    using allow_rules_only_extend [OF demo_policy_new] by blast
qed

section \<open>Construction\<close>

text \<open>
  C6: every policy that \<open>New\<close> returns is well-formed, whatever the resolver answers: ports
  from 1 to 65535 or absent, canonical hostnames, resolved addresses canonical (unmapped,
  without zone) and without duplicates, none on wildcard rules, prefixes masked and never
  IPv4-mapped; and it has exactly one rule for each rule text.
\<close>

theorem new_policy_well_formed:
  assumes "fst (new_policy tx resolver lenient as bs w) = Inr p"
  shows "wf_policy p \<and> rule_count (pol_allow p) = length as \<and> rule_count (pol_block p) = length bs"
  using assms by (cases "new_policy tx resolver lenient as bs w")
    (auto dest: new_policy_wf new_policy_count)

theorem new_policy_well_formed_witness:
  "wf_policy demo_policy \<and> rule_count (pol_allow demo_policy) = length [''a.example''] \<and>
   rule_count (pol_block demo_policy) = length [''10.0.0.0/8'']"
  by (rule new_policy_well_formed [OF demo_policy_new])

text \<open>
  construction asks the resolver at most once for each name, across the allow and the
  block rules, also when it ends in an error.
\<close>

theorem new_policy_looks_up_once:
  "distinct (world (snd (new_policy tx (recording f) lenient as bs [])))"
  using new_policy_once [of tx f lenient as bs] by (simp add: queries_once_def)

text \<open>
  C13: unresolved hostname rules.  Strict construction returns a policy only when every rule
  for an exact hostname has an address; lenient construction (\<open>--allow-unresolved-rules\<close>)
  fails on no lookup, only on a rule that does not parse.
\<close>

theorem new_policy_unresolved:
  "(\<forall>p. fst (new_policy tx resolver False as bs w) = Inr p \<longrightarrow>
      (\<forall>r \<in> set (hosts (pol_allow p)) \<union> set (hosts (pol_block p)).
         hr_wildcard r \<or> hr_resolved r \<noteq> [])) \<and>
   (\<forall>e. fst (new_policy tx resolver True as bs w) = Inl e \<longrightarrow>
      (\<exists>raw e'. e = ParseAllow raw e' \<or> e = ParseBlock raw e'))"
proof (intro conjI allI impI)
  fix p assume "fst (new_policy tx resolver False as bs w) = Inr p"
  then obtain st where "new_policy tx resolver False as bs w = (Inr p, st)"
    by (cases "new_policy tx resolver False as bs w") auto
  then show "\<forall>r \<in> set (hosts (pol_allow p)) \<union> set (hosts (pol_block p)).
      hr_wildcard r \<or> hr_resolved r \<noteq> []"
    by (rule new_policy_cases) (auto dest!: resolveHostRules_strict)
next
  fix e assume e: "fst (new_policy tx resolver True as bs w) = Inl e"
  have "fst (resolveHostRules resolver True rs st) \<noteq> Inl e" for rs st
    using resolveHostRules_lenient [of resolver rs st] by auto
  with e show "\<exists>raw e'. e = ParseAllow raw e' \<or> e = ParseBlock raw e'"
    by (auto simp: new_policy_def split: prod.splits sum.splits) (metis fst_conv)+
qed

theorem new_policy_unresolved_witness:
  "hr_resolved (hd (hosts (pol_allow demo_policy))) \<noteq> []"
proof -
  have "hd (hosts (pol_allow demo_policy)) \<in> set (hosts (pol_allow demo_policy))"
    "\<not> hr_wildcard (hd (hosts (pol_allow demo_policy)))"
    by (simp_all add: demo_policy_def)
  then show ?thesis
    using new_policy_unresolved [of ascii_lib "pure_resolver demo_lookup" "[''a.example'']"
        "[''10.0.0.0/8'']" "()"] demo_policy_new by blast
qed

section \<open>Rules\<close>

text \<open>
  C26: a CIDR rule matches exactly the addresses of the network written.  For a canonical
  address the stored prefix contains it when the parsed one does; a network of IPv4-mapped
  addresses is stored as the IPv4 network of the addresses they stand for.
\<close>

theorem cidr_rule_members:
  assumes "ParsePrefix s = Inr p" and "canonical_addr a"
  shows "Contains (normalizePrefix (Masked p)) a \<longleftrightarrow>
    (if Is4In6 (paddr (Masked p)) then (\<exists>v. a = Addr4 v \<and> Contains p (Addr6 (map4 v) []))
     else Contains p a)"
proof -
  have v: "valid_prefix p" using assms(1) by (rule ParsePrefix_valid)
  have m: "masked_prefix (Masked p)" using v by (rule Masked_masked)
  show ?thesis
  proof (cases "Is4In6 (paddr (Masked p))")
    case False
    then show ?thesis by (simp add: normalizePrefix_def Contains_Masked [OF v])
  next
    case True
    from normalizePrefix_4in6 [OF m True] obtain w b where
      M: "Masked p = Prefix (Addr6 w []) (Some b)" and b: "96 \<le> b" "b \<le> 128"
      and w: "drop_bit 32 w = 65535"
      and N: "normalizePrefix (Masked p) = Prefix (Addr4 (ucast w)) (Some (b - 96))" by blast
    have six: "Contains p (Addr6 (map4 v) []) \<longleftrightarrow> drop_bit (128 - b) v = drop_bit (128 - b) (ucast w)" for v
      unfolding Contains_Masked [OF v, symmetric] M
      using b drop_map4 [of "128 - b" v "ucast w"] by (simp add: xor_mask_zero map4_ucast [OF w])
    have four: "Contains (normalizePrefix (Masked p)) (Addr4 v) \<longleftrightarrow>
        drop_bit (128 - b) v = drop_bit (128 - b) (ucast w)" for v
      using b unfolding N by (simp add: xor_eq_zero_iff)
    show ?thesis using True six four assms(2) by (cases a) (auto simp: N)
  qed
qed

theorem cidr_rule_members_witness:
  "Contains (normalizePrefix (Masked (Prefix (Addr4 167838211) (Some 8)))) (Addr4 184549375)"
proof -
  have "ParsePrefix ''10.1.2.3/8'' = Inr (Prefix (Addr4 167838211) (Some 8))" by code_simp
  moreover have "canonical_addr (Addr4 184549375)" by (simp add: canonical_addr_def)
  moreover have "Contains (Prefix (Addr4 167838211) (Some 8)) (Addr4 184549375)" by code_simp
  moreover have "\<not> Is4In6 (paddr (Masked (Prefix (Addr4 167838211) (Some 8))))" by code_simp
  ultimately show ?thesis using cidr_rule_members by simp
qed

text \<open>
  a wildcard rule matches the strict subdomains of its name at any depth and nothing
  else, in particular not the name itself; any other rule matches its name only.
\<close>

theorem wildcard_matches_subdomains:
  "matchesHostname r h \<longleftrightarrow>
     (if hr_wildcard r
      then (\<exists>ls. ls \<noteq> [] \<and> SplitByte h CHR ''.'' = ls @ SplitByte (hr_hostname r) CHR ''.'')
      else h = hr_hostname r)"
  by (simp add: matchesHostname_iff subdomain_of_def)

text \<open>
  a port text is accepted exactly when it is a non-empty sequence of digits with a value
  from 1 to 65535, and the rule then has that port and no other.
\<close>

theorem parsePort_exact:
  "(\<exists>m. parsePort raw = Inr m \<and> pm_set m \<and> unat (pm_port m) = n) \<longleftrightarrow>
     raw \<noteq> [] \<and> list_all is_digit raw \<and> digits_val raw = n \<and> 1 \<le> n \<and> n \<le> 65535"
proof (cases "raw \<noteq> [] \<and> list_all is_digit raw \<and> digits_val raw < 65536 \<and> digits_val raw \<noteq> 0")
  case True
  then have "parsePort raw = Inr \<lparr>pm_port = of_nat (digits_val raw), pm_set = True\<rparr>"
    by (simp add: parsePort_def ParseUint_def)
  moreover have "unat (of_nat (digits_val raw) :: 16 word) = digits_val raw"
    using True by (simp add: unat_of_nat take_bit_nat_eq_self)
  ultimately show ?thesis using True by auto
next
  case False
  then have "\<exists>e. parsePort raw = Inl e" by (auto simp: parsePort_def ParseUint_def)
  then show ?thesis using False by auto
qed

section \<open>Destinations\<close>

text \<open>
  C27: a parsed destination is either a canonical hostname or a canonical IP address, never
  both; an IP address is unmapped, and a zone is a valid interface name, on an IPv6 address
  only.  The address used for routing is the policy's address with the zone added.
\<close>

theorem ParseDestination_classifies:
  assumes "ParseDestination tx raw = Inr d"
  shows "(if IsHostname d then canonical_hostname (d_hostname d) \<and> d_address d = NoAddr \<and> d_zone d = []
          else canonical_addr (d_address d) \<and> valid_zone (d_zone d) \<and>
               (d_zone d \<noteq> [] \<longrightarrow> Is6 (d_address d))) \<and>
         WithZone (RoutingAddress d) [] = d_address d \<and> Zone (RoutingAddress d) = d_zone d"
  using ParseDestination_wf [OF assms] RoutingAddress_strip RoutingAddress_zone
  by (auto simp: wf_destination_def)

theorem ParseDestination_classifies_witness:
  "WithZone (RoutingAddress \<lparr>d_hostname = [], d_address = Addr6 (338288524927261089654018896841347694593) [],
     d_zone = ''eth0''\<rparr>) [] = Addr6 (338288524927261089654018896841347694593) []"
proof -
  have "ParseDestination ascii_lib ''fe80::1%eth0'' =
    Inr \<lparr>d_hostname = [], d_address = Addr6 (338288524927261089654018896841347694593) [], d_zone = ''eth0''\<rparr>"
    by code_simp
  from ParseDestination_classifies [OF this] show ?thesis by simp
qed

text \<open>
  C22: the classification is not closed under normalisation.  The text of an IPv4 address
  with a trailing dot is no literal for \<open>ParseAddr\<close>, so it is taken as a hostname, and the
  hostname that \<open>NormalizeHostname\<close> makes of it is the text of an IP address.  This holds for
  every IDNA profile that keeps the digits and dots of an address as they are.
\<close>

theorem dotted_literal_is_hostname:
  assumes "idna_to_ascii tx ''127.0.0.1'' = Some ''127.0.0.1''"
  shows "ParseDestination tx ''127.0.0.1.'' =
      Ok \<lparr>d_hostname = ''127.0.0.1'', d_address = NoAddr, d_zone = []\<rparr> \<and>
    ParseAddr ''127.0.0.1'' = Ok (Addr4 2130706433)"
proof -
  have c: "canonical_hostname ''127.0.0.1''" by code_simp
  have "\<exists>e. ParseAddr ''127.0.0.1.'' = Inl e" by (rule exI [of _ V4EmptyField]) code_simp
  moreover have "NormalizeHostname tx ''127.0.0.1.'' = NormalizeHostname tx ''127.0.0.1''"
  proof -
    have "ValidString ''127.0.0.1.''" "ValidString ''127.0.0.1''" by code_simp+
    moreover have "TrimSuffix ''127.0.0.1.'' ''.'' = ''127.0.0.1''"
      "TrimSuffix ''127.0.0.1'' ''.'' = ''127.0.0.1''" by code_simp+
    ultimately show ?thesis by (simp add: NormalizeHostname_def)
  qed
  moreover have "ParseAddr ''127.0.0.1'' = Ok (Addr4 2130706433)" by code_simp
  ultimately show ?thesis
    using NormalizeHostname_fixed [OF c assms] by (auto simp: ParseDestination_def)
qed

theorem dotted_literal_is_hostname_witness:
  "ParseDestination ascii_lib ''127.0.0.1.'' =
     Ok \<lparr>d_hostname = ''127.0.0.1'', d_address = NoAddr, d_zone = []\<rparr>"
proof -
  have "idna_to_ascii ascii_lib ''127.0.0.1'' = Some ''127.0.0.1''" by code_simp
  from dotted_literal_is_hostname [OF this] show ?thesis by simp
qed

end
