(* ===== verification/Outbound_Properties.thy ===== *)
theory Outbound_Properties
  imports Examples
begin

text \<open>
  The properties of internal/outbound: which addresses the connector hands to the route, in
  which order, and what its errors mean.
\<close>

section \<open>The connector\<close>

text \<open>
  C2: for a policy built by \<open>New\<close> and any series of parsed destinations and ports, the
  connector hands an address to the route only if the specification of the policy permits it:
  the request (hostname, address without zone, port) can be normalised, some rule allows it
  and no block rule covers it.
\<close>

theorem dial_only_permitted:
  assumes "fst (new_policy tx resolver lenient as bs w) = Inr p"
    and "dir_policy dir = Some p"
    and "list_all (\<lambda>(d, n). wf_destination d) ts"
  shows "\<exists>new. dialed (snd (dial_all (Dial tx dir) ts st)) = dialed st @ new \<and>
    (\<forall>(h, a, n) \<in> set new. \<exists>q. normalize_request tx h (WithZone a []) n = Ok q \<and> permits p q)"
  using assms by (rule dial_all_permitted)

theorem dial_only_permitted_witness:
  "\<exists>q. normalize_request ascii_lib ''a.example'' (Addr4 3232235778) 443 = Ok q \<and> permits demo_policy q"
proof -
  have p: "dir_policy demo_direct = Some demo_policy" by (simp add: demo_direct_def)
  have wf: "list_all (\<lambda>(d, n). wf_destination d) [(demo_host, 443)]" by code_simp
  have "dialed (snd (dial_all (Dial ascii_lib demo_direct) [(demo_host, 443)] demo_state)) =
      dialed demo_state @ [(''a.example'', Addr4 3232235777, 443), (''a.example'', Addr4 3232235778, 443)]"
    by (simp add: demo_dial, simp add: dialed_def demo_state_def)
  with dial_only_permitted [OF demo_policy_new p wf, of demo_state] show ?thesis by simp
qed

text \<open>
  C8: a hostname is tried at the addresses the policy allows for it, among the resolver's
  answers in canonical form, in their order and each at most once; the first connection ends
  the series, and an error means that all of them were tried.  The error is the denial exactly
  when there was none to try.
\<close>

theorem dial_tries_candidates:
  assumes "dir_policy dir = Some p" "n \<noteq> 0" "IsHostname d"
    and "NormalizeHostname tx (d_hostname d) = Inr (d_hostname d)"
    and "dir_resolver dir (d_hostname d) (out st) = (Inr as, w)"
    and "Dial tx dir d n st = (r, st')"
  shows "\<exists>k. dialed st' = dialed st @
           map (\<lambda>a. (d_hostname d, a, n)) (take k (candidates tx p (d_hostname d) n as)) \<and>
         distinct (candidates tx p (d_hostname d) n as) \<and>
         (case r of
            Inr c \<Rightarrow> 0 < k \<and> k \<le> length (candidates tx p (d_hostname d) n as)
          | Inl e \<Rightarrow> k = length (candidates tx p (d_hostname d) n as) \<and>
              (is_denied e \<longleftrightarrow> candidates tx p (d_hostname d) n as = []))"
proof -
  obtain k where k: "dialed st' = dialed st @
      map (\<lambda>a. (d_hostname d, a, n)) (take k (candidates tx p (d_hostname d) n as))"
    "loop_outcome (d_hostname d) n None (candidates tx p (d_hostname d) n as) k r"
    using Dial_hostname [OF assms] by blast
  then show ?thesis
    by (intro exI [of _ k])
      (auto simp: loop_outcome_def candidates_distinct split: sum.splits if_splits)
qed

theorem dial_tries_candidates_witness:
  "\<exists>k. dialed (snd (Dial ascii_lib demo_direct demo_host 443 demo_state)) = dialed demo_state @
     map (\<lambda>a. (''a.example'', a, 443)) (take k (candidates ascii_lib demo_policy ''a.example'' 443
       [Addr4 167772161, Addr4 3232235777, Addr4 3232235778]))"
proof -
  have h: "d_hostname demo_host = ''a.example''" by (simp add: demo_host_def)
  have "dir_policy demo_direct = Some demo_policy" "IsHostname demo_host"
    by (simp_all add: demo_direct_def IsHostname_def h)
  moreover have "NormalizeHostname ascii_lib (d_hostname demo_host) = Inr (d_hostname demo_host)"
    by code_simp
  moreover have "dir_resolver demo_direct (d_hostname demo_host) (out demo_state) =
      (Inr [Addr4 167772161, Addr4 3232235777, Addr4 3232235778], 0)"
    by code_simp
  ultimately show ?thesis
    using dial_tries_candidates [of demo_direct demo_policy 443 demo_host ascii_lib demo_state]
    by (cases "Dial ascii_lib demo_direct demo_host 443 demo_state") (force simp: h)
qed

text \<open>
  an IP literal is judged without its zone and routed with it: when the policy allows the
  address it is handed to the route exactly once, with the zone, and the answer of the route
  is the result; otherwise nothing is dialed and the error is the denial.
\<close>

theorem dial_literal_once:
  assumes "dir_policy dir = Some p" "n \<noteq> 0" "wf_destination d" "\<not> IsHostname d"
  shows "case Allows tx p [] (d_address d) n of
      Inl e \<Rightarrow> Dial tx dir d n st = (Err (EvaluatePolicy e), st)
    | Inr False \<Rightarrow>
        (\<exists>e. fst (Dial tx dir d n st) = Err e \<and> is_denied e) \<and>
        dialed (snd (Dial tx dir d n st)) = dialed st \<and> out (snd (Dial tx dir d n st)) = out st
    | Inr True \<Rightarrow>
        fst (Dial tx dir d n st) = rmap_err (DialLiteral (RoutingAddress d))
          (fst (dir_route dir [] (RoutingAddress d) n (out st))) \<and>
        dialed (snd (Dial tx dir d n st)) = dialed st @ [([], RoutingAddress d, n)]"
  using assms
  by (auto simp: Dial_def dialLiteral_def RoutingAddress_strip Let_def call_route_def dialed_def
      logDecision_def split: sum.splits prod.splits bool.splits)

theorem dial_literal_once_witness:
  "dialed (snd (Dial ascii_lib demo_direct \<lparr>d_hostname = [], d_address = Addr4 167772161, d_zone = []\<rparr>
     443 demo_state)) = dialed demo_state"
proof -
  let ?d = "\<lparr>d_hostname = [], d_address = Addr4 167772161, d_zone = []\<rparr>"
  have "dir_policy demo_direct = Some demo_policy" by (simp add: demo_direct_def)
  moreover have "wf_destination ?d" "\<not> IsHostname ?d" by code_simp+
  moreover have "Allows ascii_lib demo_policy [] (d_address ?d) 443 = Ok False" by code_simp
  ultimately show ?thesis
    using dial_literal_once [of demo_direct demo_policy 443 ?d ascii_lib demo_state] by simp
qed

text \<open>
  the log is complete: in what the connector does, every address handed to the route is
  directly preceded by the log line of its approval.
\<close>

theorem dial_audited:
  assumes "audited (events st)"
  shows "audited (events (snd (Dial tx dir d n st)))"
  using assms by (rule Dial_audited)

theorem dial_audited_witness:
  "audited (events (snd (Dial ascii_lib demo_direct demo_host 443 demo_state)))"
  by (rule dial_audited) (simp add: demo_state_def audited_def)

text \<open>
  the connector refuses without touching the outside world when it has no policy or the
  port is 0, and a resolver error ends the call before anything is dialed.
\<close>

theorem dial_refuses_early:
  "(dir_policy dir = None \<or> n = 0 \<longrightarrow> (\<exists>e. Dial tx dir d n st = (Err e, st) \<and> \<not> is_denied e)) \<and>
   (dir_policy dir \<noteq> None \<and> n \<noteq> 0 \<and> IsHostname d \<and>
     dir_resolver dir (d_hostname d) (out st) = (Inl m, w) \<longrightarrow>
     Dial tx dir d n st = (Err (ResolveDestination (d_hostname d) m), st\<lparr>out := w\<rparr>))"
  by (auto simp: Dial_def split: option.splits)

theorem dial_refuses_early_witness:
  "Dial ascii_lib demo_direct \<lparr>d_hostname = ''b.example'', d_address = NoAddr, d_zone = []\<rparr> 443 demo_state =
     (Err (ResolveDestination ''b.example'' ''no such host''), demo_state) \<and>
   (\<exists>e. Dial ascii_lib demo_direct demo_host 0 demo_state = (Err e, demo_state) \<and> \<not> is_denied e)"
proof -
  let ?d = "\<lparr>d_hostname = ''b.example'', d_address = NoAddr, d_zone = []\<rparr>"
  have "dir_policy demo_direct \<noteq> None" by (simp add: demo_direct_def)
  moreover have "IsHostname ?d" by code_simp
  moreover have "dir_resolver demo_direct (d_hostname ?d) (out demo_state) = (Inl ''no such host'', 0)"
    by code_simp
  moreover have "demo_state\<lparr>out := 0\<rparr> = demo_state" by (simp add: demo_state_def)
  ultimately show ?thesis
    using dial_refuses_early [of demo_direct 443 ascii_lib ?d demo_state "''no such host''" 0]
      dial_refuses_early [of demo_direct 0 ascii_lib demo_host demo_state]
    by auto
qed

end
