(* ===== verification/Environment.thy ===== *)
theory Environment
  imports Netip
begin

text \<open>
  internal/outbound/environment.go: the choice between a direct connection and the outer
  proxy named by the environment, and the CONNECT handshake with an HTTP proxy.  Outside
  the repository, and parameters here: \<open>url.Parse\<close>, the NO_PROXY evaluation of
  golang.org/x/net/http/httpproxy, the SOCKS dialer of golang.org/x/net/proxy, and the
  operations on connections (record \<open>net_ops\<close>), which act on the outside world \<open>'w\<close>.
\<close>

section \<open>The environment\<close>

fun environment_from :: "(string \<rightharpoonup> string) \<Rightarrow> string list \<Rightarrow> (string \<rightharpoonup> string)" where
  "environment_from values [] = values"
| "environment_from values (entry # env) =
     (case Cut entry CHR ''='' of
        (name, value, found) \<Rightarrow>
          environment_from (if found then values(name \<mapsto> value) else values) env)"

definition environmentMap :: "string list \<Rightarrow> (string \<rightharpoonup> string)" where
  "environmentMap env = environment_from Map.empty env"

text \<open>A missing key of a Go map reads as the empty string.\<close>

fun firstEnvironment :: "(string \<rightharpoonup> string) \<Rightarrow> string list \<Rightarrow> string" where
  "firstEnvironment values [] = []"
| "firstEnvironment values (name # names) =
     (case values name of
        Some value \<Rightarrow> if value \<noteq> [] then value else firstEnvironment values names
      | None \<Rightarrow> firstEnvironment values names)"

definition proxy_names :: "string list" where
  "proxy_names = [''HTTPS_PROXY'', ''https_proxy'', ''HTTP_PROXY'', ''http_proxy'', ''ALL_PROXY'', ''all_proxy'']"

section \<open>The proxy URL\<close>

datatype env_error =
    ProxyParse
  | ProxyParts
  | ProxyScheme string
  | NoProxyEvaluation string
  | DirectDial string
  | SocksConfigure string
  | SocksNoContext
  | SocksDial string
  | ProxyDial string
  | SetDeadline string
  | TlsHandshake string
  | WriteConnect string
  | ReadConnect string
  | HeaderTooLong
  | ParseConnect string
  | ConnectStatus nat
  | CloseBody string
  | ClearDeadline string

definition known_schemes :: "string list" where
  "known_schemes = [''http'', ''https'', ''socks5'', ''socks5h'']"

definition parseProxyURL ::
  "text_lib \<Rightarrow> (string \<Rightarrow> url option) \<Rightarrow> string \<Rightarrow> (env_error, url option) result" where
  "parseProxyURL tx parse raw =
     (if raw = [] then Ok None
      else
        let raw = (if \<not> ContainsStr raw ''://'' then ''http://'' @ raw else raw) in
        case parse raw of
          None \<Rightarrow> Err ProxyParse
        | Some u \<Rightarrow>
            if url_host u = [] \<or> url_path u \<noteq> [] \<and> url_path u \<noteq> ''/'' \<or>
               url_query u \<noteq> [] \<or> url_fragment u \<noteq> [] then Err ProxyParts
            else if ToLower (uni_lower tx) (url_scheme u) \<in> set known_schemes then Ok (Some u)
            else Err (ProxyScheme (url_scheme u)))"

text \<open>
  The router: the proxy URL and the NO_PROXY function, which for a host with port returns
  whether a proxy is selected (a non-nil URL), or an error.
\<close>

record router =
  proxy_url :: "url option"
  bypass :: "string \<Rightarrow> (string, bool) result"

definition NewEnvironmentRouter ::
  "text_lib \<Rightarrow> (string \<Rightarrow> url option) \<Rightarrow> (string \<Rightarrow> string \<Rightarrow> (string, bool) result) \<Rightarrow>
   string list \<Rightarrow> (env_error, router) result" where
  "NewEnvironmentRouter tx parse proxy_func env =
     (let values = environmentMap env in
      rbind (parseProxyURL tx parse (firstEnvironment values proxy_names)) (\<lambda>u.
        Ok \<lparr>proxy_url = u,
            bypass = proxy_func (firstEnvironment values [''NO_PROXY'', ''no_proxy''])\<rparr>))"

section \<open>Reading the CONNECT response header\<close>

text \<open>
  One call of \<open>Read\<close> with a one-byte buffer: an error (also when a byte comes with it),
  nothing, or a byte.
\<close>

datatype read_result = ReadErr string | ReadNone | ReadByte char

definition maxConnectHeaderSize :: nat where
  "maxConnectHeaderSize = 16 * 1024"

definition header_end :: string where
  "header_end = [char_of (13::nat), char_of (10::nat), char_of (13::nat), char_of (10::nat)]"

text \<open>
  The loop has no bound on the reads that return nothing, so it may not return: \<open>None\<close>.
\<close>

partial_function (option) read_header ::
  "('w \<Rightarrow> read_result \<times> 'w) \<Rightarrow> string \<Rightarrow> 'w \<Rightarrow> ((env_error, string) result \<times> 'w) option" where
  "read_header rd header w =
     (if length header < maxConnectHeaderSize then
        (case rd w of (r, w) \<Rightarrow>
          (case r of
             ReadErr e \<Rightarrow> Some (Err (ReadConnect e), w)
           | ReadNone \<Rightarrow> read_header rd header w
           | ReadByte c \<Rightarrow>
               (if 4 \<le> length (header @ [c]) \<and> HasSuffix (header @ [c]) header_end
                then Some (Ok (header @ [c]), w)
                else read_header rd (header @ [c]) w)))
      else Some (Err HeaderTooLong, w))"

declare read_header.simps [code]

definition readConnectHeader ::
  "('w \<Rightarrow> read_result \<times> 'w) \<Rightarrow> 'w \<Rightarrow> ((env_error, string) result \<times> 'w) option" where
  "readConnectHeader rd w = read_header rd [] w"

section \<open>What the header reader returns\<close>

text \<open>The bytes a reader gives, up to the last one of them and nothing after it.\<close>

inductive reads_exactly :: "('w \<Rightarrow> read_result \<times> 'w) \<Rightarrow> 'w \<Rightarrow> string \<Rightarrow> 'w \<Rightarrow> bool" for rd where
  exactly_last: "rd w = (ReadByte c, w1) \<Longrightarrow> reads_exactly rd w [c] w1"
| exactly_none: "rd w = (ReadNone, w1) \<Longrightarrow> reads_exactly rd w1 cs w2 \<Longrightarrow> reads_exactly rd w cs w2"
| exactly_byte: "rd w = (ReadByte c, w1) \<Longrightarrow> reads_exactly rd w1 cs w2 \<Longrightarrow> reads_exactly rd w (c # cs) w2"

lemma reads_exactly_nonempty: "reads_exactly rd w cs w' \<Longrightarrow> cs \<noteq> []"
  by (induction rule: reads_exactly.induct) simp_all

definition ends_header :: "string \<Rightarrow> bool" where
  "ends_header h \<longleftrightarrow> HasSuffix h header_end"

text \<open>
  A complete header, seen from a part \<open>h\<close> of it: it ends with the blank line, no shorter part
  after \<open>h\<close> does, and it fits.
\<close>

definition completes :: "string \<Rightarrow> string \<Rightarrow> bool" where
  "completes h cs \<longleftrightarrow> ends_header (h @ cs) \<and> length (h @ cs) \<le> maxConnectHeaderSize \<and>
     (\<forall>k \<in> {0<..<length cs}. \<not> ends_header (h @ take k cs))"

lemma ends_header_length: "ends_header h \<Longrightarrow> 4 \<le> length h"
  by (simp add: ends_header_def HasSuffix_def header_end_def)

lemma read_header_step:
  "read_header rd h w =
     (if length h < maxConnectHeaderSize then
        (case rd w of
           (ReadErr e, w) \<Rightarrow> Some (Err (ReadConnect e), w)
         | (ReadNone, w) \<Rightarrow> read_header rd h w
         | (ReadByte c, w) \<Rightarrow>
             if ends_header (h @ [c]) then Some (Ok (h @ [c]), w) else read_header rd (h @ [c]) w)
      else Some (Err HeaderTooLong, w))"
proof -
  have "4 \<le> length (h @ [c]) \<and> HasSuffix (h @ [c]) header_end \<longleftrightarrow> ends_header (h @ [c])" for c
    using ends_header_length [of "h @ [c]"] by (auto simp: ends_header_def)
  then show ?thesis
    by (subst read_header.simps) (simp split: prod.splits read_result.splits)
qed

text \<open>Induction over a run that returns.\<close>

lemma read_header_run [consumes 1, case_names long err none last byte]:
  assumes "read_header rd h w = Some (r, w')"
    and "\<And>h w. \<not> length h < maxConnectHeaderSize \<Longrightarrow> P h w (Err HeaderTooLong) w"
    and "\<And>h w e w'. length h < maxConnectHeaderSize \<Longrightarrow> rd w = (ReadErr e, w') \<Longrightarrow>
           P h w (Err (ReadConnect e)) w'"
    and "\<And>h w w1 r w'. length h < maxConnectHeaderSize \<Longrightarrow> rd w = (ReadNone, w1) \<Longrightarrow>
           P h w1 r w' \<Longrightarrow> P h w r w'"
    and "\<And>h w c w'. length h < maxConnectHeaderSize \<Longrightarrow> rd w = (ReadByte c, w') \<Longrightarrow>
           ends_header (h @ [c]) \<Longrightarrow> P h w (Ok (h @ [c])) w'"
    and "\<And>h w c w1 r w'. length h < maxConnectHeaderSize \<Longrightarrow> rd w = (ReadByte c, w1) \<Longrightarrow>
           \<not> ends_header (h @ [c]) \<Longrightarrow> P (h @ [c]) w1 r w' \<Longrightarrow> P h w r w'"
  shows "P h w r w'"
proof -
  let ?Q = "\<lambda>rd' h w y. rd' = rd \<longrightarrow> P h w (fst y) (snd y)"
  have suffix: "4 \<le> length (h @ [c]) \<and> HasSuffix (h @ [c]) header_end \<longleftrightarrow> ends_header (h @ [c])"
    for h c
    using ends_header_length [of "h @ [c]"] by (auto simp: ends_header_def)
  have "?Q rd h w (r, w')"
  proof (rule read_header.raw_induct [of ?Q, OF _ assms(1)])
    fix rh :: "('a \<Rightarrow> read_result \<times> 'a) \<Rightarrow> string \<Rightarrow> 'a \<Rightarrow> ((env_error, string) result \<times> 'a) option"
      and rd' h w y
    assume IH: "\<And>rd' h w y. rh rd' h w = Some y \<Longrightarrow> ?Q rd' h w y"
      and body: "(if length h < maxConnectHeaderSize then
          (case rd' w of (r, w) \<Rightarrow>
            (case r of
               ReadErr e \<Rightarrow> Some (Err (ReadConnect e), w)
             | ReadNone \<Rightarrow> rh rd' h w
             | ReadByte c \<Rightarrow>
                 (if 4 \<le> length (h @ [c]) \<and> HasSuffix (h @ [c]) header_end
                  then Some (Ok (h @ [c]), w) else rh rd' (h @ [c]) w)))
        else Some (Err HeaderTooLong, w)) = Some y"
    show "?Q rd' h w y"
      using body unfolding suffix
      by (auto split: if_splits read_result.splits prod.splits dest!: IH intro: assms)
  qed
  then show ?thesis by simp
qed

lemma read_header_complete:
  "reads_exactly rd w cs w' \<Longrightarrow> completes h cs \<Longrightarrow> read_header rd h w = Some (Ok (h @ cs), w')"
proof (induction arbitrary: h rule: reads_exactly.induct)
  case (exactly_last w c w1)
  then show ?case by (simp add: read_header_step [of rd h w] completes_def)
next
  case (exactly_none w w1 cs w2)
  have "cs \<noteq> []" by (rule reads_exactly_nonempty [OF exactly_none(2)])
  with exactly_none show ?case
    by (cases cs) (auto simp: read_header_step [of rd h w] completes_def)
next
  case (exactly_byte w c w1 cs w2)
  have "cs \<noteq> []" by (rule reads_exactly_nonempty [OF exactly_byte(2)])
  moreover have "\<not> ends_header (h @ take 1 (c # cs))"
    using exactly_byte(4) \<open>cs \<noteq> []\<close> unfolding completes_def by force
  moreover have "completes (h @ [c]) cs"
    unfolding completes_def
  proof (intro conjI ballI)
    fix k assume "k \<in> {0<..<length cs}"
    then have "Suc k \<in> {0<..<length (c # cs)}" by simp
    then have "\<not> ends_header (h @ take (Suc k) (c # cs))"
      using exactly_byte(4) unfolding completes_def by blast
    then show "\<not> ends_header ((h @ [c]) @ take k cs)" by simp
  qed (use exactly_byte(4) in \<open>simp_all add: completes_def\<close>)
  ultimately show ?case
    using exactly_byte by (cases cs) (auto simp: read_header_step [of rd h w] completes_def)
qed

lemma read_header_sound:
  "read_header rd h w = Some (r, w') \<Longrightarrow> r = Inr s \<Longrightarrow>
   \<exists>cs. s = h @ cs \<and> reads_exactly rd w cs w' \<and> completes h cs"
proof (induction rule: read_header_run)
  case (none h w w1 r w')
  then show ?case by (blast intro: exactly_none)
next
  case (last h w c w')
  then show ?case by (auto simp: completes_def intro: exactly_last)
next
  case (byte h w c w1 r w')
  then obtain cs where cs: "s = (h @ [c]) @ cs" "reads_exactly rd w1 cs w'" "completes (h @ [c]) cs"
    by blast
  have "completes h (c # cs)"
    unfolding completes_def
  proof (intro conjI ballI)
    fix k assume "k \<in> {0<..<length (c # cs)}"
    then show "\<not> ends_header (h @ take k (c # cs))"
      using cs(3) byte(3) by (cases "k - 1") (auto simp: completes_def take_Cons split: nat.splits)
  qed (use cs(3) in \<open>simp_all add: completes_def\<close>)
  with cs byte show ?case by (auto intro: exactly_byte)
qed simp_all

lemma read_header_error:
  "read_header rd h w = Some (Inl e, w') \<Longrightarrow> e = HeaderTooLong \<or> (\<exists>m. e = ReadConnect m)"
proof -
  have "read_header rd h w = Some (r, w') \<Longrightarrow> r = Inl e \<Longrightarrow> e = HeaderTooLong \<or> (\<exists>m. e = ReadConnect m)" for r
    by (induction rule: read_header_run) auto
  then show "read_header rd h w = Some (Inl e, w') \<Longrightarrow> e = HeaderTooLong \<or> (\<exists>m. e = ReadConnect m)"
    by blast
qed

text \<open>A run whose reads do not return nothing for ever returns.\<close>

definition progresses :: "('w \<Rightarrow> read_result \<times> 'w) \<Rightarrow> bool" where
  "progresses rd \<longleftrightarrow> (\<forall>w. \<exists>k. fst (rd (((\<lambda>w. snd (rd w)) ^^ k) w)) \<noteq> ReadNone)"

lemma read_header_returns:
  assumes "progresses rd"
  shows "\<exists>y. read_header rd h w = Some y"
proof (induction "maxConnectHeaderSize - length h" arbitrary: h w rule: less_induct)
  case less
  have "fst (rd (((\<lambda>w. snd (rd w)) ^^ k) w)) \<noteq> ReadNone \<Longrightarrow> \<exists>y. read_header rd h w = Some y" for k w
  proof (induction k arbitrary: w)
    case 0
    obtain r w1 where rd: "rd w = (r, w1)" by (cases "rd w")
    have "length h < maxConnectHeaderSize \<Longrightarrow> \<exists>y. read_header rd (h @ [c]) w1 = Some y" for c
      by (rule less) simp
    with 0 rd show ?case by (cases r) (simp_all add: read_header_step [of rd h w])
  next
    case (Suc k)
    obtain r w1 where rd: "rd w = (r, w1)" by (cases "rd w")
    have next_byte: "length h < maxConnectHeaderSize \<Longrightarrow> \<exists>y. read_header rd (h @ [c]) w1 = Some y" for c
      by (rule less) simp
    have "\<exists>y. read_header rd h w1 = Some y"
      using Suc.prems by (intro Suc.IH) (simp add: rd funpow_Suc_right del: funpow.simps)
    with next_byte rd show ?case by (cases r) (simp_all add: read_header_step [of rd h w])
  qed
  with assms show ?case unfolding progresses_def by blast
qed

section \<open>What the environment gives\<close>

lemma environment_from_append:
  "environment_from m (xs @ ys) = environment_from (environment_from m xs) ys"
  by (induction xs arbitrary: m) (auto split: prod.splits)

lemma environmentMap_snoc:
  "CHR ''='' \<notin> set name \<Longrightarrow> environmentMap (env @ [name @ ''='' @ value]) = (environmentMap env)(name \<mapsto> value)"
  by (simp add: environmentMap_def environment_from_append Cut_def IndexByte_append)

lemma firstEnvironment_eq:
  "firstEnvironment values names =
     (case filter (\<lambda>v. v \<noteq> []) (map (\<lambda>n. case values n of Some v \<Rightarrow> v | None \<Rightarrow> []) names) of
        [] \<Rightarrow> [] | v # vs \<Rightarrow> v)"
  by (induction names) (auto split: option.splits)

lemma parseProxyURL_scheme:
  "parseProxyURL tx parse raw = Inr (Some u) \<Longrightarrow>
   ToLower (uni_lower tx) (url_scheme u) \<in> set known_schemes \<and> url_host u \<noteq> []"
  by (auto simp: parseProxyURL_def Let_def split: if_splits option.splits)

lemma parseProxyURL_none: "parseProxyURL tx parse raw = Inr None \<longleftrightarrow> raw = []"
  by (auto simp: parseProxyURL_def Let_def split: if_splits option.splits)

lemma parseProxyURL_empty: "parseProxyURL tx parse [] = Inr a \<Longrightarrow> a = None"
  by (simp add: parseProxyURL_def)

end
