(* ===== verification/Outer_Proxy.thy ===== *)
theory Outer_Proxy
  imports Environment
begin

text \<open>
  internal/outbound/environment.go: \<open>EnvironmentRouter.Dial\<close> and the two ways through the
  outer proxy.  \<open>net_ops\<close> holds the operations of packages net, crypto/tls, net/http and
  golang.org/x/net/proxy that the code calls; an operation with an effect takes and returns
  the outside world \<open>'w\<close>, and connections are of any type \<open>'c\<close>.
\<close>

section \<open>The operations called\<close>

record connect_request =
  cr_authority :: string
  cr_proxy_auth :: "string option"

text \<open>
  \<open>tls_handshake c name\<close> is \<open>tls.Client\<close> on \<open>c\<close> with the server name (none for an IP
  literal) followed by \<open>HandshakeContext\<close>; \<open>parse_response\<close> is \<open>http.ReadResponse\<close> on the
  header and gives the status code and the result of closing the body; \<open>socks_from_url\<close> is
  \<open>proxy.FromURL\<close> and gives whether the dialer is a \<open>ContextDialer\<close>, and its \<open>DialContext\<close>.
\<close>

record ('w, 'c) net_ops =
  tcp_dial :: "string \<Rightarrow> 'w \<Rightarrow> (string, 'c) result \<times> 'w"
  set_deadline :: "'c \<Rightarrow> 'w \<Rightarrow> string option \<times> 'w"
  clear_deadline :: "'c \<Rightarrow> 'w \<Rightarrow> string option \<times> 'w"
  tls_handshake :: "'c \<Rightarrow> string \<Rightarrow> 'w \<Rightarrow> (string, 'c) result \<times> 'w"
  write_request :: "'c \<Rightarrow> connect_request \<Rightarrow> 'w \<Rightarrow> string option \<times> 'w"
  read_byte :: "'c \<Rightarrow> 'w \<Rightarrow> read_result \<times> 'w"
  parse_response :: "string \<Rightarrow> (string, nat \<times> string option) result"
  close_conn :: "'c \<Rightarrow> 'w \<Rightarrow> 'w"
  socks_from_url :: "url \<Rightarrow> (string, bool \<times> (string \<Rightarrow> 'w \<Rightarrow> (string, 'c) result \<times> 'w)) result"

definition authority :: "addr \<Rightarrow> 16 word \<Rightarrow> string" where
  "authority address port = JoinHostPort (addr_string address) (Itoa (unat port))"

text \<open>\<open>net.ParseIP\<close>, as far as the code looks at it: whether the text is an IP without a zone.\<close>

definition ParseIP_ok :: "string \<Rightarrow> bool" where
  "ParseIP_ok s = (case ParseAddr s of Inl _ \<Rightarrow> False | Inr a \<Rightarrow> Zone a = [])"

definition proxyHTTPScheme :: string where
  "proxyHTTPScheme = ''https''"

definition is_https :: "text_lib \<Rightarrow> url \<Rightarrow> bool" where
  "is_https tx u = EqualFold (uni_fold tx) (url_scheme u) proxyHTTPScheme"

definition proxy_address :: "text_lib \<Rightarrow> url \<Rightarrow> string" where
  "proxy_address tx u =
     JoinHostPort (url_hostname u)
       (if url_port u = [] then (if is_https tx u then ''443'' else ''80'') else url_port u)"

definition connect_auth :: "url \<Rightarrow> string option" where
  "connect_auth u =
     map_option (\<lambda>(name, password).
       ''Basic '' @ StdEncoding (name @ '':'' @ (case password of None \<Rightarrow> [] | Some p \<Rightarrow> p)))
       (url_user u)"

section \<open>Through an HTTP proxy\<close>

text \<open>
  The deferred function closes the current connection unless \<open>keepConnection\<close> was set: each
  early return below goes through \<open>give_up\<close>.  The deadline is always there, because the
  context comes from \<open>context.WithTimeout\<close>.
\<close>

type_synonym ('w, 'c) handshake = "((env_error, 'c) result \<times> 'w) option"

definition give_up :: "('w, 'c) net_ops \<Rightarrow> 'c \<Rightarrow> env_error \<Rightarrow> 'w \<Rightarrow> ('w, 'c) handshake" where
  "give_up ops c e w = Some (Err e, close_conn ops c w)"

definition check_response ::
  "('w, 'c) net_ops \<Rightarrow> 'c \<Rightarrow> string \<Rightarrow> 'w \<Rightarrow> ('w, 'c) handshake" where
  "check_response ops c header w =
     (case parse_response ops header of
        Inl e \<Rightarrow> give_up ops c (ParseConnect e) w
      | Inr (status, body_close) \<Rightarrow>
          if status < 200 \<or> 300 \<le> status then give_up ops c (ConnectStatus status) w
          else
            (case body_close of
               Some e \<Rightarrow> give_up ops c (CloseBody e) w
             | None \<Rightarrow>
                 (case clear_deadline ops c w of
                    (Some e, w) \<Rightarrow> give_up ops c (ClearDeadline e) w
                  | (None, w) \<Rightarrow> Some (Ok c, w))))"

definition send_connect ::
  "('w, 'c) net_ops \<Rightarrow> url \<Rightarrow> addr \<Rightarrow> 16 word \<Rightarrow> 'c \<Rightarrow> 'w \<Rightarrow> ('w, 'c) handshake" where
  "send_connect ops u address port c w =
     (case write_request ops c
         \<lparr>cr_authority = authority address port, cr_proxy_auth = connect_auth u\<rparr> w of
        (Some e, w) \<Rightarrow> give_up ops c (WriteConnect e) w
      | (None, w) \<Rightarrow>
          (case readConnectHeader (read_byte ops c) w of
             None \<Rightarrow> None
           | Some (Inl e, w) \<Rightarrow> give_up ops c e w
           | Some (Inr header, w) \<Rightarrow> check_response ops c header w))"

definition dialHTTPProxy ::
  "text_lib \<Rightarrow> ('w, 'c) net_ops \<Rightarrow> url \<Rightarrow> addr \<Rightarrow> 16 word \<Rightarrow> 'w \<Rightarrow> ('w, 'c) handshake" where
  "dialHTTPProxy tx ops u address port w =
     (case tcp_dial ops (proxy_address tx u) w of
        (Inl e, w) \<Rightarrow> Some (Err (ProxyDial e), w)
      | (Inr c, w) \<Rightarrow>
          (case set_deadline ops c w of
             (Some e, w) \<Rightarrow> give_up ops c (SetDeadline e) w
           | (None, w) \<Rightarrow>
               if is_https tx u then
                 (case tls_handshake ops c
                     (if ParseIP_ok (url_hostname u) then [] else url_hostname u) w of
                    (Inl e, w) \<Rightarrow> give_up ops c (TlsHandshake e) w
                  | (Inr t, w) \<Rightarrow> send_connect ops u address port t w)
               else send_connect ops u address port c w))"

section \<open>Through a SOCKS proxy, and the choice\<close>

definition dialSOCKSProxy ::
  "('w, 'c) net_ops \<Rightarrow> url \<Rightarrow> addr \<Rightarrow> 16 word \<Rightarrow> 'w \<Rightarrow> (env_error, 'c) result \<times> 'w" where
  "dialSOCKSProxy ops u address port w =
     (case socks_from_url ops u of
        Inl e \<Rightarrow> (Err (SocksConfigure e), w)
      | Inr (contextual, dial) \<Rightarrow>
          if \<not> contextual then (Err SocksNoContext, w)
          else (case dial (authority address port) w of (r, w) \<Rightarrow> (rmap_err SocksDial r, w)))"

definition dial_direct ::
  "('w, 'c) net_ops \<Rightarrow> addr \<Rightarrow> 16 word \<Rightarrow> 'w \<Rightarrow> ('w, 'c) handshake" where
  "dial_direct ops address port w =
     (case tcp_dial ops (authority address port) w of (r, w) \<Rightarrow> Some (rmap_err DirectDial r, w))"

text \<open>The host that NO_PROXY is asked about: the hostname where there is one.\<close>

definition selection_host :: "string \<Rightarrow> addr \<Rightarrow> 16 word \<Rightarrow> string" where
  "selection_host hostname address port =
     JoinHostPort (if hostname = [] then addr_string address else hostname) (Itoa (unat port))"

definition RouterDial ::
  "text_lib \<Rightarrow> ('w, 'c) net_ops \<Rightarrow> router \<Rightarrow> string \<Rightarrow> addr \<Rightarrow> 16 word \<Rightarrow> 'w \<Rightarrow> ('w, 'c) handshake" where
  "RouterDial tx ops router hostname address port w =
     (if Zone address \<noteq> [] then dial_direct ops address port w
      else
        (case bypass router (selection_host hostname address port) of
           Inl e \<Rightarrow> Some (Err (NoProxyEvaluation e), w)
         | Inr selected \<Rightarrow>
             (case proxy_url router of
                None \<Rightarrow> dial_direct ops address port w
              | Some u \<Rightarrow>
                  if \<not> selected then dial_direct ops address port w
                  else
                    let scheme = ToLower (uni_lower tx) (url_scheme u) in
                    if scheme \<in> {''http'', ''https''} then dialHTTPProxy tx ops u address port w
                    else if scheme \<in> {''socks5'', ''socks5h''}
                    then Some (dialSOCKSProxy ops u address port w)
                    else Some (Err (ProxyScheme (url_scheme u)), w))))"

section \<open>Ownership of connections\<close>

text \<open>
  What the operations promise about open connections, seen through \<open>opens\<close>: a dial opens a
  fresh connection or none, the TLS client takes over the connection it wraps, closing
  removes it, and nothing else opens or closes one.
\<close>

definition opens_one :: "('w \<Rightarrow> 'c set) \<Rightarrow> 'w \<Rightarrow> ('e, 'c) result \<times> 'w \<Rightarrow> bool" where
  "opens_one opens w y \<longleftrightarrow>
     (case y of
        (Inl e, w') \<Rightarrow> opens w' = opens w
      | (Inr c, w') \<Rightarrow> c \<notin> opens w \<and> opens w' = insert c (opens w))"

definition conn_laws :: "('w, 'c) net_ops \<Rightarrow> ('w \<Rightarrow> 'c set) \<Rightarrow> bool" where
  "conn_laws ops opens \<longleftrightarrow>
     (\<forall>a w. opens_one opens w (tcp_dial ops a w)) \<and>
     (\<forall>u contextual dial a w. socks_from_url ops u = Inr (contextual, dial) \<longrightarrow>
        opens_one opens w (dial a w)) \<and>
     (\<forall>c n w. case tls_handshake ops c n w of
        (Inl e, w') \<Rightarrow> opens w' - {c} = opens w - {c}
      | (Inr t, w') \<Rightarrow> t \<notin> opens w - {c} \<and> opens w' = insert t (opens w - {c})) \<and>
     (\<forall>c w. opens (close_conn ops c w) = opens w - {c}) \<and>
     (\<forall>c w. opens (snd (set_deadline ops c w)) = opens w) \<and>
     (\<forall>c w. opens (snd (clear_deadline ops c w)) = opens w) \<and>
     (\<forall>c q w. opens (snd (write_request ops c q w)) = opens w) \<and>
     (\<forall>c w. opens (snd (read_byte ops c w)) = opens w)"

lemma conn_lawsD:
  assumes "conn_laws ops opens"
  shows "opens_one opens w (tcp_dial ops a w)"
    and "socks_from_url ops u = Inr (contextual, dial) \<Longrightarrow> opens_one opens w (dial a w)"
    and "tls_handshake ops c n w = (Inl e, w') \<Longrightarrow> opens w' - {c} = opens w - {c}"
    and "tls_handshake ops c n w = (Inr t, w') \<Longrightarrow>
      t \<notin> opens w - {c} \<and> opens w' = insert t (opens w - {c})"
    and "opens (close_conn ops c w) = opens w - {c}"
    and "set_deadline ops c w = (x, w') \<Longrightarrow> opens w' = opens w"
    and "clear_deadline ops c w = (x, w') \<Longrightarrow> opens w' = opens w"
    and "write_request ops c q w = (x, w') \<Longrightarrow> opens w' = opens w"
    and "read_byte ops c w = (b, w') \<Longrightarrow> opens w' = opens w"
proof -
  show "tls_handshake ops c n w = (Inl e, w') \<Longrightarrow> opens w' - {c} = opens w - {c}"
    using assms unfolding conn_laws_def by (auto dest!: spec [of _ c] spec [of _ n] spec [of _ w])
  show "tls_handshake ops c n w = (Inr t, w') \<Longrightarrow>
      t \<notin> opens w - {c} \<and> opens w' = insert t (opens w - {c})"
    using assms unfolding conn_laws_def by (auto dest!: spec [of _ c] spec [of _ n] spec [of _ w])
qed (use assms in \<open>unfold conn_laws_def, (metis snd_conv)+\<close>)

text \<open>The connection held is closed on an error, and is the one returned otherwise.\<close>

definition hands_over :: "('w \<Rightarrow> 'c set) \<Rightarrow> 'c set \<Rightarrow> ('e, 'c) result \<Rightarrow> 'w \<Rightarrow> bool" where
  "hands_over opens before r w \<longleftrightarrow>
     (case r of
        Inl e \<Rightarrow> opens w = before
      | Inr c \<Rightarrow> c \<notin> before \<and> opens w = insert c before)"

lemma hands_over_simps [simp]:
  "hands_over opens before (Inl e) w \<longleftrightarrow> opens w = before"
  "hands_over opens before (Inr c) w \<longleftrightarrow> c \<notin> before \<and> opens w = insert c before"
  by (simp_all add: hands_over_def)

lemma read_header_opens:
  "read_header (read_byte ops c) h w = Some (r, w') \<Longrightarrow> conn_laws ops opens \<Longrightarrow> opens w' = opens w"
  by (induction rule: read_header_run) (simp_all add: conn_lawsD(9))

lemma check_response_hands_over:
  assumes "conn_laws ops opens" "check_response ops c header w = Some (r, w')"
    and "c \<notin> before" "opens w = insert c before"
  shows "hands_over opens before r w'"
  using assms(2-) conn_lawsD(5,7) [OF assms(1)]
  by (auto simp: check_response_def give_up_def
      split: sum.splits prod.splits if_splits option.splits)

lemma send_connect_hands_over:
  assumes "conn_laws ops opens" "send_connect ops u a n c w = Some (r, w')"
    and "c \<notin> before" "opens w = insert c before"
  shows "hands_over opens before r w'"
proof -
  obtain x w1 where wr: "write_request ops c
      \<lparr>cr_authority = authority a n, cr_proxy_auth = connect_auth u\<rparr> w = (x, w1)"
    by (metis surj_pair)
  have w1: "opens w1 = insert c before" using conn_lawsD(8) [OF assms(1) wr] assms(4) by simp
  show ?thesis
  proof (cases x)
    case (Some e)
    with wr w1 assms(2,3) show ?thesis
      by (auto simp: send_connect_def give_up_def conn_lawsD(5) [OF assms(1)])
  next
    case None
    then obtain y w2 where rd: "read_header (read_byte ops c) [] w1 = Some (y, w2)"
      using wr assms(2) by (auto simp: send_connect_def readConnectHeader_def split: option.splits)
    have w2: "opens w2 = insert c before" using read_header_opens [OF rd assms(1)] w1 by simp
    show ?thesis
    proof (cases y)
      case (Inl e)
      with rd wr w2 None assms(2,3) show ?thesis
        by (auto simp: send_connect_def readConnectHeader_def give_up_def conn_lawsD(5) [OF assms(1)])
    next
      case (Inr header)
      with rd wr None assms(2) have "check_response ops c header w2 = Some (r, w')"
        by (simp add: send_connect_def readConnectHeader_def)
      from check_response_hands_over [OF assms(1) this assms(3) w2] show ?thesis .
    qed
  qed
qed

lemma dialHTTPProxy_hands_over:
  assumes "conn_laws ops opens" "dialHTTPProxy tx ops u a n w = Some (r, w')"
  shows "hands_over opens (opens w) r w'"
proof -
  obtain x w1 where dial: "tcp_dial ops (proxy_address tx u) w = (x, w1)"
    by (cases "tcp_dial ops (proxy_address tx u) w")
  note dialed = conn_lawsD(1) [OF assms(1), of w "proxy_address tx u"]
  show ?thesis
  proof (cases x)
    case (Inl e)
    with dial dialed assms(2) show ?thesis
      by (auto simp: dialHTTPProxy_def opens_one_def)
  next
    case (Inr c)
    with dial dialed have c: "c \<notin> opens w" "opens w1 = insert c (opens w)"
      by (simp_all add: opens_one_def)
    obtain y w2 where deadline: "set_deadline ops c w1 = (y, w2)" by (cases "set_deadline ops c w1")
    have w2: "opens w2 = insert c (opens w)" using conn_lawsD(6) [OF assms(1) deadline] c by simp
    let ?name = "if ParseIP_ok (url_hostname u) then [] else url_hostname u"
    obtain z w3 where tls: "tls_handshake ops c ?name w2 = (z, w3)" by (metis surj_pair)
    note rest = assms(2) [unfolded dialHTTPProxy_def dial Inr, simplified, unfolded deadline, simplified]
    consider (deadline) e where "y = Some e" | (plain) "y = None" "\<not> is_https tx u"
      | (refused) e where "y = None" "is_https tx u" "z = Inl e"
      | (secure) t where "y = None" "is_https tx u" "z = Inr t"
      by (cases y; cases z) auto
    then show ?thesis
    proof cases
      case deadline
      with rest c w2 show ?thesis by (auto simp: give_up_def conn_lawsD(5) [OF assms(1)])
    next
      case plain
      with rest show ?thesis by (auto intro: send_connect_hands_over [OF assms(1) _ c(1) w2])
    next
      case refused
      with rest tls have "r = Err (TlsHandshake e)" "w' = close_conn ops c w3"
        by (simp_all add: give_up_def)
      moreover have "opens w3 - {c} = opens w2 - {c}"
        using conn_lawsD(3) [OF assms(1)] tls refused by blast
      ultimately show ?thesis using c w2 by (simp add: conn_lawsD(5) [OF assms(1)])
    next
      case secure
      with tls have t: "t \<notin> opens w" "opens w3 = insert t (opens w)"
        using conn_lawsD(4) [OF assms(1), of c ?name w2 t w3] w2 c by auto
      from rest secure tls have "send_connect ops u a n t w3 = Some (r, w')" by simp
      from send_connect_hands_over [OF assms(1) this t] show ?thesis .
    qed
  qed
qed

lemma RouterDial_hands_over:
  assumes "conn_laws ops opens" "RouterDial tx ops router h a n w = Some (r, w')"
  shows "hands_over opens (opens w) r w'"
proof -
  have direct: "hands_over opens (opens w) r w'" if "dial_direct ops a n w = Some (r, w')"
    using that conn_lawsD(1) [OF assms(1), of w "authority a n"]
    by (auto simp: dial_direct_def opens_one_def split: prod.splits sum.splits)
  have socks: "hands_over opens (opens w) r w'" if "dialSOCKSProxy ops u a n w = (r, w')" for u
    using that conn_lawsD(2) [OF assms(1), of u _ _ w "authority a n"]
    by (auto simp: dialSOCKSProxy_def opens_one_def
        split: prod.splits sum.splits if_splits)
  show ?thesis
    using assms(2)
    by (auto simp: RouterDial_def Let_def
        split: if_splits sum.splits option.splits
        intro: direct socks dialHTTPProxy_hands_over [OF assms(1)])
qed

section \<open>What reaches the network\<close>

text \<open>
  A run of network operations that dials only addresses in \<open>A\<close> and asks the outer proxy only for
  authorities in \<open>Q\<close>.  The outer proxy is the one of the URL \<open>proxy\<close>: a SOCKS dialer is made from
  that URL, a CONNECT request carries its credentials, and TLS is spoken in its name; without a URL
  there is none of them.
\<close>

inductive net_run ::
  "('w, 'c) net_ops \<Rightarrow> url option \<Rightarrow> string set \<Rightarrow> string set \<Rightarrow> 'w \<Rightarrow> 'w \<Rightarrow> bool"
  for ops proxy A Q w where
  run_start: "net_run ops proxy A Q w w"
| run_dial: "net_run ops proxy A Q w w1 \<Longrightarrow> a \<in> A \<Longrightarrow> tcp_dial ops a w1 = (r, w2) \<Longrightarrow>
    net_run ops proxy A Q w w2"
| run_socks: "net_run ops proxy A Q w w1 \<Longrightarrow> proxy = Some u \<Longrightarrow> socks_from_url ops u = Inr (b, dial) \<Longrightarrow>
    a \<in> Q \<Longrightarrow> dial a w1 = (r, w2) \<Longrightarrow> net_run ops proxy A Q w w2"
| run_request: "net_run ops proxy A Q w w1 \<Longrightarrow> proxy = Some u \<Longrightarrow> a \<in> Q \<Longrightarrow>
    write_request ops c \<lparr>cr_authority = a, cr_proxy_auth = connect_auth u\<rparr> w1 = (e, w2) \<Longrightarrow>
    net_run ops proxy A Q w w2"
| run_tls: "net_run ops proxy A Q w w1 \<Longrightarrow> proxy = Some u \<Longrightarrow>
    tls_handshake ops c (if ParseIP_ok (url_hostname u) then [] else url_hostname u) w1 = (t, w2) \<Longrightarrow>
    net_run ops proxy A Q w w2"
| run_deadline: "net_run ops proxy A Q w w1 \<Longrightarrow> set_deadline ops c w1 = (e, w2) \<Longrightarrow>
    net_run ops proxy A Q w w2"
| run_clear: "net_run ops proxy A Q w w1 \<Longrightarrow> clear_deadline ops c w1 = (e, w2) \<Longrightarrow>
    net_run ops proxy A Q w w2"
| run_read: "net_run ops proxy A Q w w1 \<Longrightarrow> read_byte ops c w1 = (b, w2) \<Longrightarrow> net_run ops proxy A Q w w2"
| run_close: "net_run ops proxy A Q w w1 \<Longrightarrow> net_run ops proxy A Q w (close_conn ops c w1)"

text \<open>The proxy that the router uses for a target, if it uses one.\<close>

definition chosen_proxy :: "router \<Rightarrow> string \<Rightarrow> addr \<Rightarrow> 16 word \<Rightarrow> url option" where
  "chosen_proxy router h a n =
     (if Zone a = [] \<and> bypass router (selection_host h a n) = Ok True then proxy_url router else None)"

text \<open>A run for one target: straight to it, or to the proxy and there for it.\<close>

definition target_run ::
  "text_lib \<Rightarrow> ('w, 'c) net_ops \<Rightarrow> url option \<Rightarrow> string \<Rightarrow> 'w \<Rightarrow> 'w \<Rightarrow> bool" where
  "target_run tx ops proxy target =
     (case proxy of
        None \<Rightarrow> net_run ops None {target} {}
      | Some u \<Rightarrow> net_run ops (Some u) {proxy_address tx u} {target})"

lemma read_header_run_net:
  "read_header (read_byte ops c) h w = Some (r, w') \<Longrightarrow> net_run ops proxy A Q w0 w \<Longrightarrow>
   net_run ops proxy A Q w0 w'"
  by (induction rule: read_header_run) (blast intro: run_read)+

lemma check_response_net:
  "check_response ops c header w = Some (r, w') \<Longrightarrow> net_run ops proxy A Q w0 w \<Longrightarrow>
   net_run ops proxy A Q w0 w'"
  by (auto simp: check_response_def give_up_def split: sum.splits prod.splits if_splits option.splits
      intro: run_close run_clear)

lemma send_connect_net:
  assumes "send_connect ops u a n c w = Some (r, w')" "net_run ops (Some u) A Q w0 w" "authority a n \<in> Q"
  shows "net_run ops (Some u) A Q w0 w'"
proof -
  let ?q = "\<lparr>cr_authority = authority a n, cr_proxy_auth = connect_auth u\<rparr>"
  obtain x w1 where wr: "write_request ops c ?q w = (x, w1)" by (metis surj_pair)
  have w1: "net_run ops (Some u) A Q w0 w1" by (rule run_request [OF assms(2) refl assms(3) wr])
  from assms(1) wr w1 show ?thesis
    by (auto simp: send_connect_def give_up_def readConnectHeader_def
        split: option.splits sum.splits prod.splits
        intro: run_close read_header_run_net check_response_net)
qed

lemma dialHTTPProxy_net:
  assumes "dialHTTPProxy tx ops u a n w = Some (r, w')"
  shows "net_run ops (Some u) {proxy_address tx u} {authority a n} w w'"
proof -
  let ?R = "net_run ops (Some u) {proxy_address tx u} {authority a n} w"
  let ?name = "if ParseIP_ok (url_hostname u) then [] else url_hostname u"
  obtain x w1 where dial: "tcp_dial ops (proxy_address tx u) w = (x, w1)" by (metis surj_pair)
  have R1: "?R w1" by (rule run_dial [OF run_start _ dial]) simp
  show ?thesis
  proof (cases x)
    case (Inl e)
    with assms dial R1 show ?thesis by (simp add: dialHTTPProxy_def)
  next
    case (Inr c)
    obtain y w2 where deadline: "set_deadline ops c w1 = (y, w2)" by (metis surj_pair)
    obtain z w3 where tls: "tls_handshake ops c ?name w2 = (z, w3)" by (metis surj_pair)
    have R2: "?R w2" by (rule run_deadline [OF R1 deadline])
    have R3: "?R w3" by (rule run_tls [OF R2 refl tls])
    have send: "?R w'" if "send_connect ops u a n c v = Some (r, w')" "?R v" for c v
      by (rule send_connect_net [OF that]) simp
    note rest = assms [unfolded dialHTTPProxy_def dial Inr, simplified, unfolded deadline, simplified]
    show ?thesis
    proof (cases "y = None \<and> is_https tx u")
      case True
      with rest tls R3 show ?thesis by (cases z) (auto simp: give_up_def intro: run_close send)
    next
      case False
      with rest R2 show ?thesis
        by (auto simp: give_up_def split: option.splits intro: run_close send)
    qed
  qed
qed

lemma dial_direct_net:
  "dial_direct ops a n w = Some (r, w') \<Longrightarrow> net_run ops None {authority a n} {} w w'"
  by (auto simp: dial_direct_def split: prod.splits intro: run_dial [OF run_start])

lemma dialSOCKSProxy_net:
  "dialSOCKSProxy ops u a n w = (r, w') \<Longrightarrow> net_run ops (Some u) A {authority a n} w w'"
  by (auto simp: dialSOCKSProxy_def split: prod.splits sum.splits if_splits
      intro: run_start run_socks [OF run_start refl])

lemma RouterDial_net:
  assumes "RouterDial tx ops router h a n w = Some (r, w')"
  shows "target_run tx ops (chosen_proxy router h a n) (authority a n) w w'"
proof (cases "chosen_proxy router h a n")
  case None
  then have "(r, w') = (r, w) \<or> dial_direct ops a n w = Some (r, w')"
    using assms by (auto simp: RouterDial_def chosen_proxy_def split: if_splits sum.splits option.splits)
  with None show ?thesis by (auto simp: target_run_def intro: run_start dial_direct_net)
next
  case (Some u)
  then have u: "Zone a = []" "bypass router (selection_host h a n) = Ok True" "proxy_url router = Some u"
    by (auto simp: chosen_proxy_def split: if_splits)
  then have "w' = w \<or> dialHTTPProxy tx ops u a n w = Some (r, w') \<or> dialSOCKSProxy ops u a n w = (r, w')"
    using assms by (auto simp: RouterDial_def Let_def split: if_splits)
  with Some show ?thesis
    by (auto simp: target_run_def intro: run_start dialHTTPProxy_net dialSOCKSProxy_net)
qed

text \<open>A router built from the environment only selects schemes that are supported.\<close>

lemma NewEnvironmentRouter_scheme:
  "NewEnvironmentRouter tx parse pf env = Inr router \<Longrightarrow> proxy_url router = Some u \<Longrightarrow>
   ToLower (uni_lower tx) (url_scheme u) \<in> set known_schemes \<and> url_host u \<noteq> []"
  by (auto simp: NewEnvironmentRouter_def Let_def res_simps dest: parseProxyURL_scheme)

lemma NewEnvironmentRouter_none:
  "NewEnvironmentRouter tx parse pf env = Inr router \<Longrightarrow>
   proxy_url router = None \<longleftrightarrow> firstEnvironment (environmentMap env) proxy_names = []"
  by (auto simp: NewEnvironmentRouter_def Let_def res_simps parseProxyURL_none
      simp del: firstEnvironment.simps dest: parseProxyURL_empty)

lemma send_connect_not_scheme:
  "send_connect ops u a n c w = Some (Inl e, w') \<Longrightarrow> e \<noteq> ProxyScheme s"
  by (auto simp: send_connect_def check_response_def give_up_def readConnectHeader_def
      split: option.splits sum.splits prod.splits if_splits dest!: read_header_error)

lemma RouterDial_scheme:
  assumes "RouterDial tx ops router h a n w = Some (Inl (ProxyScheme s), w')"
  shows "\<exists>u. proxy_url router = Some u \<and> ToLower (uni_lower tx) (url_scheme u) \<notin> set known_schemes"
  using assms
  by (auto simp: RouterDial_def Let_def dial_direct_def dialSOCKSProxy_def dialHTTPProxy_def
      known_schemes_def give_up_def rmap_err_def
      split: if_splits sum.splits option.splits prod.splits dest: send_connect_not_scheme)

end
