(* ===== verification/Outer_Examples.thy ===== *)
theory Outer_Examples
  imports Outer_Proxy
begin

text \<open>
  A concrete network for the properties of the outer proxy: connections are numbers, the
  world records which are open and holds the bytes the proxy will send.
\<close>

record demo_world =
  dw_open :: "nat list"
  dw_input :: string

definition fresh_conn :: "demo_world \<Rightarrow> nat" where
  "fresh_conn w = Suc (sum_list (dw_open w))"

lemma fresh_conn: "fresh_conn w \<notin> set (dw_open w)"
  using member_le_sum_list [of "fresh_conn w" "dw_open w"] by (auto simp: fresh_conn_def)

definition demo_open :: "demo_world \<Rightarrow> (string, nat) result \<times> demo_world" where
  "demo_open w = (Ok (fresh_conn w), w\<lparr>dw_open := fresh_conn w # dw_open w\<rparr>)"

definition demo_read :: "demo_world \<Rightarrow> read_result \<times> demo_world" where
  "demo_read w =
     (case dw_input w of
        [] \<Rightarrow> (ReadErr ''EOF'', w)
      | c # cs \<Rightarrow> (ReadByte c, w\<lparr>dw_input := cs\<rparr>))"

definition demo_net :: "(demo_world, nat) net_ops" where
  "demo_net = \<lparr>
     tcp_dial = \<lambda>a w. if a = ''[fe80::1%25eth0]:1'' then (Err ''unreachable'', w) else demo_open w,
     set_deadline = \<lambda>c w. (None, w),
     clear_deadline = \<lambda>c w. (None, w),
     tls_handshake = \<lambda>c n w. (Ok c, w\<lparr>dw_open := c # removeAll c (dw_open w)\<rparr>),
     write_request = \<lambda>c q w. (None, w),
     read_byte = \<lambda>c. demo_read,
     parse_response = \<lambda>h. if HasPrefix h ''HTTP/1.1 200'' then Ok (200, None) else Ok (403, None),
     close_conn = \<lambda>c w. w\<lparr>dw_open := removeAll c (dw_open w)\<rparr>,
     socks_from_url = \<lambda>u. Ok (True, \<lambda>a. demo_open)\<rparr>"

lemma demo_net_laws: "conn_laws demo_net (\<lambda>w. set (dw_open w))"
  by (auto simp: conn_laws_def demo_net_def opens_one_def demo_open_def demo_read_def fresh_conn
      split: list.splits)

definition crlf :: string where
  "crlf = [char_of (13::nat), char_of (10::nat)]"

definition demo_refusal :: string where
  "demo_refusal = ''HTTP/1.1 403 Forbidden'' @ crlf @ crlf"

definition demo_url :: url where
  "demo_url = \<lparr>url_scheme = ''http'', url_user = Some (''user'', Some ''pass''),
     url_host = ''proxy.example:3128'', url_path = [], url_query = [], url_fragment = []\<rparr>"

definition demo_router :: router where
  "demo_router = \<lparr>proxy_url = Some demo_url, bypass = \<lambda>h. Ok True\<rparr>"

end
