(* ===== verification/Outer_Properties.thy ===== *)
theory Outer_Properties
  imports Outer_Examples "HOL-Library.Code_Target_Nat" Hostname
begin

text \<open>
  The properties of the outer proxy (internal/outbound/environment.go): what the CONNECT
  handshake reads, what reaches the network, who owns the connections, and what the
  environment variables select.
\<close>

section \<open>The CONNECT header\<close>

text \<open>
  C24: the header reader returns exactly the bytes up to and including the first blank line,
  if they are at most 16384, and has then read nothing beyond them: whatever follows stays for
  the tunnel.
\<close>

theorem readConnectHeader_exact:
  "readConnectHeader rd w = Some (Ok h, w') \<longleftrightarrow>
     reads_exactly rd w h w' \<and> HasSuffix h header_end \<and> length h \<le> 16384 \<and>
     (\<forall>k \<in> {0<..<length h}. \<not> HasSuffix (take k h) header_end)"
proof -
  have "maxConnectHeaderSize = 16384" by (simp add: maxConnectHeaderSize_def)
  moreover have "readConnectHeader rd w = Some (Ok h, w') \<longleftrightarrow>
      reads_exactly rd w h w' \<and> completes [] h"
    using read_header_sound [of rd "[]" w "Ok h" w' h] read_header_complete [of rd w h w' "[]"]
    by (auto simp: readConnectHeader_def)
  ultimately show ?thesis by (auto simp: completes_def ends_header_def)
qed

theorem readConnectHeader_exact_witness:
  "reads_exactly demo_read \<lparr>dw_open = [], dw_input = demo_refusal @ ''tunnel''\<rparr> demo_refusal
     \<lparr>dw_open = [], dw_input = ''tunnel''\<rparr>"
proof -
  have "readConnectHeader demo_read \<lparr>dw_open = [], dw_input = demo_refusal @ ''tunnel''\<rparr> =
      Some (Ok demo_refusal, \<lparr>dw_open = [], dw_input = ''tunnel''\<rparr>)"
    by code_simp
  then show ?thesis by (rule readConnectHeader_exact [THEN iffD1, THEN conjunct1])
qed

text \<open>
  C25: the header reader returns, for every reader that does not return nothing for ever; it
  then fails only with the reader's error or because 16384 bytes held no complete header.
\<close>

theorem readConnectHeader_returns:
  assumes "\<forall>w. \<exists>k. fst (rd (((\<lambda>w. snd (rd w)) ^^ k) w)) \<noteq> ReadNone"
  shows "\<exists>r w'. readConnectHeader rd w = Some (r, w') \<and>
    (case r of Inl e \<Rightarrow> e = HeaderTooLong \<or> (\<exists>m. e = ReadConnect m) | Inr h \<Rightarrow> True)"
proof -
  have "progresses rd" using assms by (simp add: progresses_def)
  then obtain r w' where "read_header rd [] w = Some (r, w')"
    using read_header_returns by (metis surj_pair)
  then show ?thesis
    by (auto simp: readConnectHeader_def split: sum.splits dest: read_header_error)
qed

theorem readConnectHeader_returns_witness:
  "\<exists>r w'. readConnectHeader demo_read \<lparr>dw_open = [], dw_input = demo_refusal @ ''tunnel''\<rparr> = Some (r, w') \<and>
    (case r of Inl e \<Rightarrow> e = HeaderTooLong \<or> (\<exists>m. e = ReadConnect m) | Inr h \<Rightarrow> True)"
proof (rule readConnectHeader_returns)
  show "\<forall>w. \<exists>k. fst (demo_read (((\<lambda>w. snd (demo_read w)) ^^ k) w)) \<noteq> ReadNone"
    by (intro allI exI [of _ 0]) (simp add: demo_read_def split: list.splits)
qed

section \<open>Connections\<close>

text \<open>
  C9: the router leaks no connection.  Whenever it returns an error every connection it opened
  on the way is closed again, also after a failed TLS or CONNECT handshake; whenever it returns
  a connection that one is open, and it is the only new one.
\<close>

theorem router_leaks_no_connection:
  assumes "conn_laws ops opens"
    and "RouterDial tx ops router h a n w = Some (r, w')"
  shows "case r of
      Inl e \<Rightarrow> opens w' = opens w
    | Inr c \<Rightarrow> c \<notin> opens w \<and> opens w' = insert c (opens w)"
  using RouterDial_hands_over [OF assms] by (simp add: hands_over_def)

theorem router_leaks_no_connection_witness:
  "\<exists>w'. RouterDial ascii_lib demo_net demo_router ''a.example'' (Addr4 3232235777) 443
     \<lparr>dw_open = [7], dw_input = demo_refusal\<rparr> = Some (Err (ConnectStatus 403), w') \<and>
     set (dw_open w') = {7}"
proof -
  let ?w = "\<lparr>dw_open = [7], dw_input = demo_refusal\<rparr>"
  have "RouterDial ascii_lib demo_net demo_router ''a.example'' (Addr4 3232235777) 443 ?w =
      Some (Err (ConnectStatus 403), \<lparr>dw_open = [7], dw_input = []\<rparr>)"
    by code_simp
  with router_leaks_no_connection [OF demo_net_laws this] show ?thesis by simp
qed

text \<open>
  C10: the hostname never reaches the network again.  Whatever the outcome, a target is dialed
  either straight or through the proxy.  Straight is the case without a proxy, for an address with
  a zone, and where NO_PROXY excludes the target; then only the approved address and port are
  dialed, and no proxy is spoken to.  Otherwise the only address dialed is that of the configured
  proxy, SOCKS is spoken only to the configured URL, TLS in its name and CONNECT with its
  credentials, and the proxy is asked for nothing but the approved address and port.
\<close>

theorem router_sends_only_approved:
  assumes "RouterDial tx ops router h a n w = Some (r, w')"
  shows "case if Zone a = [] \<and> bypass router (selection_host h a n) = Ok True then proxy_url router else None of
      None \<Rightarrow> net_run ops None {JoinHostPort (addr_string a) (Itoa (unat n))} {} w w'
    | Some u \<Rightarrow> net_run ops (Some u) {proxy_address tx u} {JoinHostPort (addr_string a) (Itoa (unat n))} w w'"
  using RouterDial_net [OF assms, unfolded target_run_def chosen_proxy_def authority_def]
  by (cases "Zone a = [] \<and> bypass router (selection_host h a n) = Ok True"; cases "proxy_url router") auto

theorem router_sends_only_approved_witness:
  "net_run demo_net (Some demo_url) {''proxy.example:3128''} {''192.168.1.1:443''}
     \<lparr>dw_open = [7], dw_input = demo_refusal\<rparr> \<lparr>dw_open = [7], dw_input = []\<rparr>"
proof -
  have "RouterDial ascii_lib demo_net demo_router ''a.example'' (Addr4 3232235777) 443
      \<lparr>dw_open = [7], dw_input = demo_refusal\<rparr> =
      Some (Err (ConnectStatus 403), \<lparr>dw_open = [7], dw_input = []\<rparr>)"
    by code_simp
  moreover have "JoinHostPort (addr_string (Addr4 3232235777)) (Itoa (unat (443 :: 16 word))) = ''192.168.1.1:443''"
    by code_simp
  moreover have "proxy_address ascii_lib demo_url = ''proxy.example:3128''" by code_simp
  moreover have "(if Zone (Addr4 3232235777) = [] \<and>
      bypass demo_router (selection_host ''a.example'' (Addr4 3232235777) 443) = Ok True
    then proxy_url demo_router else None) = Some demo_url" by (simp add: demo_router_def)
  ultimately show ?thesis using router_sends_only_approved by fastforce
qed

section \<open>The environment\<close>

text \<open>
  a router built from the environment has no proxy exactly when all six variables are
  unset or empty, and otherwise one whose scheme the router supports: dialing never ends in
  the unsupported-scheme error.
\<close>

theorem environment_router_supported:
  assumes "NewEnvironmentRouter tx parse proxy_func env = Ok router"
  shows "(proxy_url router = None \<longleftrightarrow>
      (\<forall>name \<in> {''HTTPS_PROXY'', ''https_proxy'', ''HTTP_PROXY'', ''http_proxy'', ''ALL_PROXY'', ''all_proxy''}.
         environmentMap env name \<in> {None, Some []})) \<and>
    RouterDial tx ops router h a n w \<noteq> Some (Err (ProxyScheme s), w')"
proof -
  have empty: "firstEnvironment m names = [] \<longleftrightarrow> (\<forall>name \<in> set names. m name \<in> {None, Some []})" for m names
    by (induction names) (auto split: option.splits)
  show ?thesis
    using NewEnvironmentRouter_none [OF assms] NewEnvironmentRouter_scheme [OF assms]
      RouterDial_scheme [of tx ops router h a n w s w']
    unfolding empty proxy_names_def by auto
qed

theorem environment_router_supported_witness:
  "\<exists>router. NewEnvironmentRouter ascii_lib (\<lambda>s. Some demo_url) (\<lambda>no_proxy h. Ok True)
      [''HTTP_PROXY=http://other'', ''HTTPS_PROXY=http://proxy.example:3128''] = Ok router \<and>
    RouterDial ascii_lib demo_net router ''a.example'' (Addr4 1) 443 \<lparr>dw_open = [], dw_input = []\<rparr> \<noteq>
      Some (Err (ProxyScheme ''http''), \<lparr>dw_open = [], dw_input = []\<rparr>)"
proof -
  have router: "NewEnvironmentRouter ascii_lib (\<lambda>s. Some demo_url) (\<lambda>no_proxy h. Ok True)
      [''HTTP_PROXY=http://other'', ''HTTPS_PROXY=http://proxy.example:3128''] =
    Ok \<lparr>proxy_url = Some demo_url, bypass = \<lambda>h. Ok True\<rparr>"
  proof -
    have "firstEnvironment (environmentMap [''HTTP_PROXY=http://other'',
        ''HTTPS_PROXY=http://proxy.example:3128'']) proxy_names = ''http://proxy.example:3128''"
      by code_simp
    moreover have "parseProxyURL ascii_lib (\<lambda>s. Some demo_url) ''http://proxy.example:3128'' =
        Ok (Some demo_url)"
      by code_simp
    ultimately show ?thesis by (simp only: NewEnvironmentRouter_def Let_def rbind_simps)
  qed
  show ?thesis
    by (rule exI, rule conjI, rule router, rule environment_router_supported [OF router, THEN conjunct2])
qed

end
