(* ===== verification/Tracker.thy ===== *)
theory Tracker
  imports Prelude "HOL-Library.Multiset"
begin

text \<open>
  The bookkeeping behind a graceful shutdown, as an interface: the proxies count the handlers
  that run, refuse new ones once they are closing, and wait for the count to reach 0.  Each
  operation holds the mutex of its set, so an execution is a sequence of whole operations in
  any order.  \<open>tracker\<close> is the contract of such a counter and its lemmas hold for every
  sequence of operations of any number of handlers; \<open>conn_tracker\<close> adds the connections that
  are closed at shutdown.
\<close>

text \<open>
  One handler's view: a key \<open>k\<close> is what it registers.  \<open>running\<close> collects the handlers that
  were admitted and have not left yet.
\<close>

record ('k, 's) tracked =
  tracker_state :: 's
  running :: "'k multiset"

datatype 'k operation = Enter 'k | Leave 'k | CloseAll

text \<open>
  A step of the system: a handler enters (and runs if it is admitted), a running handler
  leaves, or the set is closed.
\<close>

fun track ::
  "('k \<Rightarrow> 's \<Rightarrow> bool \<times> 's) \<Rightarrow> ('k \<Rightarrow> 's \<Rightarrow> 's) \<Rightarrow> ('s \<Rightarrow> 's) \<Rightarrow>
   ('k, 's) tracked \<Rightarrow> 'k operation \<Rightarrow> ('k, 's) tracked" where
  "track enter leave close_all t (Enter k) =
     (case enter k (tracker_state t) of
        (admitted, s) \<Rightarrow>
          \<lparr>tracker_state = s, running = (if admitted then add_mset k (running t) else running t)\<rparr>)"
| "track enter leave close_all t (Leave k) =
     (if k \<in># running t
      then \<lparr>tracker_state = leave k (tracker_state t), running = running t - {#k#}\<rparr>
      else t)"
| "track enter leave close_all t CloseAll = t\<lparr>tracker_state := close_all (tracker_state t)\<rparr>"

locale tracker =
  fixes enter :: "'k \<Rightarrow> 's \<Rightarrow> bool \<times> 's"
    and leave :: "'k \<Rightarrow> 's \<Rightarrow> 's"
    and close_all :: "'s \<Rightarrow> 's"
    and count :: "'s \<Rightarrow> int"
    and shutting :: "'s \<Rightarrow> bool"
    and fresh :: "'s"
  assumes fresh_state: "count fresh = 0" "\<not> shutting fresh"
    and enter_open: "\<not> shutting s \<Longrightarrow> fst (enter k s) \<and> count (snd (enter k s)) = count s + 1 \<and>
      \<not> shutting (snd (enter k s))"
    and enter_shut: "shutting s \<Longrightarrow> enter k s = (False, s)"
    and leave_count: "count (leave k s) = count s - 1" "shutting (leave k s) = shutting s"
    and close_all_state: "count (close_all s) = count s" "shutting (close_all s)"
begin

definition start :: "('k, 's) tracked" where
  "start = \<lparr>tracker_state = fresh, running = {#}\<rparr>"

abbreviation run :: "('k, 's) tracked \<Rightarrow> 'k operation list \<Rightarrow> ('k, 's) tracked" where
  "run \<equiv> foldl (track enter leave close_all)"

definition consistent :: "('k, 's) tracked \<Rightarrow> bool" where
  "consistent t \<longleftrightarrow> count (tracker_state t) = int (size (running t))"

lemma track_consistent:
  assumes "consistent t" shows "consistent (track enter leave close_all t opn)"
proof (cases opn)
  case (Enter k)
  then show ?thesis
    using assms enter_open [of "tracker_state t" k] enter_shut [of "tracker_state t" k]
    by (cases "shutting (tracker_state t)") (auto simp: consistent_def split: prod.splits)
next
  case (Leave k)
  then show ?thesis
    using assms by (auto simp: consistent_def leave_count dest!: multi_member_split)
next
  case CloseAll
  then show ?thesis using assms by (simp add: consistent_def close_all_state)
qed

lemma run_consistent: "consistent t \<Longrightarrow> consistent (run t os)"
  by (induction os arbitrary: t) (simp_all add: track_consistent)

text \<open>The count is the number of running handlers, so waiting for 0 waits for all of them.\<close>

lemma count_running: "count (tracker_state (run start os)) = int (size (running (run start os)))"
  using run_consistent [of start os] by (simp add: consistent_def start_def fresh_state)

lemma wait_all: "count (tracker_state (run start os)) = 0 \<longleftrightarrow> running (run start os) = {#}"
  by (simp add: count_running)

lemma track_shutting:
  assumes "shutting (tracker_state t)"
  shows "shutting (tracker_state (track enter leave close_all t opn)) \<and>
    running (track enter leave close_all t opn) \<subseteq># running t"
  using assms by (cases opn) (auto simp: enter_shut leave_count close_all_state)

lemma run_shutting:
  "shutting (tracker_state t) \<Longrightarrow> shutting (tracker_state (run t os)) \<and> running (run t os) \<subseteq># running t"
proof (induction os arbitrary: t)
  case Nil
  then show ?case by simp
next
  case (Cons x os)
  have "shutting (tracker_state (track enter leave close_all t x))"
    "running (track enter leave close_all t x) \<subseteq># running t"
    using track_shutting [OF Cons.prems, of x] by auto
  with Cons.IH [OF this(1)] show ?case by (auto intro: subset_mset.order_trans)
qed

text \<open>After the set was closed no handler is admitted; once the count is 0 it stays 0.\<close>

lemma closed_for_good:
  "running (run start (os1 @ CloseAll # os2)) \<subseteq># running (run start os1)"
  using run_shutting [of "track enter leave close_all (run start os1) CloseAll" os2]
  by (simp add: close_all_state)

lemma drained_for_good:
  assumes "count (tracker_state (run start (os1 @ CloseAll # os2))) = 0"
  shows "running (run start (os1 @ CloseAll # os2 @ os3)) = {#}"
proof -
  let ?t = "run start (os1 @ CloseAll # os2)"
  have "running ?t = {#}" using assms wait_all by blast
  moreover have "shutting (tracker_state ?t)"
    using run_shutting [of "track enter leave close_all (run start os1) CloseAll" os2]
    by (simp add: close_all_state)
  ultimately have "running (run ?t os3) = {#}" using run_shutting [of ?t os3] by simp
  then show ?thesis by simp
qed

end

text \<open>
  Closing also closes the registered connections.  A handler's key names its connections;
  the connections of two handlers never overlap.
\<close>

locale conn_tracker = tracker enter leave close_all count shutting fresh
  for enter :: "'k \<Rightarrow> 's \<Rightarrow> bool \<times> 's" and leave and close_all and count and shutting and fresh +
  fixes conns :: "'s \<Rightarrow> 'c set"
    and key_conns :: "'k \<Rightarrow> 'c set"
  assumes fresh_conns: "conns fresh = {}"
    and enter_conns: "\<not> shutting s \<Longrightarrow> conns (snd (enter k s)) = conns s \<union> key_conns k"
    and leave_conns: "conns (leave k s) = conns s - key_conns k"
    and close_all_conns: "conns (close_all s) = conns s"
begin

definition disjoint_keys :: "'k multiset \<Rightarrow> bool" where
  "disjoint_keys ks \<longleftrightarrow>
     (\<forall>k \<in># ks. \<forall>k' \<in># ks - {#k#}. key_conns k \<inter> key_conns k' = {})"

lemma disjoint_keysD:
  "disjoint_keys ks \<Longrightarrow> k \<in># ks \<Longrightarrow> k' \<in># ks - {#k#} \<Longrightarrow> key_conns k \<inter> key_conns k' = {}"
  by (auto simp: disjoint_keys_def)

text \<open>The handlers admitted in a run, in any order, that never share a connection.\<close>

lemma track_conns:
  assumes "conns (tracker_state t) = (\<Union>k \<in> set_mset (running t). key_conns k)"
    and "disjoint_keys (running t)"
  shows "conns (tracker_state (track enter leave close_all t opn)) =
    (\<Union>k \<in> set_mset (running (track enter leave close_all t opn)). key_conns k)"
proof (cases opn)
  case (Enter k)
  then show ?thesis
    using assms enter_open [of "tracker_state t" k] enter_shut [of "tracker_state t" k]
      enter_conns [of "tracker_state t" k]
    by (cases "shutting (tracker_state t)") (auto split: prod.splits)
next
  case (Leave k)
  show ?thesis
  proof (cases "k \<in># running t")
    case True
    then obtain ks where ks: "running t = add_mset k ks" by (metis mset_add)
    have "key_conns k \<inter> key_conns k' = {}" if "k' \<in># ks" for k'
      using disjoint_keysD [OF assms(2), of k k'] that ks by simp
    then show ?thesis
      using Leave True assms(1) ks by (auto simp: leave_conns)
  qed (use Leave assms in simp)
next
  case CloseAll
  then show ?thesis using assms by (simp add: close_all_conns)
qed

text \<open>All along the run the registered connections are those of the running handlers.\<close>

lemma run_conns:
  "(\<And>n. disjoint_keys (running (run start (take n os)))) \<Longrightarrow>
   conns (tracker_state (run start os)) = (\<Union>k \<in> set_mset (running (run start os)). key_conns k)"
proof (induction os rule: rev_induct)
  case Nil
  then show ?case by (simp add: start_def fresh_conns)
next
  case (snoc x os)
  have "disjoint_keys (running (run start (take n os)))" for n
    using snoc.prems [of "min n (length os)"] by (simp add: take_append min_def split: if_splits)
  moreover from this [of "length os"] have "disjoint_keys (running (run start os))" by simp
  ultimately show ?case using snoc.IH track_conns by simp
qed

end

end
