(* ===== verification/Conn_Sets.thy ===== *)
theory Conn_Sets
  imports Tracker
begin

text \<open>
  The three shutdown sets of the proxies: \<open>connectionSet\<close> and \<open>activitySet\<close> of
  internal/proxyhttp/server.go and the set inside \<open>Server\<close> of internal/proxysocks/server.go.
  Every operation runs under the mutex of its set, so it is one step here.  Closing a set
  closes the connections in it: \<open>set_close_all\<close> returns them.  \<open>wait\<close> blocks until the count
  is 0, so it returns exactly in the states where \<open>set_wait\<close> or \<open>socks_wait\<close> holds.
\<close>

section \<open>Connection sets\<close>

record 'c conn_set =
  cs_connections :: "'c set"
  cs_active :: int
  cs_closing :: bool

definition new_connection_set :: "'c conn_set" where
  "new_connection_set = \<lparr>cs_connections = {}, cs_active = 0, cs_closing = False\<rparr>"

definition set_add :: "'c list \<Rightarrow> 'c conn_set \<Rightarrow> bool \<times> 'c conn_set" where
  "set_add connections s =
     (if cs_closing s then (False, s)
      else (True, s\<lparr>cs_active := cs_active s + 1,
                    cs_connections := cs_connections s \<union> set connections\<rparr>))"

definition set_remove :: "'c list \<Rightarrow> 'c conn_set \<Rightarrow> 'c conn_set" where
  "set_remove connections s =
     s\<lparr>cs_connections := cs_connections s - set connections, cs_active := cs_active s - 1\<rparr>"

definition set_close_all :: "'c conn_set \<Rightarrow> 'c set \<times> 'c conn_set" where
  "set_close_all s = (cs_connections s, s\<lparr>cs_closing := True\<rparr>)"

definition set_wait :: "'c conn_set \<Rightarrow> bool" where
  "set_wait s \<longleftrightarrow> cs_active s = 0"

text \<open>The SOCKS server registers one connection at a time.\<close>

definition socks_add :: "'c \<Rightarrow> 'c conn_set \<Rightarrow> bool \<times> 'c conn_set" where
  "socks_add connection s =
     (if cs_closing s then (False, s)
      else (True, s\<lparr>cs_active := cs_active s + 1,
                    cs_connections := insert connection (cs_connections s)\<rparr>))"

definition socks_remove :: "'c \<Rightarrow> 'c conn_set \<Rightarrow> 'c conn_set" where
  "socks_remove connection s =
     s\<lparr>cs_connections := cs_connections s - {connection}, cs_active := cs_active s - 1\<rparr>"

definition socks_wait :: "'c conn_set \<Rightarrow> bool" where
  "socks_wait s \<longleftrightarrow> cs_active s = 0"

section \<open>Activity sets\<close>

record activity_set =
  as_active :: int
  as_closing :: bool

definition new_activity_set :: activity_set where
  "new_activity_set = \<lparr>as_active = 0, as_closing = False\<rparr>"

definition activity_add :: "activity_set \<Rightarrow> bool \<times> activity_set" where
  "activity_add s = (if as_closing s then (False, s) else (True, s\<lparr>as_active := as_active s + 1\<rparr>))"

definition activity_done :: "activity_set \<Rightarrow> activity_set" where
  "activity_done s = s\<lparr>as_active := as_active s - 1\<rparr>"

definition activity_close :: "activity_set \<Rightarrow> activity_set" where
  "activity_close s = s\<lparr>as_closing := True\<rparr>"

definition activity_wait :: "activity_set \<Rightarrow> bool" where
  "activity_wait s \<longleftrightarrow> as_active s = 0"

section \<open>They are trackers\<close>

lemmas conn_set_defs = new_connection_set_def set_add_def set_remove_def set_close_all_def
  socks_add_def socks_remove_def set_wait_def

lemmas activity_defs = new_activity_set_def activity_add_def activity_done_def activity_close_def
  activity_wait_def

interpretation tunnels: conn_tracker set_add set_remove "\<lambda>s. snd (set_close_all s)" cs_active cs_closing
  new_connection_set cs_connections set
  by unfold_locales (auto simp: conn_set_defs)

interpretation socks: conn_tracker socks_add socks_remove "\<lambda>s. snd (set_close_all s)" cs_active cs_closing
  new_connection_set cs_connections "\<lambda>c. {c}"
  by unfold_locales (auto simp: conn_set_defs)

interpretation activity: tracker "\<lambda>_ :: unit. activity_add" "\<lambda>_. activity_done" activity_close as_active
  as_closing new_activity_set
  by unfold_locales (auto simp: activity_defs)

text \<open>What \<open>closeAll\<close> closes at any point of a run.\<close>

lemma close_all_closes: "fst (set_close_all s) = cs_connections s"
  by (simp add: set_close_all_def)

end
