(* ===== verification/Relay.thy ===== *)
theory Relay
  imports Prelude
begin

text \<open>
  internal/relay/relay.go: copying both directions of a tunnel.  The two copying goroutines
  and the context send events; the loop of \<open>Bidirectional\<close> consumes them in the order the
  select statement picks, until both directions are complete.
\<close>

section \<open>Copying one direction\<close>

text \<open>Errors, by what the code tells apart: \<open>net.ErrClosed\<close>, \<open>context.Canceled\<close>, any other.\<close>

datatype relay_error = NetClosed | ContextCanceled | StreamError string

definition isRelayError :: "relay_error option \<Rightarrow> bool" where
  "isRelayError err \<longleftrightarrow> err \<noteq> None \<and> err \<noteq> Some NetClosed \<and> err \<noteq> Some ContextCanceled"

text \<open>
  \<open>copyStream\<close>: the error of \<open>io.Copy\<close>, and of \<open>CloseWrite\<close> where the destination has it
  (\<open>None\<close> where it has not).  The result says what is sent, and whether the stream was half
  closed.
\<close>

definition copyStream :: "relay_error option \<Rightarrow> relay_error option option \<Rightarrow> relay_error option \<times> bool" where
  "copyStream err closeable =
     (case closeable of
        None \<Rightarrow> (err, False)
      | Some closeErr \<Rightarrow> (if err = None then closeErr else err, True))"

section \<open>The loop\<close>

datatype relay_event = CopyDone "relay_error option" | ContextDone

record relay_state =
  rl_completed :: nat
  rl_error :: "relay_error option"
  rl_canceled :: bool
  rl_armed :: bool
  rl_closes :: nat

definition relay_start :: relay_state where
  "relay_start = \<lparr>rl_completed = 0, rl_error = None, rl_canceled = False, rl_armed = True, rl_closes = 0\<rparr>"

text \<open>
  One turn of the select; closing both connections is counted.  After the first cancellation
  the context's channel is nil and never ready again, so the event is not there any more.
\<close>

fun relay_select :: "relay_event \<Rightarrow> relay_state \<Rightarrow> relay_state" where
  "relay_select (CopyDone err) s =
     (let s = s\<lparr>rl_completed := rl_completed s + 1\<rparr> in
      if rl_error s = None \<and> isRelayError err
      then s\<lparr>rl_error := err, rl_closes := rl_closes s + 1\<rparr> else s)"
| "relay_select ContextDone s =
     (if rl_armed s then s\<lparr>rl_canceled := True, rl_armed := False, rl_closes := rl_closes s + 1\<rparr> else s)"

text \<open>\<open>ctx_err\<close> is \<open>ctx.Err()\<close>.  Without enough events the loop is still waiting: \<open>None\<close>.\<close>

fun Bidirectional :: "relay_error \<Rightarrow> relay_event list \<Rightarrow> relay_state \<Rightarrow> (relay_error option \<times> relay_state) option" where
  "Bidirectional ctx_err events s =
     (if rl_completed s < 2 then
        (case events of
           [] \<Rightarrow> None
         | e # es \<Rightarrow> Bidirectional ctx_err es (relay_select e s))
      else
        Some (if rl_error s \<noteq> None then rl_error s
              else if rl_canceled s then Some ctx_err else None, s))"

declare Bidirectional.simps [simp del]

lemma Bidirectional_step [simp]:
  "rl_completed s < 2 \<Longrightarrow> Bidirectional ctx_err [] s = None"
  "rl_completed s < 2 \<Longrightarrow> Bidirectional ctx_err (e # es) s = Bidirectional ctx_err es (relay_select e s)"
  by (simp_all add: Bidirectional.simps)

lemma Bidirectional_done:
  "\<not> rl_completed s < 2 \<Longrightarrow> Bidirectional ctx_err es s =
     Some (if rl_error s \<noteq> None then rl_error s else if rl_canceled s then Some ctx_err else None, s)"
  by (simp add: Bidirectional.simps)

text \<open>Cancellations between two completions.\<close>

definition cancel :: "relay_state \<Rightarrow> relay_state" where
  "cancel s = (if rl_armed s then s\<lparr>rl_canceled := True, rl_armed := False, rl_closes := rl_closes s + 1\<rparr> else s)"

lemma Bidirectional_cancels:
  "rl_completed s < 2 \<Longrightarrow> set cs \<subseteq> {ContextDone} \<Longrightarrow>
   Bidirectional ctx_err (cs @ es) s = Bidirectional ctx_err es (if cs = [] then s else cancel s)"
proof (induction cs arbitrary: s)
  case (Cons c cs)
  then have "relay_select c s = cancel s" "cancel (cancel s) = cancel s" "rl_completed (cancel s) < 2"
    by (auto simp: cancel_def)
  with Cons show ?case by simp
qed simp

lemma cancel_simps [simp]:
  "rl_completed (cancel s) = rl_completed s" "rl_error (cancel s) = rl_error s"
  "rl_canceled (cancel s) \<longleftrightarrow> rl_armed s \<or> rl_canceled s" "\<not> rl_armed (cancel s)"
  "rl_closes (cancel s) = rl_closes s + (if rl_armed s then 1 else 0)"
  by (auto simp: cancel_def)

lemma relay_select_copy [simp]:
  "rl_completed (relay_select (CopyDone e) s) = rl_completed s + 1"
  "rl_error (relay_select (CopyDone e) s) = (if rl_error s = None \<and> isRelayError e then e else rl_error s)"
  "rl_canceled (relay_select (CopyDone e) s) = rl_canceled s"
  "rl_armed (relay_select (CopyDone e) s) = rl_armed s"
  "rl_closes (relay_select (CopyDone e) s) =
     rl_closes s + (if rl_error s = None \<and> isRelayError e then 1 else 0)"
  by (simp_all add: Let_def)

lemma relay_start_simps [simp]:
  "rl_completed relay_start = 0" "rl_error relay_start = None" "\<not> rl_canceled relay_start"
  "rl_armed relay_start" "rl_closes relay_start = 0"
  by (simp_all add: relay_start_def)

declare relay_select.simps [simp del]

definition first_error :: "relay_error option \<Rightarrow> relay_error option \<Rightarrow> relay_error option" where
  "first_error a b = (if isRelayError a then a else if isRelayError b then b else None)"

lemma Bidirectional_outcome:
  assumes "set c1 \<subseteq> {ContextDone}" and "set c2 \<subseteq> {ContextDone}"
  shows "\<exists>s. Bidirectional ctx_err (c1 @ CopyDone a # c2 @ CopyDone b # rest) relay_start =
      Some (if first_error a b \<noteq> None then first_error a b
            else if c1 @ c2 \<noteq> [] then Some ctx_err else None, s) \<and>
    rl_closes s = (if first_error a b \<noteq> None then 1 else 0) + (if c1 @ c2 \<noteq> [] then 1 else 0) \<and>
    Bidirectional ctx_err (c1 @ CopyDone a # c2) relay_start = None"
proof -
  let ?s1 = "if c1 = [] then relay_start else cancel relay_start"
  let ?s2 = "relay_select (CopyDone a) ?s1"
  let ?s3 = "if c2 = [] then ?s2 else cancel ?s2"
  let ?s4 = "relay_select (CopyDone b) ?s3"
  have c: "rl_completed ?s1 = 0" "rl_completed ?s2 = 1" "rl_completed ?s3 = 1" "rl_completed ?s4 = 2"
    by auto
  have "Bidirectional ctx_err (c1 @ CopyDone a # c2 @ es) relay_start = Bidirectional ctx_err es ?s3" for es
    using c Bidirectional_cancels [OF _ assms(1), of relay_start ctx_err "CopyDone a # c2 @ es"]
      Bidirectional_cancels [OF _ assms(2), of ?s2 ctx_err es]
    by simp
  from this [of "CopyDone b # rest"] this [of "[]"] c
  have "Bidirectional ctx_err (c1 @ CopyDone a # c2 @ CopyDone b # rest) relay_start =
      Bidirectional ctx_err rest ?s4"
    "Bidirectional ctx_err (c1 @ CopyDone a # c2) relay_start = None"
    by simp_all
  moreover have "rl_error ?s4 = first_error a b"
    "rl_closes ?s4 = (if first_error a b \<noteq> None then 1 else 0) + (if c1 @ c2 \<noteq> [] then 1 else 0)"
    "rl_canceled ?s4 \<longleftrightarrow> c1 @ c2 \<noteq> []"
    by (auto simp: first_error_def isRelayError_def)
  ultimately show ?thesis
    using c(4) by (intro exI [of _ ?s4]) (simp add: Bidirectional_done)
qed

text \<open>The events of a relay that has returned, and how it then ends.\<close>

record relay_answer =
  ra_first :: "relay_error option"
  ra_second :: "relay_error option"
  ra_cancelled_before :: bool
  ra_cancelled_between :: bool

definition relay_events :: "relay_answer \<Rightarrow> relay_event list" where
  "relay_events an =
     (if ra_cancelled_before an then [ContextDone] else []) @ CopyDone (ra_first an) #
     (if ra_cancelled_between an then [ContextDone] else []) @ [CopyDone (ra_second an)]"

lemma relay_events_closes:
  "\<exists>r s. Bidirectional ctx_err (relay_events an) relay_start = Some (r, s) \<and> rl_closes s \<le> 2"
proof -
  let ?c1 = "if ra_cancelled_before an then [ContextDone] else []"
  let ?c2 = "if ra_cancelled_between an then [ContextDone] else []"
  have "set ?c1 \<subseteq> {ContextDone}" "set ?c2 \<subseteq> {ContextDone}" by auto
  from Bidirectional_outcome [OF this, of ctx_err "ra_first an" "ra_second an" "[]"]
  show ?thesis unfolding relay_events_def by fastforce
qed

section \<open>Properties\<close>

text \<open>
  C17: the relay returns once both directions are complete, whatever arrives in between, and
  not before.  Its result is the first genuine stream error, otherwise the context's error if
  the context ended first, otherwise none.  The connections are closed early exactly on such
  an error or cancellation, so a direction that ends normally leaves the other one open.
\<close>

theorem relay_outcome:
  assumes "set c1 \<subseteq> {ContextDone}" and "set c2 \<subseteq> {ContextDone}"
  shows "\<exists>s. Bidirectional ctx_err (c1 @ CopyDone a # c2 @ CopyDone b # rest) relay_start =
      Some (if first_error a b \<noteq> None then first_error a b
            else if c1 @ c2 \<noteq> [] then Some ctx_err else None, s) \<and>
    rl_closes s = (if first_error a b \<noteq> None then 1 else 0) + (if c1 @ c2 \<noteq> [] then 1 else 0) \<and>
    Bidirectional ctx_err (c1 @ CopyDone a # c2) relay_start = None"
  using assms by (rule Bidirectional_outcome)

theorem relay_outcome_witness:
  "\<exists>s. Bidirectional ContextCanceled [CopyDone None, ContextDone, CopyDone (Some NetClosed)] relay_start =
     Some (Some ContextCanceled, s) \<and> rl_closes s = 1"
proof -
  have "set [] \<subseteq> {ContextDone}" "set [ContextDone] \<subseteq> {ContextDone}" by simp_all
  from relay_outcome [OF this, of ContextCanceled None "Some NetClosed" "[]"]
  show ?thesis by (auto simp: first_error_def isRelayError_def)
qed

end
