(* ===== verification/Proxy_HTTP.thy ===== *)
theory Proxy_HTTP
  imports Direct Conn_Sets Relay
begin

text \<open>
  internal/proxyhttp/server.go: the HTTP forward proxy.  A request is handled in a fixed order
  of operations; a handler is a function from the request, the connector and the answers of
  the operations it calls to the sequence of what it does (\<open>http_action\<close>), deferred calls
  included, and to the connector's state.  Each operation is called at most once per request,
  so its answer is a field of \<open>http_answers\<close>.
\<close>

section \<open>Targets\<close>

datatype target_error =
    SplitAuthority addr_error
  | HostIsEmpty
  | BadPort
  | PortRequired
  | BadDestination dest_error

definition parseURLAuthority ::
  "text_lib \<Rightarrow> string \<Rightarrow> string \<Rightarrow> 16 word \<Rightarrow> (target_error, destination \<times> 16 word) result" where
  "parseURLAuthority tx host rawPort defaultPort =
     (if host = [] then Err HostIsEmpty
      else
        rbind
          (if rawPort \<noteq> [] then
             (case ParseUint 16 rawPort of
                None \<Rightarrow> Err BadPort
              | Some n \<Rightarrow> if n = 0 then Err BadPort else Ok (of_nat n))
           else Ok defaultPort)
          (\<lambda>port.
            if port = 0 then Err PortRequired
            else
              (case ParseDestination tx host of
                 Inl e \<Rightarrow> Err (BadDestination e)
               | Inr destination \<Rightarrow> Ok (destination, port))))"

definition parseAuthority :: "text_lib \<Rightarrow> string \<Rightarrow> (target_error, destination \<times> 16 word) result" where
  "parseAuthority tx auth =
     (case SplitHostPort auth of
        Inl e \<Rightarrow> Err (SplitAuthority e)
      | Inr (host, rawPort) \<Rightarrow> parseURLAuthority tx host rawPort 0)"

definition canonicalAuthority :: "destination \<Rightarrow> 16 word \<Rightarrow> bool \<Rightarrow> string" where
  "canonicalAuthority d port includePort =
     (let host = (if \<not> IsHostname d then addr_string (RoutingAddress d) else d_hostname d) in
      if \<not> IsHostname d \<and> Is6 (d_address d) \<and> \<not> includePort then ''['' @ host @ '']''
      else if includePort then JoinHostPort host (Itoa (unat port))
      else host)"

section \<open>One prepared connection\<close>

text \<open>The closure of \<open>oneConnectionDialer\<close>: its state is \<open>used\<close>.\<close>

definition oneConnectionDialer :: "'c \<Rightarrow> bool \<Rightarrow> 'c option \<times> bool" where
  "oneConnectionDialer connection used = (if used then (None, used) else (Some connection, True))"

section \<open>The server\<close>

record ('s, 'e, 'c) http_server =
  hs_connector :: "('s, 'e dial_error, 'c) dial"
  hs_tunnels :: "'c conn_set"
  hs_handlers :: activity_set

definition http_New :: "('s, 'e dial_error, 'c) dial \<Rightarrow> ('s, 'e, 'c) http_server" where
  "http_New dial =
     \<lparr>hs_connector = dial, hs_tunnels = new_connection_set, hs_handlers = new_activity_set\<rparr>"

section \<open>Handlers\<close>

text \<open>
  \<open>an_relay\<close> is what happens to the copying goroutines and the context while the relay runs, with the
  context's error \<open>an_ctx_err\<close>.  \<open>an_round_trip\<close> is the final status of the upstream's response, which
  \<open>ReverseProxy\<close> copies to the client, or \<open>None\<close> where it calls the error handler instead;
  \<open>an_transport_closes\<close> says whether the one-shot transport closes the connection it was given.  The
  close of a registered tunnel by \<open>closeAll\<close> comes from another goroutine: it is a step of the
  connection set, not an action of the handler.
\<close>

datatype 'c http_action =
    HandlersAdd bool
  | HandlersDone
  | Respond nat string
  | DialUpstream destination "16 word" "'c option"
  | Hijack "'c option"
  | TunnelsAdd "'c list" bool
  | TunnelsRemove "'c list"
  | WriteEstablished
  | FlushClient
  | RelayStreams 'c 'c
  | Forward string string 'c
  | PassResponse nat
  | CloseIdle
  | CloseConn 'c

record 'c http_answers =
  an_admitted :: bool
  an_hijackable :: bool
  an_hijack :: "'c option"
  an_tunnels :: bool
  an_write :: bool
  an_flush :: bool
  an_ctx_err :: relay_error
  an_relay :: relay_answer
  an_round_trip :: "nat option"
  an_transport_closes :: bool

definition writeDialError :: "'e dial_error \<Rightarrow> 'c http_action list" where
  "writeDialError e =
     (if is_denied e then [Respond 403 ''destination denied by policy'']
      else [Respond 502 ''destination connection failed''])"

text \<open>
  The relay, with the closes of both connections that it makes on an error or a cancellation.  It is
  described by events after which it returns (\<open>relay_events_closes\<close>).
\<close>

definition relay_streams :: "'c http_answers \<Rightarrow> 'c \<Rightarrow> 'c \<Rightarrow> 'c http_action list" where
  "relay_streams an client upstream = RelayStreams client upstream #
     (case Bidirectional (an_ctx_err an) (relay_events (an_relay an)) relay_start of
        None \<Rightarrow> []
      | Some (_, s) \<Rightarrow> concat (replicate (rl_closes s) [CloseConn client, CloseConn upstream]))"

text \<open>
  The part of \<open>serveConnect\<close> after the tunnel was registered; the deferred calls close the
  upstream, then the client, and then leave the set.
\<close>

definition serve_tunnel :: "'c http_answers \<Rightarrow> 'c \<Rightarrow> 'c \<Rightarrow> 'c http_action list" where
  "serve_tunnel an client upstream =
     [WriteEstablished] @
     (if \<not> an_write an then []
      else [FlushClient] @ (if \<not> an_flush an then [] else relay_streams an client upstream)) @
     [CloseConn upstream, CloseConn client, TunnelsRemove [client, upstream]]"

definition serveConnect ::
  "text_lib \<Rightarrow> ('s, 'e dial_error, 'c) dial \<Rightarrow> 'c http_answers \<Rightarrow> string \<Rightarrow> 's \<Rightarrow>
   'c http_action list \<times> 's" where
  "serveConnect tx dial an host st =
     (case parseAuthority tx host of
        Inl e \<Rightarrow> ([Respond 400 ''malformed CONNECT target''], st)
      | Inr (destination, port) \<Rightarrow>
          (case dial destination port st of
             (Inl e, st) \<Rightarrow> (DialUpstream destination port None # writeDialError e, st)
           | (Inr upstream, st) \<Rightarrow>
               (DialUpstream destination port (Some upstream) #
                (if \<not> an_hijackable an then
                   [CloseConn upstream, Respond 500 ''connection hijacking unavailable'']
                 else
                   Hijack (an_hijack an) #
                   (case an_hijack an of
                      None \<Rightarrow> [CloseConn upstream]
                    | Some client \<Rightarrow>
                        TunnelsAdd [client, upstream] (an_tunnels an) #
                        (if \<not> an_tunnels an then [CloseConn client, CloseConn upstream]
                         else serve_tunnel an client upstream))), st)))"

definition servePlainHTTP ::
  "text_lib \<Rightarrow> ('s, 'e dial_error, 'c) dial \<Rightarrow> 'c http_answers \<Rightarrow> url \<Rightarrow> 's \<Rightarrow>
   'c http_action list \<times> 's" where
  "servePlainHTTP tx dial an u st =
     (if url_scheme u = [] \<or> url_scheme u \<noteq> ''http'' \<or> url_host u = [] \<or> url_user u \<noteq> None then
        ([Respond 400 ''absolute-form http URL required''], st)
      else
        (case parseURLAuthority tx (url_hostname u) (url_port u) 80 of
           Inl e \<Rightarrow> ([Respond 400 ''malformed HTTP target''], st)
         | Inr (destination, port) \<Rightarrow>
             (case dial destination port st of
                (Inl e, st) \<Rightarrow> (DialUpstream destination port None # writeDialError e, st)
              | (Inr upstream, st) \<Rightarrow>
                  ([DialUpstream destination port (Some upstream),
                    Forward ''http'' (canonicalAuthority destination port (url_port u \<noteq> [])) upstream] @
                   (case an_round_trip an of
                      None \<Rightarrow> [Respond 502 ''upstream request failed'']
                    | Some status \<Rightarrow> [PassResponse status]) @
                   (if an_transport_closes an then [CloseConn upstream] else []) @
                   [CloseIdle, CloseConn upstream], st))))"

record http_request =
  rq_method :: string
  rq_host :: string
  rq_url :: url

definition ServeHTTP ::
  "text_lib \<Rightarrow> ('s, 'e dial_error, 'c) dial \<Rightarrow> 'c http_answers \<Rightarrow> http_request \<Rightarrow> 's \<Rightarrow>
   'c http_action list \<times> 's" where
  "ServeHTTP tx dial an request st =
     (if \<not> an_admitted an then ([HandlersAdd False, Respond 503 ''proxy is shutting down''], st)
      else
        (case (if rq_method request = ''CONNECT'' then serveConnect tx dial an (rq_host request) st
               else servePlainHTTP tx dial an (rq_url request) st) of
           (actions, st) \<Rightarrow> ([HandlersAdd True] @ actions @ [HandlersDone], st)))"

section \<open>Shutdown\<close>

text \<open>
  \<open>Serve\<close> ends with the error of the HTTP server, or with the cancellation of the context;
  an error is told by whether it is \<open>http.ErrServerClosed\<close> or \<open>net.ErrClosed\<close>.
\<close>

datatype closed_error = ErrServerClosed | ErrClosed | OtherError string

datatype serve_end =
    ServeFailed "closed_error option"
  | Cancelled "closed_error option" "closed_error option"

datatype serve_action =
    CloseHandlers | CloseTunnels | CloseHTTPServer | AwaitServeResult | WaitHandlers | WaitTunnels

definition http_Serve :: "serve_end \<Rightarrow> serve_action list \<times> (string, unit) result" where
  "http_Serve ending =
     (case ending of
        ServeFailed err \<Rightarrow>
          ([CloseHandlers, CloseTunnels, WaitHandlers, WaitTunnels],
           if err = Some ErrServerClosed then Ok () else Err ''serve HTTP proxy'')
      | Cancelled closeErr err \<Rightarrow>
          if closeErr \<noteq> None \<and> closeErr \<noteq> Some ErrClosed then
            ([CloseHandlers, CloseTunnels, CloseHTTPServer], Err ''close HTTP proxy'')
          else
            ([CloseHandlers, CloseTunnels, CloseHTTPServer, AwaitServeResult, WaitHandlers, WaitTunnels],
             if err \<noteq> None \<and> err \<noteq> Some ErrServerClosed \<and> err \<noteq> Some ErrClosed
             then Err ''serve HTTP proxy during shutdown'' else Ok ()))"

section \<open>Accounting\<close>

fun acquires :: "'c http_action \<Rightarrow> 'c multiset" where
  "acquires (DialUpstream d n (Some c)) = {#c#}"
| "acquires (Hijack (Some c)) = {#c#}"
| "acquires _ = {#}"

fun closes :: "'c http_action \<Rightarrow> 'c multiset" where
  "closes (CloseConn c) = {#c#}"
| "closes _ = {#}"

fun registers :: "'c http_action \<Rightarrow> 'c list multiset" where
  "registers (TunnelsAdd cs True) = {#cs#}"
| "registers _ = {#}"

fun unregisters :: "'c http_action \<Rightarrow> 'c list multiset" where
  "unregisters (TunnelsRemove cs) = {#cs#}"
| "unregisters _ = {#}"

abbreviation total :: "('a \<Rightarrow> 'b multiset) \<Rightarrow> 'a list \<Rightarrow> 'b multiset" where
  "total f acts \<equiv> sum_list (map f acts)"

text \<open>
  Connections are used only between their acquisition and their first close, and none is open at the
  end.  A second close has no effect.
\<close>

fun uses_open :: "'c set \<Rightarrow> 'c http_action list \<Rightarrow> bool" where
  "uses_open opens [] \<longleftrightarrow> opens = {}"
| "uses_open opens (DialUpstream d n (Some c) # acts) \<longleftrightarrow> c \<notin> opens \<and> uses_open (insert c opens) acts"
| "uses_open opens (Hijack (Some c) # acts) \<longleftrightarrow> c \<notin> opens \<and> uses_open (insert c opens) acts"
| "uses_open opens (RelayStreams c d # acts) \<longleftrightarrow> {c, d} \<subseteq> opens \<and> uses_open opens acts"
| "uses_open opens (Forward s h c # acts) \<longleftrightarrow> c \<in> opens \<and> uses_open opens acts"
| "uses_open opens (CloseConn c # acts) \<longleftrightarrow> uses_open (opens - {c}) acts"
| "uses_open opens (_ # acts) \<longleftrightarrow> uses_open opens acts"

text \<open>The final statuses a client gets: those airjail writes, and the upstream's that is passed on.\<close>

fun statuses :: "'c http_action list \<Rightarrow> nat list" where
  "statuses [] = []"
| "statuses (Respond n t # acts) = n # statuses acts"
| "statuses (PassResponse n # acts) = n # statuses acts"
| "statuses (_ # acts) = statuses acts"

lemma total_append: "total f (xs @ ys) = total f xs + total f ys"
  by simp

text \<open>The relay closes both connections at most twice.\<close>

lemma relay_streams_cases:
  obtains "relay_streams an c u = [RelayStreams c u]"
    | "relay_streams an c u = [RelayStreams c u, CloseConn c, CloseConn u]"
    | "relay_streams an c u = [RelayStreams c u, CloseConn c, CloseConn u, CloseConn c, CloseConn u]"
proof -
  obtain r s where run: "Bidirectional (an_ctx_err an) (relay_events (an_relay an)) relay_start = Some (r, s)"
    and "rl_closes s \<le> 2"
    using relay_events_closes by blast
  then consider "rl_closes s = 0" | "rl_closes s = 1" | "rl_closes s = 2" by linarith
  then show ?thesis
    by cases (use run in \<open>auto simp: relay_streams_def numeral_2_eq_2 intro: that\<close>)
qed

lemma relay_streams_set:
  "a \<in> set (relay_streams an c u) \<Longrightarrow> a = RelayStreams c u \<or> a = CloseConn c \<or> a = CloseConn u"
  by (cases rule: relay_streams_cases [of an c u]) auto

text \<open>
  What a handler acquires it closes, at most three times: by its own deferred close and the at most
  two of the relay, or by its own and that of the transport.
\<close>

definition accounts :: "'c http_action list \<Rightarrow> bool" where
  "accounts acts \<longleftrightarrow>
     (\<forall>c. count (total acquires acts) c \<le> count (total closes acts) c \<and>
       count (total closes acts) c \<le> 3 * count (total acquires acts) c) \<and>
     total registers acts = total unregisters acts"

lemma serve_tunnel_cases:
  obtains k where "k \<le> 2" "total acquires (serve_tunnel an c u) = {#}"
    "total closes (serve_tunnel an c u) = repeat_mset (Suc k) {#c, u#}"
    "total registers (serve_tunnel an c u) = {#}" "total unregisters (serve_tunnel an c u) = {#[c, u]#}"
proof (cases "an_write an \<and> an_flush an")
  case True
  show ?thesis
  proof (cases rule: relay_streams_cases [of an c u])
    case 1
    with True show ?thesis by (intro that [of 0]) (simp_all add: serve_tunnel_def add_mset_commute)
  next
    case 2
    with True show ?thesis by (intro that [of 1]) (simp_all add: serve_tunnel_def add_mset_commute)
  next
    case 3
    with True show ?thesis
      by (intro that [of 2]) (simp_all add: serve_tunnel_def add_mset_commute numeral_3_eq_3 numeral_2_eq_2)
  qed
next
  case False
  then show ?thesis by (intro that [of 0]) (auto simp: serve_tunnel_def add_mset_commute)
qed

lemma tunnel_accounts:
  "accounts (DialUpstream d n (Some u) # Hijack (Some c) # TunnelsAdd [c, u] True # serve_tunnel an c u)"
proof (rule serve_tunnel_cases [of an c u])
  fix k assume "k \<le> (2 :: nat)" and t: "total acquires (serve_tunnel an c u) = {#}"
    "total closes (serve_tunnel an c u) = repeat_mset (Suc k) {#c, u#}"
    "total registers (serve_tunnel an c u) = {#}" "total unregisters (serve_tunnel an c u) = {#[c, u]#}"
  let ?acts = "DialUpstream d n (Some u) # Hijack (Some c) # TunnelsAdd [c, u] True # serve_tunnel an c u"
  have "total acquires ?acts = {#c, u#}" "total closes ?acts = repeat_mset (Suc k) {#c, u#}"
    "total registers ?acts = total unregisters ?acts"
    using t by (simp_all add: add_mset_commute)
  moreover have "count {#c, u#} x \<le> Suc k * count {#c, u#} x" "Suc k * count {#c, u#} x \<le> 3 * count {#c, u#} x" for x
    using \<open>k \<le> 2\<close> by (simp, intro mult_le_mono1, simp)
  ultimately show ?thesis unfolding accounts_def by (metis count_repeat_mset)
qed

lemma serveConnect_accounts: "accounts (fst (serveConnect tx dial an host st))"
  by (auto simp: serveConnect_def writeDialError_def
      split: sum.splits prod.splits option.splits intro: tunnel_accounts) (auto simp: accounts_def)

lemma servePlainHTTP_accounts: "accounts (fst (servePlainHTTP tx dial an u st))"
  by (auto simp: servePlainHTTP_def writeDialError_def accounts_def
      split: sum.splits prod.splits option.splits)

lemma tunnel_opens:
  "c \<noteq> u \<Longrightarrow> uses_open {u, c} (serve_tunnel an c u @ [HandlersDone])"
  by (cases rule: relay_streams_cases [of an c u]) (auto simp: serve_tunnel_def)

lemma serveConnect_opens:
  assumes "\<And>d n s c. fst (dial d n s) = Inr c \<Longrightarrow> an_hijack an \<noteq> Some c"
  shows "uses_open {} (fst (serveConnect tx dial an host st) @ [HandlersDone])"
proof -
  have "uses_open {c, u} (serve_tunnel an c u @ [HandlersDone])"
    if "dial d n st = (Inr u, st')" "an_hijack an = Some c" for d n u c st'
    using tunnel_opens [of c u an] assms [of d n st u] that by (auto simp: insert_commute)
  then show ?thesis
    using assms
    by (auto simp: serveConnect_def writeDialError_def
        split: sum.splits prod.splits option.splits) (metis fst_conv)+
qed

lemma servePlainHTTP_opens: "uses_open {} (fst (servePlainHTTP tx dial an u st) @ [HandlersDone])"
  by (auto simp: servePlainHTTP_def writeDialError_def split: sum.splits prod.splits option.splits)

section \<open>The connector's part\<close>

text \<open>A handler calls the connector at most once, with a parsed target.\<close>

lemma parseURLAuthority_wf:
  "parseURLAuthority tx host raw dflt = Inr (d, n) \<Longrightarrow> wf_destination d \<and> n \<noteq> 0"
  by (auto simp: parseURLAuthority_def res_simps dest: ParseDestination_wf split: if_splits sum.splits)

lemma parseAuthority_wf: "parseAuthority tx auth = Inr (d, n) \<Longrightarrow> wf_destination d \<and> n \<noteq> 0"
  by (auto simp: parseAuthority_def dest: parseURLAuthority_wf split: sum.splits)

definition dial_targets :: "'c http_action list \<Rightarrow> (destination \<times> 16 word) list" where
  "dial_targets acts = concat (map (\<lambda>a. case a of DialUpstream d n c \<Rightarrow> [(d, n)] | _ \<Rightarrow> []) acts)"

lemma dial_targets_wrap:
  "dial_targets (HandlersAdd True # acts @ [HandlersDone]) = dial_targets acts"
  by (simp add: dial_targets_def)

lemma ServeHTTP_admitted:
  "an_admitted an \<Longrightarrow> ServeHTTP tx dial an rq st =
     ([HandlersAdd True] @
        fst (if rq_method rq = ''CONNECT'' then serveConnect tx dial an (rq_host rq) st
             else servePlainHTTP tx dial an (rq_url rq) st) @ [HandlersDone],
      snd (if rq_method rq = ''CONNECT'' then serveConnect tx dial an (rq_host rq) st
           else servePlainHTTP tx dial an (rq_url rq) st))"
  by (simp add: ServeHTTP_def split_def)

lemma ServeHTTP_refused:
  "\<not> an_admitted an \<Longrightarrow> ServeHTTP tx dial an rq st =
     ([HandlersAdd False, Respond 503 ''proxy is shutting down''], st)"
  by (simp add: ServeHTTP_def)

lemma ServeHTTP_dials:
  "\<exists>ts. list_all (\<lambda>(d, n). wf_destination d) ts \<and> length ts \<le> 1 \<and>
     snd (ServeHTTP tx dial an rq st) = snd (dial_all dial ts st) \<and>
     dial_targets (fst (ServeHTTP tx dial an rq st)) = ts"
proof -
  have c: "\<exists>ts. list_all (\<lambda>(d, n). wf_destination d) ts \<and> length ts \<le> 1 \<and>
     snd (serveConnect tx dial an h st) = snd (dial_all dial ts st) \<and>
     dial_targets (fst (serveConnect tx dial an h st)) = ts" for h
  proof (cases "parseAuthority tx h")
    case (Inl e)
    then show ?thesis by (simp add: serveConnect_def dial_targets_def)
  next
    case (Inr t)
    obtain d n where t: "t = (d, n)" by (cases t)
    with Inr parseAuthority_wf have "wf_destination d" by blast
    with Inr t show ?thesis
      by (intro exI [of _ "[(d, n)]"])
        (auto simp: serveConnect_def dial_targets_def serve_tunnel_def writeDialError_def
          split: prod.splits sum.splits option.splits dest!: relay_streams_set)
  qed
  have p: "\<exists>ts. list_all (\<lambda>(d, n). wf_destination d) ts \<and> length ts \<le> 1 \<and>
     snd (servePlainHTTP tx dial an u st) = snd (dial_all dial ts st) \<and>
     dial_targets (fst (servePlainHTTP tx dial an u st)) = ts" for u
  proof (cases "url_scheme u = [] \<or> url_scheme u \<noteq> ''http'' \<or> url_host u = [] \<or> url_user u \<noteq> None \<or>
      \<not> is_ok (parseURLAuthority tx (url_hostname u) (url_port u) 80)")
    case True
    then show ?thesis
      by (auto simp: servePlainHTTP_def dial_targets_def is_ok_iff split: sum.splits)
  next
    case False
    then obtain d n where t: "parseURLAuthority tx (url_hostname u) (url_port u) 80 = Inr (d, n)"
      by (auto simp: is_ok_iff)
    with parseURLAuthority_wf have "wf_destination d" by blast
    with False t show ?thesis
      by (intro exI [of _ "[(d, n)]"])
        (auto simp: servePlainHTTP_def dial_targets_def writeDialError_def
          split: prod.splits sum.splits option.splits)
  qed
  show ?thesis
  proof (cases "an_admitted an")
    case True
    then show ?thesis
      using c [of "rq_host rq"] p [of "rq_url rq"]
      by (simp add: ServeHTTP_admitted [OF True] dial_targets_wrap)
  next
    case False
    then show ?thesis by (simp add: ServeHTTP_refused dial_targets_def)
  qed
qed

end
