(* ===== verification/Addr_Text.thy ===== *)
theory Addr_Text
  imports Netip
begin

text \<open>
  The text of an address parses back to the address: \<open>ParseAddr\<close> inverts \<open>Addr.String\<close> for
  IPv4, IPv6 with or without a zone, and IPv4-mapped addresses.  The code relies on this
  wherever an approved address travels as text (proxy authorities, dial addresses).
\<close>

section \<open>IPv4\<close>

lemma digit_not_dot [simp]: "is_digit c \<Longrightarrow> c \<noteq> CHR ''.''"
  by (auto simp: is_digit_def byte_def)

lemma v4_fields_Itoa:
  "n < 256 \<Longrightarrow> v4_fields prev (Itoa n @ rest) 0 0 oct =
     v4_fields (Some (digit_char (n mod 10))) rest n (length (Itoa n)) oct"
proof (induction n arbitrary: rest rule: Itoa.induct)
  case (1 n)
  show ?case
  proof (cases "n < 10")
    case True
    then show ?thesis by (simp add: Itoa.simps [of n])
  next
    case False
    then have "v4_fields prev (Itoa (n div 10) @ digit_char (n mod 10) # rest) 0 0 oct =
        v4_fields (Some (digit_char (n div 10 mod 10))) (digit_char (n mod 10) # rest) (n div 10)
          (length (Itoa (n div 10))) oct"
      using 1 by simp
    moreover have "n div 10 \<noteq> 0" using False by auto
    ultimately show ?thesis
      using False 1(2) by (simp add: Itoa.simps [of n])
  qed
qed

lemma v4_fields_dot:
  "n < 256 \<Longrightarrow> rest \<noteq> [] \<Longrightarrow> length oct < 3 \<Longrightarrow>
   v4_fields prev (Itoa n @ CHR ''.'' # rest) 0 0 oct = v4_fields (Some CHR ''.'') rest 0 0 (oct @ [n])"
  by (simp add: v4_fields_Itoa is_digit_def byte_def)
     (metis digit_not_dot is_digit_digit_char mod_less_divisor zero_less_numeral)

lemma v4_fields_quad:
  "a < 256 \<Longrightarrow> b < 256 \<Longrightarrow> c < 256 \<Longrightarrow> d < 256 \<Longrightarrow>
   v4_fields prev (Itoa a @ CHR ''.'' # Itoa b @ CHR ''.'' # Itoa c @ CHR ''.'' # Itoa d) 0 0 [] =
   Ok [a, b, c, d]"
  using v4_fields_Itoa [of d "Some CHR ''.''" "[]" "[a, b, c]"] by (simp add: v4_fields_dot)

definition octets4 :: "32 word \<Rightarrow> nat list" where
  "octets4 w = [unat w div 2 ^ 24, unat w div 2 ^ 16 mod 256, unat w div 2 ^ 8 mod 256, unat w mod 256]"

lemma fold_octets4: "foldl (\<lambda>n b. n * 256 + b) 0 (octets4 w) = unat w"
proof -
  define n where "n = unat w"
  have "n div 2 ^ 24 * 256 + n div 2 ^ 16 mod 256 = n div 2 ^ 16"
    using div_mult_mod_eq [of "n div 2 ^ 16" 256] by (simp add: div_mult2_eq [symmetric])
  moreover have "n div 2 ^ 16 * 256 + n div 2 ^ 8 mod 256 = n div 2 ^ 8"
    using div_mult_mod_eq [of "n div 2 ^ 8" 256] by (simp add: div_mult2_eq [symmetric])
  moreover have "n div 2 ^ 8 * 256 + n mod 256 = n"
    using div_mult_mod_eq [of n 256] by simp
  ultimately show ?thesis by (simp add: octets4_def n_def)
qed

lemma octets4_small: "list_all (\<lambda>b. b < 256) (octets4 w)"
proof -
  have "unat w < 2 ^ 32" using unsigned_less [of w] by simp
  then have "unat w div 2 ^ 24 < 256" by (simp add: less_mult_imp_div_less)
  then show ?thesis by (simp add: octets4_def)
qed

lemma v4_fields_string: "v4_fields prev (addr4_string w) 0 0 [] = Ok (octets4 w)"
  using octets4_small [of w] by (simp add: addr4_string_def octets4_def v4_fields_quad)

lemma parse_v4_string: "parse_v4 (addr4_string w) = Ok (Addr4 w)"
  by (simp add: parse_v4_def v4_fields_string bytes_word_def fold_octets4)

lemma parse_dispatch_skip:
  "CHR ''.'' \<notin> set xs \<Longrightarrow> CHR '':'' \<notin> set xs \<Longrightarrow> CHR ''%'' \<notin> set xs \<Longrightarrow>
   parse_dispatch s (xs @ ys) = parse_dispatch s ys"
  by (induction xs) auto

lemma ParseAddr_addr4: "ParseAddr (addr4_string w) = Ok (Addr4 w)"
  unfolding ParseAddr_def
  by (subst (2) addr4_string_def) (simp add: parse_dispatch_skip parse_v4_string)

section \<open>Hexadecimal groups\<close>

lemma hex_val_marks [simp]:
  "hex_val CHR ''.'' = None" "hex_val CHR ''%'' = None" "hex_val CHR '':'' = None"
  "hex_val CHR ''['' = None" "hex_val CHR '']'' = None"
  by (simp_all add: hex_val_def is_digit_def byte_def)

lemma hex_val_hex_char [simp]: "d < 16 \<Longrightarrow> hex_val (hex_char d) = Some d"
  by (auto simp: hex_val_def hex_char_def is_digit_def byte_def)

lemma hex_string_nonempty [simp]: "hex_string n \<noteq> []"
  by (subst hex_string.simps) simp

definition stops_hex :: "string \<Rightarrow> bool" where
  "stops_hex rest \<longleftrightarrow> rest = [] \<or> hex_val (hd rest) = None"

lemma scan_hex_stop: "stops_hex rest \<Longrightarrow> scan_hex rest off acc = Ok (off, acc, rest)"
  by (cases rest) (simp_all add: stops_hex_def)

text \<open>The scanner reads a number below \<open>16 ^ (k + 1)\<close> with at most \<open>k + 1\<close> digits.\<close>

lemma scan_hex_string:
  "n < 16 ^ Suc k \<Longrightarrow> k \<le> 3 \<Longrightarrow>
   \<exists>off. off \<le> Suc k \<and> 0 < off \<and> scan_hex (hex_string n @ rest) 0 0 = scan_hex rest off n"
proof (induction k arbitrary: n rest)
  case 0
  then show ?case by (intro exI [of _ 1]) (simp add: hex_string.simps)
next
  case (Suc k)
  show ?case
  proof (cases "n < 16")
    case True
    then show ?thesis by (intro exI [of _ 1]) (simp add: hex_string.simps)
  next
    case False
    have "n div 16 < 16 ^ Suc k" using Suc.prems(1) by (simp add: less_mult_imp_div_less mult.commute)
    from Suc.IH [OF this, of "hex_char (n mod 16) # rest"] Suc.prems(2)
    obtain off where off: "off \<le> Suc k" "0 < off"
      "scan_hex (hex_string (n div 16) @ hex_char (n mod 16) # rest) 0 0 =
        scan_hex (hex_char (n mod 16) # rest) off (n div 16)" by auto
    have "(16 :: nat) ^ Suc (Suc k) \<le> 16 ^ 4"
      using Suc.prems(2) by (intro power_increasing) simp_all
    then have "n < 65536" using Suc.prems(1) by simp
    then have "scan_hex (hex_char (n mod 16) # rest) off (n div 16) = scan_hex rest (Suc off) n"
      using off Suc.prems(2) by simp
    with off False show ?thesis
      by (intro exI [of _ "Suc off"]) (simp add: hex_string.simps [of n])
  qed
qed

lemma scan_hex_group:
  "n < 65536 \<Longrightarrow> stops_hex rest \<Longrightarrow>
   \<exists>off. 0 < off \<and> scan_hex (hex_string n @ rest) 0 0 = Ok (off, n, rest)"
  using scan_hex_string [of n 3 rest] by (auto simp: scan_hex_stop)

lemma stops_hex_simps [simp]: "stops_hex []" "stops_hex (CHR '':'' # cs)" "stops_hex (CHR ''.'' # cs)"
  by (simp_all add: stops_hex_def hex_val_def is_digit_def byte_def)

section \<open>Sequences of groups\<close>

definition group_bytes :: "nat list \<Rightarrow> nat list" where
  "group_bytes gs = concat (map (\<lambda>g. [g div 256, g mod 256]) gs)"

lemma group_bytes_simps [simp]:
  "group_bytes [] = []" "group_bytes (g # gs) = g div 256 # g mod 256 # group_bytes gs"
  "group_bytes (gs @ hs) = group_bytes gs @ group_bytes hs"
  "length (group_bytes gs) = 2 * length gs"
  by (induction gs) (simp_all add: group_bytes_def)

abbreviation groups_text :: "nat list \<Rightarrow> string" where
  "groups_text gs \<equiv> JoinWith CHR '':'' (map hex_string gs)"

lemma hex_string_hd_not_colon: "hex_string n = c # cs \<Longrightarrow> c \<noteq> CHR '':''"
proof (induction n arbitrary: c cs rule: hex_string.induct)
  case (1 n)
  show ?case
  proof (cases "n < 16")
    case True
    then have "hex_string n = [hex_char n]" by (simp add: hex_string.simps)
    then have "hex_val c = Some n" using 1(2) True by simp
    then show ?thesis by (auto simp: hex_val_def is_digit_def byte_def)
  next
    case False
    then have "hex_string n = hex_string (n div 16) @ [hex_char (n mod 16)]"
      by (simp add: hex_string.simps)
    moreover obtain d ds where "hex_string (n div 16) = d # ds"
      by (cases "hex_string (n div 16)") auto
    ultimately show ?thesis using 1 False by auto
  qed
qed

text \<open>One turn of the loop: the last group, a group before another one, a group before the ellipsis.\<close>

lemma v6_loop_last:
  "n < 65536 \<Longrightarrow> length ip < 16 \<Longrightarrow>
   v6_loop (hex_string n) ip ell = Ok (ip @ [n div 256, n mod 256], ell, [])"
  using scan_hex_group [of n "[]"] by (auto simp: v6_loop.simps [of "hex_string n"])

lemma v6_loop_group:
  assumes "n < 65536" "length ip < 16" "cs \<noteq> []" "hd cs \<noteq> CHR '':''"
  shows "v6_loop (hex_string n @ CHR '':'' # cs) ip ell = v6_loop cs (ip @ [n div 256, n mod 256]) ell"
proof -
  obtain off where "0 < off" "scan_hex (hex_string n @ CHR '':'' # cs) 0 0 = Ok (off, n, CHR '':'' # cs)"
    using scan_hex_group [OF assms(1), of "CHR '':'' # cs"] by auto
  with assms show ?thesis
    by (cases cs; subst v6_loop.simps) simp_all
qed

lemma v6_loop_ellipsis:
  assumes "n < 65536" "length ip < 16"
  shows "v6_loop (hex_string n @ ''::'' @ cs) ip None =
    (let ip' = ip @ [n div 256, n mod 256] in
     if cs = [] then Ok (ip', Some (length ip'), []) else v6_loop cs ip' (Some (length ip')))"
proof -
  obtain off where "0 < off" "scan_hex (hex_string n @ ''::'' @ cs) 0 0 = Ok (off, n, ''::'' @ cs)"
    using scan_hex_group [OF assms(1), of "''::'' @ cs"] by auto
  with assms show ?thesis by (subst v6_loop.simps) (simp add: Let_def)
qed

lemma groups_text_hd: "gs \<noteq> [] \<Longrightarrow> groups_text gs \<noteq> [] \<and> hd (groups_text gs) \<noteq> CHR '':''"
proof (cases gs)
  case (Cons g hs)
  obtain c cs where "hex_string g = c # cs" by (cases "hex_string g") auto
  with Cons hex_string_hd_not_colon show ?thesis by (cases hs) auto
qed simp

lemma v6_loop_groups:
  "gs \<noteq> [] \<Longrightarrow> list_all (\<lambda>g. g < 65536) gs \<Longrightarrow> length ip + 2 * length gs \<le> 16 \<Longrightarrow>
   v6_loop (groups_text gs) ip ell = Ok (ip @ group_bytes gs, ell, [])"
proof (induction gs arbitrary: ip)
  case Nil
  then show ?case by simp
next
  case (Cons g gs)
  show ?case
  proof (cases gs)
    case Nil
    with Cons show ?thesis by (simp add: v6_loop_last)
  next
    case gs: (Cons h hs)
    then have "groups_text (g # gs) = hex_string g @ CHR '':'' # groups_text gs" by simp
    with Cons groups_text_hd [of gs] gs show ?thesis by (simp add: v6_loop_group)
  qed
qed

lemma v6_loop_compressed:
  "gs \<noteq> [] \<Longrightarrow> list_all (\<lambda>g. g < 65536) gs \<Longrightarrow> list_all (\<lambda>g. g < 65536) hs \<Longrightarrow>
   length ip + 2 * length gs + 2 * length hs \<le> 16 \<Longrightarrow>
   v6_loop (groups_text gs @ ''::'' @ groups_text hs) ip None =
     Ok (ip @ group_bytes gs @ group_bytes hs, Some (length ip + 2 * length gs), [])"
proof (induction gs arbitrary: ip)
  case Nil
  then show ?case by simp
next
  case (Cons g gs)
  show ?case
  proof (cases gs)
    case Nil
    with Cons groups_text_hd [of hs] show ?thesis
      by (cases "hs = []") (auto simp: v6_loop_ellipsis [simplified] Let_def v6_loop_groups)
  next
    case gs: (Cons h hs')
    then have "groups_text (g # gs) @ ''::'' @ groups_text hs =
        hex_string g @ CHR '':'' # (groups_text gs @ ''::'' @ groups_text hs)" by simp
    moreover have "hd (groups_text gs @ ''::'' @ groups_text hs) \<noteq> CHR '':''"
      using groups_text_hd [of gs] gs by (simp add: hd_append)
    ultimately show ?thesis
      using Cons gs v6_loop_group [of g ip "groups_text gs @ ''::'' @ groups_text hs" None] by simp
  qed
qed

section \<open>The compressed run\<close>

definition run_ok :: "nat list \<Rightarrow> nat \<times> nat \<Rightarrow> bool" where
  "run_ok g = (\<lambda>(zs, ze). zs = 255 \<and> ze = 255 \<or>
     zs < ze \<and> ze \<le> length g \<and> (\<forall>k \<in> {zs..<ze}. g ! k = 0))"

lemma takeWhile_zero_run:
  "i < length g \<Longrightarrow> l = length (takeWhile (\<lambda>x. x = 0) (drop i g)) \<Longrightarrow>
   i + l \<le> length g \<and> (\<forall>k \<in> {i..<i + l}. g ! k = (0 :: nat))"
proof -
  assume i: "i < length g" and l: "l = length (takeWhile (\<lambda>x. x = 0) (drop i g))"
  have "l \<le> length g - i" using length_takeWhile_le [of "\<lambda>x. x = 0" "drop i g"] l by simp
  moreover have "g ! k = 0" if "k \<in> {i..<i + l}" for k
  proof -
    have "drop i g ! (k - i) = takeWhile (\<lambda>x. x = 0) (drop i g) ! (k - i)"
      using that l by (intro takeWhile_nth [symmetric]) auto
    moreover have "takeWhile (\<lambda>x. x = 0) (drop i g) ! (k - i) \<in> set (takeWhile (\<lambda>x. x = 0) (drop i g))"
      using that l by (intro nth_mem) auto
    ultimately show ?thesis using that i by (auto dest: set_takeWhileD)
  qed
  ultimately show ?thesis using i by simp
qed

lemma zero_run_ok:
  assumes "length g = 8" shows "run_ok g (zero_run g)"
proof -
  let ?f = "\<lambda>i (zs, ze).
     let l = length (takeWhile (\<lambda>x. x = 0) (drop i g)) in
     if 2 \<le> l \<and> ze - zs < l then (i, i + l) else (zs, ze)"
  have step: "run_ok g (?f i z)" if "i < 8" "run_ok g z" for i z
    using that takeWhile_zero_run [of i g] assms by (auto simp: run_ok_def Let_def split: prod.splits)
  have "run_ok g (fold ?f is z)" if "set is \<subseteq> {..<8}" "run_ok g z" for "is" z
    using that by (induction "is" arbitrary: z) (simp_all add: step del: split_paired_All)
  moreover have "set [0..<8] \<subseteq> {..<8}" "run_ok g (255, 255)" by (auto simp: run_ok_def)
  ultimately show ?thesis unfolding zero_run_def by blast
qed

lemma zero_run_split:
  assumes "length g = 8" "zero_run g = (zs, ze)" "zs \<noteq> 255"
  shows "zs < ze \<and> ze \<le> 8 \<and> g = take zs g @ replicate (ze - zs) 0 @ drop ze g"
proof -
  have r: "zs < ze" "ze \<le> 8" "\<forall>k \<in> {zs..<ze}. g ! k = 0"
    using zero_run_ok [OF assms(1)] assms by (auto simp: run_ok_def)
  have "g = take zs g @ replicate (ze - zs) 0 @ drop ze g"
  proof (rule nth_equalityI)
    show "length g = length (take zs g @ replicate (ze - zs) 0 @ drop ze g)"
      using r assms(1) by simp
  next
    fix i assume "i < length g"
    then show "g ! i = (take zs g @ replicate (ze - zs) 0 @ drop ze g) ! i"
      using r assms(1) by (auto simp: nth_append)
  qed
  with r show ?thesis by blast
qed

section \<open>IPv6\<close>

lemma addr6_groups_props:
  "length (addr6_groups w) = 8" "list_all (\<lambda>g. g < 65536) (addr6_groups w)"
  by (simp_all add: addr6_groups_def list_all_iff)

lemma fold_group_bytes:
  "list_all (\<lambda>g. g < 65536) gs \<Longrightarrow>
   foldl (\<lambda>n b. n * 256 + b) z (group_bytes gs) = foldl (\<lambda>n g. n * 65536 + g) z gs"
proof (induction gs arbitrary: z)
  case (Cons g gs)
  have "(z * 256 + g div 256) * 256 + g mod 256 = z * 65536 + g"
    using div_mult_mod_eq [of g 256] by (simp add: algebra_simps)
  with Cons show ?case by (simp add: algebra_simps)
qed simp

lemma bytes_word_groups: "bytes_word (group_bytes (addr6_groups w)) = w"
proof -
  define n where "n = unat w"
  have less: "n < 2 ^ 128" using unsigned_less [of w] by (simp add: n_def)
  have "foldl (\<lambda>n g. n * 65536 + g) 0 (map (\<lambda>i. n div 2 ^ (16 * (7 - i)) mod 65536) [0..<k]) =
      n div 2 ^ (16 * (8 - k))" if "k \<le> 8" for k
    using that
  proof (induction k)
    case 0
    then show ?case using less by simp
  next
    case (Suc k)
    define j where "j = 16 * (7 - k)"
    have j: "16 * (8 - k) = j + 16" "16 * (8 - Suc k) = j" "16 * (7 - k) = j"
      using Suc.prems by (simp_all add: j_def)
    have "n div 2 ^ (j + 16) * 65536 + n div 2 ^ j mod 65536 = n div 2 ^ j"
      using div_mult_mod_eq [of "n div 2 ^ j" 65536]
      by (simp add: div_mult2_eq [symmetric] power_add)
    with Suc show ?case by (simp add: j del: diff_Suc_Suc)
  qed
  from this [of 8] have "foldl (\<lambda>n g. n * 65536 + g) 0 (addr6_groups w) = n"
    by (simp add: addr6_groups_def n_def del: upt.simps)
  then show ?thesis
    by (simp add: bytes_word_def fold_group_bytes addr6_groups_props n_def)
qed

lemma group_bytes_replicate: "group_bytes (replicate k 0) = replicate (2 * k) 0"
  by (induction k) simp_all

lemma HasPrefix_groups: "gs \<noteq> [] \<Longrightarrow> \<not> HasPrefix (groups_text gs @ cs) ''::''"
  using groups_text_hd [of gs] by (cases "groups_text gs") (auto simp: HasPrefix_def)

text \<open>The text before the zone.\<close>

definition parse_v6_body :: "string \<Rightarrow> string \<Rightarrow> (parse_error, addr) result" where
  "parse_v6_body zone s =
     (if HasPrefix s ''::'' then
        (if length s = 2 then Ok (Addr6 0 zone)
         else rbind (v6_loop (drop 2 s) [] (Some 0)) (\<lambda>(ip, ell, rest). v6_finish zone ip ell rest))
      else rbind (v6_loop s [] None) (\<lambda>(ip, ell, rest). v6_finish zone ip ell rest))"

lemma parse_v6_zone:
  "CHR ''%'' \<notin> set s \<Longrightarrow>
   parse_v6 (s @ (if z = [] then [] else CHR ''%'' # z)) = parse_v6_body z s"
proof -
  assume s: "CHR ''%'' \<notin> set s"
  then have none: "IndexByte s CHR ''%'' = None" by simp
  have "Cut (s @ (if z = [] then [] else CHR ''%'' # z)) CHR ''%'' = (s, z, z \<noteq> [])"
    using s by (simp add: Cut_def none IndexByte_append)
  then show ?thesis by (simp add: parse_v6_def parse_v6_body_def)
qed

lemma parse_v6_body_string: "parse_v6_body z (addr6_string w) = Ok (Addr6 w z)"
proof -
  let ?g = "addr6_groups w"
  obtain zs ze where zr: "zero_run ?g = (zs, ze)" by (cases "zero_run ?g")
  note g = addr6_groups_props [of w]
  show ?thesis
  proof (cases "zs = 255")
    case True
    have ne: "?g \<noteq> []" using g(1) by auto
    have "addr6_string w = groups_text ?g" by (simp add: addr6_string_def zr True)
    then show ?thesis
      using v6_loop_groups [OF ne g(2), of "[]" None] g(1) HasPrefix_groups [OF ne, of "[]"]
      by (simp add: parse_v6_body_def v6_finish_def bytes_word_groups)
  next
    case False
    let ?a = "take zs ?g" and ?b = "drop ze ?g"
    have z: "zs < ze" "ze \<le> 8" "?g = ?a @ replicate (ze - zs) 0 @ ?b"
      using zero_run_split [OF g(1) zr False] by auto
    have small: "list_all (\<lambda>g. g < 65536) ?a" "list_all (\<lambda>g. g < 65536) ?b"
      using g(2) by (auto simp: list_all_iff dest: in_set_takeD in_set_dropD)
    have len: "length ?a = zs" "length ?b = 8 - ze" using z g(1) by auto
    have s: "addr6_string w = groups_text ?a @ ''::'' @ groups_text ?b"
      using False by (simp add: addr6_string_def zr Let_def)
    have bytes: "group_bytes ?a @ replicate (16 - (2 * zs + 2 * (8 - ze))) 0 @ group_bytes ?b =
        group_bytes ?g"
    proof -
      have "16 - (2 * zs + 2 * (8 - ze)) = 2 * (ze - zs)" using z by simp
      then have "group_bytes ?a @ replicate (16 - (2 * zs + 2 * (8 - ze))) 0 @ group_bytes ?b =
          group_bytes (?a @ replicate (ze - zs) 0 @ ?b)" by (simp add: group_bytes_replicate)
      then show ?thesis using z(3) by simp
    qed
    have fin: "v6_finish z (group_bytes ?a @ group_bytes ?b) (Some (2 * zs)) [] = Ok (Addr6 w z)"
      using z bytes len bytes_word_groups [of w] by (simp add: v6_finish_def)
    show ?thesis
    proof (cases "?a = []")
      case True
      then have zs0: "zs = 0" using len(1) by (metis list.size(3))
      show ?thesis
      proof (cases "?b = []")
        case True
        then have "ze = 8" using len z by simp
        then have "?g = replicate 8 0" using z(3) zs0 True by simp
        then have "w = 0"
          using bytes_word_groups [of w] by (simp add: bytes_word_def group_bytes_replicate)
             (simp add: numeral_eq_Suc)
        moreover have "addr6_string w = ''::''" using s True zs0 by simp
        ultimately show ?thesis by (simp only: parse_v6_body_def) (simp add: HasPrefix_def)
      next
        case False
        then have "groups_text ?b \<noteq> []" using groups_text_hd by blast
        with False fin zs0 len small v6_loop_groups [OF False small(2), of "[]" "Some 0"] show ?thesis
          by (simp add: parse_v6_body_def s HasPrefix_def)
      qed
    next
      case False
      have "v6_loop (addr6_string w) [] None =
          Ok (group_bytes ?a @ group_bytes ?b, Some (2 * zs), [])"
        using v6_loop_compressed [OF False small, of "[]"] z len by (simp add: s)
      moreover have "\<not> HasPrefix (addr6_string w) ''::''"
        unfolding s by (rule HasPrefix_groups [OF False])
      ultimately show ?thesis using fin by (simp add: parse_v6_body_def)
    qed
  qed
qed

section \<open>IPv4-mapped addresses\<close>

text \<open>A decimal octet also passes the hexadecimal scanner, as a number that fits.\<close>

lemma hex_val_digit_char [simp]: "d < 10 \<Longrightarrow> hex_val (digit_char d) = Some d"
  by (simp add: hex_val_def is_digit_def)

lemma scan_hex_octet:
  assumes "n < 256"
  shows "\<exists>off acc. 0 < off \<and> scan_hex (Itoa n @ CHR ''.'' # rest) 0 0 = Ok (off, acc, CHR ''.'' # rest)"
proof -
  have stop: "scan_hex (CHR ''.'' # rest) off acc = Ok (off, acc, CHR ''.'' # rest)" for off acc
    by (intro scan_hex_stop) simp
  consider "n < 10" | "10 \<le> n" "n < 100" | "100 \<le> n" by linarith
  then show ?thesis
  proof cases
    case 1
    then show ?thesis by (simp add: Itoa.simps [of n] stop del: scan_hex.simps(1))
  next
    case 2
    then have "n div 10 < 10" by simp
    then have "n div 10 * 16 + n mod 10 \<le> 65535" by simp
    with 2 \<open>n div 10 < 10\<close> show ?thesis
      by (simp add: Itoa.simps [of n] Itoa.simps [of "n div 10"] stop)
  next
    case 3
    have d: "n div 10 div 10 < 10" "\<not> n div 10 < 10" using assms 3 by simp_all
    have "n div 10 div 10 * 16 + n div 10 mod 10 \<le> 160" using d(1) by simp
    then have "(n div 10 div 10 * 16 + n div 10 mod 10) * 16 + n mod 10 \<le> 65535" by simp
    with d 3 show ?thesis
      by (simp add: Itoa.simps [of n] Itoa.simps [of "n div 10"] Itoa.simps [of "n div 10 div 10"] stop)
  qed
qed

lemma v6_loop_embedded:
  assumes "length ip + 4 \<le> 16"
  shows "v6_loop (addr4_string w) ip (Some e) = Ok (ip @ octets4 w, Some e, [])"
proof -
  have "unat w div 2 ^ 24 < 256" using octets4_small [of w] by (simp add: octets4_def)
  then obtain off acc rest where scan: "scan_hex (addr4_string w) 0 0 = Ok (off, acc, CHR ''.'' # rest)" "0 < off"
    using scan_hex_octet unfolding addr4_string_def by fastforce
  show ?thesis
    using assms scan by (subst v6_loop.simps) (simp add: v4_fields_string)
qed

lemma v6_loop_ffff:
  "v6_loop (''ffff:'' @ addr4_string w) [] (Some 0) = Ok ([255, 255] @ octets4 w, Some 0, [])"
proof -
  have four: "v6_loop (addr4_string w) [255, 255] (Some 0) = Ok ([255, 255] @ octets4 w, Some 0, [])"
    by (rule v6_loop_embedded) simp
  have hex: "hex_val CHR ''f'' = Some 15" "hex_val CHR '':'' = None"
    by (simp_all add: hex_val_def is_digit_def byte_def)
  obtain c cs where c: "addr4_string w = c # cs" "c \<noteq> CHR '':''"
  proof -
    obtain c cs where "Itoa (unat w div 2 ^ 24) = c # cs" by (cases "Itoa (unat w div 2 ^ 24)") auto
    moreover from this have "is_digit c" using Itoa_digits [of "unat w div 2 ^ 24"] by simp
    ultimately show thesis
      by (intro that [of c "tl (addr4_string w)"]) (auto simp: addr4_string_def is_digit_def byte_def)
  qed
  show ?thesis
    using four c by (subst v6_loop.simps) (simp add: hex)
qed

lemma mapped_bytes:
  assumes "drop_bit 32 (w :: 128 word) = 65535"
  shows "bytes_word (replicate 10 0 @ [255, 255] @ octets4 (ucast w)) = w"
proof -
  have "foldl (\<lambda>n b. n * 256 + b) z (octets4 u) = z * 2 ^ 32 + foldl (\<lambda>n b. n * 256 + b) 0 (octets4 u)" for z u
    by (simp add: octets4_def algebra_simps)
  then have fold: "foldl (\<lambda>n b. n * 256 + b) z (octets4 u) = z * 2 ^ 32 + unat u" for z u
    by (simp only: fold_octets4)
  have "foldl (\<lambda>n b. n * 256 + b) 0 (replicate 10 0 @ [255, 255] @ octets4 (ucast w)) =
      65535 * 2 ^ 32 + unat (ucast w :: 32 word)"
    by (simp add: fold) (simp add: numeral_eq_Suc)
  also have "\<dots> = unat w div 2 ^ 32 * 2 ^ 32 + unat w mod 2 ^ 32"
  proof -
    have "drop_bit 32 (unat w) = 65535" using assms unat_drop_bit_eq [of 32 w] by simp
    then have "unat w div 2 ^ 32 = 65535" by (simp only: drop_bit_eq_div)
    moreover have "unat (ucast w :: 32 word) = unat w mod 2 ^ 32"
      by (simp add: unsigned_ucast_eq take_bit_eq_mod)
    ultimately show ?thesis by simp
  qed
  also have "\<dots> = unat w" by (rule div_mult_mod_eq)
  finally show ?thesis by (simp add: bytes_word_def)
qed

lemma parse_v6_body_mapped:
  assumes "drop_bit 32 w = 65535"
  shows "parse_v6_body z (''::ffff:'' @ addr4_string (ucast w)) = Ok (Addr6 w z)"
  using v6_loop_ffff [of "ucast w"] mapped_bytes [OF assms]
  by (simp add: parse_v6_body_def HasPrefix_def v6_finish_def octets4_def)

section \<open>The round trip\<close>

lemma hex_string_chars: "c \<in> set (hex_string n) \<Longrightarrow> hex_val c \<noteq> None"
proof (induction n rule: hex_string.induct)
  case (1 n)
  then show ?case by (auto simp: hex_string.simps [of n] split: if_splits)
qed

lemma set_JoinWith: "set (JoinWith c xs) \<subseteq> insert c (\<Union> (set ` set xs))"
  by (induction xs rule: JoinWith.induct) auto

lemma groups_text_chars: "c \<in> set (groups_text gs) \<Longrightarrow> c = CHR '':'' \<or> hex_val c \<noteq> None"
  using set_JoinWith [of "CHR '':''" "map hex_string gs"] hex_string_chars by auto

lemma addr6_string_cases:
  "addr6_string w = groups_text (addr6_groups w) \<or>
   (\<exists>zs ze. addr6_string w =
      groups_text (take zs (addr6_groups w)) @ ''::'' @ groups_text (drop ze (addr6_groups w)))"
proof (cases "zero_run (addr6_groups w)")
  case (Pair zs ze)
  then show ?thesis by (cases "zs = 255") (auto simp: addr6_string_def Let_def)
qed

lemma addr6_string_chars: "c \<in> set (addr6_string w) \<Longrightarrow> c = CHR '':'' \<or> hex_val c \<noteq> None"
  using addr6_string_cases [of w] groups_text_chars [of c] by (elim disjE exE) auto

lemma addr4_string_chars: "c \<in> set (addr4_string w) \<Longrightarrow> c = CHR ''.'' \<or> is_digit c"
  using Itoa_digits by (auto simp: addr4_string_def list_all_iff)

lemma colon_in_groups: "2 \<le> length gs \<Longrightarrow> CHR '':'' \<in> set (groups_text gs)"
  by (cases gs; cases "tl gs") auto

lemma addr6_string_colon: "CHR '':'' \<in> set (addr6_string w)"
  using colon_in_groups [of "addr6_groups w"] addr6_groups_props(1) [of w]
    addr6_string_cases [of w]
  by (elim disjE exE) auto

lemma parse_dispatch_colon:
  "CHR '':'' \<in> set u \<Longrightarrow> \<forall>c \<in> set u. c = CHR '':'' \<or> hex_val c \<noteq> None \<Longrightarrow>
   parse_dispatch s (u @ v) = parse_v6 s"
proof (induction u)
  case (Cons c u)
  show ?case
  proof (cases "c = CHR '':''")
    case False
    then have "c \<noteq> CHR ''.''" "c \<noteq> CHR ''%''" using Cons.prems(2) hex_val_marks by fastforce+
    with Cons False show ?thesis by simp
  qed simp
qed simp

lemma ParseAddr_string:
  assumes "IsValid a"
  shows "ParseAddr (addr_string a) = Ok a"
proof (cases a)
  case NoAddr
  then show ?thesis using assms by simp
next
  case (Addr4 w)
  then show ?thesis by (simp add: ParseAddr_addr4)
next
  case (Addr6 w z)
  let ?zone = "if z = [] then [] else CHR ''%'' # z"
  show ?thesis
  proof (cases "drop_bit 32 w = 65535")
    case True
    have "CHR ''%'' \<notin> set (''::ffff:'' @ addr4_string (ucast w))"
      using addr4_string_chars [of "CHR ''%''" "ucast w"] by (auto simp: is_digit_def byte_def)
    from parse_v6_zone [OF this, of z] parse_v6_body_mapped [OF True, of z] Addr6 True
    show ?thesis by (simp add: ParseAddr_def)
  next
    case False
    have "CHR ''%'' \<notin> set (addr6_string w)"
      using addr6_string_chars [of "CHR ''%''" w] by auto
    from parse_v6_zone [OF this, of z] have "parse_v6 (addr6_string w @ ?zone) = Ok (Addr6 w z)"
      by (simp add: parse_v6_body_string)
    moreover have "parse_dispatch s (addr6_string w @ ?zone) = parse_v6 s" for s
      using addr6_string_colon addr6_string_chars by (intro parse_dispatch_colon) blast+
    ultimately show ?thesis using Addr6 False by (simp add: ParseAddr_def)
  qed
qed

text \<open>The text of an address without a zone, or with one free of brackets, survives a join with a port.\<close>

lemma host_clean_addr:
  assumes "host_clean (Zone a)" shows "host_clean (addr_string a)"
proof (cases a)
  case NoAddr
  then show ?thesis by (simp add: host_clean_def)
next
  case (Addr4 w)
  then show ?thesis
    using addr4_string_chars [of "CHR ''[''" w] addr4_string_chars [of "CHR '']''" w]
    by (auto simp: host_clean_def is_digit_def byte_def)
next
  case (Addr6 w z)
  then show ?thesis
    using assms addr4_string_chars [of "CHR ''[''" "ucast w"] addr4_string_chars [of "CHR '']''" "ucast w"]
      addr6_string_chars [of "CHR ''[''" w] addr6_string_chars [of "CHR '']''" w]
    by (auto simp: host_clean_def is_digit_def byte_def)
qed

end
