(* ===== verification/Destination_Text.thy ===== *)
theory Destination_Text
  imports Addr_Text Destination
begin

text \<open>
  A destination as text: the hostname, or the address with its zone.  Parsing the text gives
  the destination back, provided a hostname does not itself read as an IP address.
\<close>

definition destination_text :: "destination \<Rightarrow> string" where
  "destination_text d = (if IsHostname d then d_hostname d else addr_string (RoutingAddress d))"

definition text_stable :: "text_lib \<Rightarrow> destination \<Rightarrow> bool" where
  "text_stable tx d \<longleftrightarrow> (IsHostname d \<longrightarrow>
     NormalizeHostname tx (d_hostname d) = Ok (d_hostname d) \<and> \<not> is_ok (ParseAddr (d_hostname d)))"

lemma parseAddressDestination_Routing:
  assumes "wf_destination d" "\<not> IsHostname d"
  shows "parseAddressDestination (RoutingAddress d) = Ok d"
proof (cases "d_zone d = []")
  case True
  with assms have "canonical_addr (d_address d)" "d_hostname d = []"
    by (simp_all add: wf_destination_def IsHostname_def)
  with True show ?thesis
    by (cases d) (simp add: parseAddressDestination_def RoutingAddress_def canonical_addr_def Unmap_unchanged)
next
  case False
  with assms have d: "canonical_addr (d_address d)" "valid_zone (d_zone d)" "Is6 (d_address d)"
    "d_hostname d = []"
    by (simp_all add: wf_destination_def IsHostname_def)
  then obtain w where w: "d_address d = Addr6 w []"
    by (cases "d_address d") (auto simp: canonical_addr_def)
  with d have "\<not> Is4In6 (Addr6 w (d_zone d))" by (simp add: canonical_addr_def)
  with w d False show ?thesis
    by (cases d) (simp add: parseAddressDestination_def RoutingAddress_def res_simps)
qed

lemma IsValid_RoutingAddress:
  "wf_destination d \<Longrightarrow> \<not> IsHostname d \<Longrightarrow> IsValid (RoutingAddress d)"
  by (cases "d_address d")
    (auto simp: wf_destination_def RoutingAddress_def canonical_addr_def split: if_splits)

lemma ParseDestination_text:
  assumes "wf_destination d" "text_stable tx d"
  shows "ParseDestination tx (destination_text d) = Ok d"
proof (cases "IsHostname d")
  case True
  then have "NormalizeHostname tx (d_hostname d) = Ok (d_hostname d)"
    "\<exists>e. ParseAddr (d_hostname d) = Err e" "d_address d = NoAddr" "d_zone d = []"
    using assms by (cases "ParseAddr (d_hostname d)"; auto simp: text_stable_def wf_destination_def)+
  with True show ?thesis by (cases d) (auto simp: ParseDestination_def destination_text_def)
next
  case False
  then show ?thesis
    using parseAddressDestination_Routing [OF assms(1) False]
      ParseAddr_string [OF IsValid_RoutingAddress [OF assms(1) False]]
    by (simp add: ParseDestination_def destination_text_def)
qed

text \<open>Hostnames and zones are free of brackets and colons, so a port can be joined to the text.\<close>

lemma zone_char_clean: "\<not> zone_char CHR ''[''" "\<not> zone_char CHR '']''"
  by (simp_all add: zone_char_def is_lower_def is_upper_def is_digit_def byte_def)

lemma valid_zone_clean: "valid_zone z \<Longrightarrow> host_clean z"
  using zone_char_clean by (auto simp: valid_zone_def host_clean_def list_all_iff)

lemma canonical_hostname_clean:
  assumes "canonical_hostname h" shows "host_clean h"
  using canonical_hostname_chars [OF assms] by (force simp: host_clean_def)

lemma destination_text_clean:
  assumes "wf_destination d" shows "host_clean (destination_text d)"
proof (cases "IsHostname d")
  case True
  then show ?thesis
    using assms canonical_hostname_clean by (simp add: wf_destination_def destination_text_def)
next
  case False
  then have "host_clean (Zone (RoutingAddress d))"
    using RoutingAddress_zone [OF assms] valid_zone_clean assms by (simp add: wf_destination_def)
  with False show ?thesis by (simp add: destination_text_def host_clean_addr)
qed

lemma destination_text_nonempty:
  assumes "wf_destination d" shows "destination_text d \<noteq> []"
proof (cases "IsHostname d")
  case False
  have "\<not> is_ok (ParseAddr [])" by (simp add: ParseAddr_def)
  then have "addr_string (RoutingAddress d) \<noteq> []"
    using ParseAddr_string [OF IsValid_RoutingAddress [OF assms False]] by auto
  with False show ?thesis by (simp add: destination_text_def)
qed (simp add: destination_text_def IsHostname_def)

lemma destination_text_no_colon:
  assumes "wf_destination d" "IsHostname d \<or> \<not> Is6 (d_address d)"
  shows "CHR '':'' \<notin> set (destination_text d)"
proof (cases "IsHostname d")
  case True
  then show ?thesis
    using assms canonical_hostname_no_punct(1) by (simp add: wf_destination_def destination_text_def)
next
  case False
  with assms obtain v where "RoutingAddress d = Addr4 v"
    by (cases "d_address d") (auto simp: wf_destination_def canonical_addr_def RoutingAddress_def)
  moreover have "CHR '':'' \<notin> set (addr4_string v)"
    using addr4_string_chars [of "CHR '':''" v] by (auto simp: is_digit_def byte_def)
  ultimately show ?thesis using False by (simp add: destination_text_def)
qed

text \<open>\<open>Hostname\<close> and \<open>Port\<close> of a URL without a port, with and without brackets.\<close>

lemma not_valid_port: "t \<noteq> [] \<Longrightarrow> last t = CHR '']'' \<Longrightarrow> \<not> valid_optional_port t"
proof (cases t)
  case (Cons c cs)
  moreover assume "last t = CHR '']''"
  moreover have "\<not> is_digit CHR '']''" by (simp add: is_digit_def byte_def)
  ultimately show ?thesis
    by (auto simp: valid_optional_port_def list_all_iff split: if_splits intro!: bexI [of _ "last cs"])
      (metis last_in_set)
qed simp

lemma url_split_brackets: "url_split (CHR ''['' # h @ '']'') = (h, [])"
proof -
  let ?s = "CHR ''['' # h @ '']''"
  have "\<not> valid_optional_port (drop i ?s)" if "LastIndexByte ?s CHR '':'' = Some i" for i
    using LastIndexByte_SomeD [OF that] by (intro not_valid_port) (auto simp: last_drop)
  then show ?thesis
    by (simp add: url_split_def HasPrefix_def HasSuffix_def split: option.split)
qed

lemma url_split_plain:
  assumes "CHR '':'' \<notin> set h" "host_clean h"
  shows "url_split h = (h, [])"
proof -
  have "LastIndexByte h CHR '':'' = None" using assms(1) by simp
  moreover have "\<not> HasPrefix h ''[''"
    using assms(2) by (cases h) (auto simp: HasPrefix_def host_clean_def)
  ultimately show ?thesis unfolding url_split_def by (simp del: LastIndexByte_None)
qed

lemma url_split_joined:
  assumes "host_clean h" "list_all is_digit p"
  shows "url_split (JoinHostPort h p) = (h, p)"
proof -
  have p: "CHR '':'' \<notin> set p" using assms(2) by (auto simp: list_all_iff is_digit_def byte_def)
  have port: "valid_optional_port (CHR '':'' # p)" using assms(2) by (simp add: valid_optional_port_def)
  show ?thesis
  proof (cases "CHR '':'' \<in> set h")
    case True
    have "JoinHostPort h p = (CHR ''['' # h @ [CHR '']'']) @ CHR '':'' # p" using True by (simp add: JoinHostPort_def)
    with LastIndexByte_append [OF p, of "CHR ''['' # h @ [CHR '']'']"] port show ?thesis
      by (simp add: url_split_def HasPrefix_def HasSuffix_def)
  next
    case False
    have "JoinHostPort h p = h @ CHR '':'' # p" using False by (simp add: JoinHostPort_def)
    moreover have "\<not> HasPrefix h ''[''"
      using assms(1) by (cases h) (auto simp: HasPrefix_def host_clean_def)
    ultimately show ?thesis using LastIndexByte_append [OF p, of h] port by (simp add: url_split_def)
  qed
qed

end
