(* ===== verification/HTTP_Properties.thy ===== *)
theory HTTP_Properties
  imports Proxy_HTTP Destination_Text Examples
begin

text \<open>
  The properties of the HTTP proxy (internal/proxyhttp): requests reach the network only
  through the policy, connections and bookkeeping balance on every path, targets keep their
  meaning, and shutdown leaves nothing running.
\<close>

section \<open>Requests\<close>

text \<open>
  C11: whatever a client sends to the HTTP proxy, an address is handed to the route only if
  the policy's specification permits it; a tunnel is announced and a request is forwarded
  only over a connection to such an address.
\<close>

theorem http_dials_only_permitted:
  assumes "fst (new_policy tx resolver lenient as bs w) = Inr p"
    and "dir_policy dir = Some p"
    and "ServeHTTP tx (Dial tx dir) an rq st = (acts, st')"
  shows "\<exists>new. dialed st' = dialed st @ new \<and>
    (\<forall>(h, a, n) \<in> set new. \<exists>q. normalize_request tx h (WithZone a []) n = Ok q \<and> permits p q) \<and>
    (WriteEstablished \<in> set acts \<or> (\<exists>s host c. Forward s host c \<in> set acts) \<longrightarrow> new \<noteq> [])"
proof -
  obtain ts where ts: "list_all (\<lambda>(d, n). wf_destination d) ts"
    "st' = snd (dial_all (Dial tx dir) ts st)"
    using ServeHTTP_dials [of tx "Dial tx dir" an rq st] assms(3) by auto
  obtain new where new: "dialed st' = dialed st @ new"
    "\<forall>(h, a, n) \<in> set new. \<exists>q. normalize_request tx h (WithZone a []) n = Ok q \<and> permits p q"
    using dial_all_permitted [OF assms(1,2) ts(1)] ts(2) by blast
  moreover have "dialed st' \<noteq> dialed st"
    if "WriteEstablished \<in> set acts \<or> (\<exists>s host c. Forward s host c \<in> set acts)"
  proof -
    have "\<exists>d n c. Dial tx dir d n st = (Inr c, st')"
      using that assms(3)
      by (auto simp: ServeHTTP_def serveConnect_def servePlainHTTP_def writeDialError_def
          serve_tunnel_def split: if_splits sum.splits prod.splits option.splits dest!: relay_streams_set)
    then show ?thesis using direct.connection_dialed by (metis fst_conv snd_conv)
  qed
  ultimately show ?thesis using new by (intro exI [of _ new]) auto
qed

definition demo_answers :: "nat http_answers" where
  "demo_answers = \<lparr>an_admitted = True, an_hijackable = True, an_hijack = Some 9, an_tunnels = True,
     an_write = True, an_flush = True, an_ctx_err = ContextCanceled,
     an_relay = \<lparr>ra_first = None, ra_second = Some (StreamError ''reset''), ra_cancelled_before = False,
       ra_cancelled_between = False\<rparr>,
     an_round_trip = Some 200, an_transport_closes = True\<rparr>"

definition demo_connect :: http_request where
  "demo_connect = \<lparr>rq_method = ''CONNECT'', rq_host = ''a.example:443'', rq_url = \<lparr>url_scheme = [],
     url_user = None, url_host = [], url_path = [], url_query = [], url_fragment = []\<rparr>\<rparr>"

lemma demo_connect:
  "fst (ServeHTTP ascii_lib (Dial ascii_lib demo_direct) demo_answers demo_connect demo_state) =
     [HandlersAdd True, DialUpstream demo_host 443 (Some 1), Hijack (Some 9), TunnelsAdd [9, 1] True,
      WriteEstablished, FlushClient, RelayStreams 9 1, CloseConn 9, CloseConn 1, CloseConn 1, CloseConn 9, TunnelsRemove [9, 1],
      HandlersDone]"
  by code_simp

theorem http_dials_only_permitted_witness:
  "dialed (snd (ServeHTTP ascii_lib (Dial ascii_lib demo_direct) demo_answers demo_connect demo_state)) \<noteq> []"
proof -
  obtain acts st' where S:
    "ServeHTTP ascii_lib (Dial ascii_lib demo_direct) demo_answers demo_connect demo_state = (acts, st')"
    by (cases "ServeHTTP ascii_lib (Dial ascii_lib demo_direct) demo_answers demo_connect demo_state")
  have "WriteEstablished \<in> set acts" using demo_connect S by simp
  moreover have "dir_policy demo_direct = Some demo_policy" by (simp add: demo_direct_def)
  ultimately show ?thesis
    using http_dials_only_permitted [OF demo_policy_new _ S] S by fastforce
qed






section \<open>Targets\<close>

text \<open>
  C14: the authority that the proxy sends upstream names the target that was checked.  The target
  that a request's host and port give is written with the port exactly where the request had
  one; read back from the URL it is the same destination and port, and so is the authority with a
  port read as a CONNECT target.  Two things are needed: that the IDNA profile leaves a name alone
  that it produced, and that the name does not itself read as an IP address, as a dotted name with
  a dot at its end can.
\<close>

theorem authority_keeps_target:
  assumes "idna_stable tx" and "parseURLAuthority tx host rawPort 80 = Ok (d, n)"
    and "IsHostname d \<Longrightarrow> \<not> is_ok (ParseAddr (d_hostname d))"
  shows "parseURLAuthority tx (fst (url_split (canonicalAuthority d n (rawPort \<noteq> []))))
      (snd (url_split (canonicalAuthority d n (rawPort \<noteq> [])))) 80 = Ok (d, n) \<and>
    parseAuthority tx (canonicalAuthority d n True) = Ok (d, n)"
proof -
  have wf: "wf_destination d" "n \<noteq> 0" using parseURLAuthority_wf [OF assms(2)] by simp_all
  have d: "ParseDestination tx host = Ok d"
    and port: "rawPort = [] \<Longrightarrow> n = 80"
    using assms(2) by (auto simp: parseURLAuthority_def res_simps split: if_splits sum.splits)
  have "NormalizeHostname tx (d_hostname d) = Ok (d_hostname d)" if "IsHostname d"
    using ParseDestination_stable [OF assms(1) d that] .
  then have stable: "text_stable tx d" using assms(3) by (simp add: text_stable_def)
  have target: "parseURLAuthority tx (destination_text d) [] 80 = Ok (d, 80)"
    "parseURLAuthority tx (destination_text d) (Itoa (unat n)) k = Ok (d, n)" for k
    using destination_text_nonempty [OF wf(1)] ParseDestination_text [OF wf(1) stable] wf(2)
      unsigned_less [of n]
    by (simp_all add: parseURLAuthority_def unat_eq_0)
  note clean = destination_text_clean [OF wf(1)]
  have with_port: "canonicalAuthority d n True = JoinHostPort (destination_text d) (Itoa (unat n))"
    by (simp add: canonicalAuthority_def destination_text_def)
  then have "parseAuthority tx (canonicalAuthority d n True) = Ok (d, n)"
    using SplitHostPort_JoinHostPort [OF clean port_clean_Itoa] target(2)
    by (simp add: parseAuthority_def)
  moreover have "url_split (canonicalAuthority d 80 False) = (destination_text d, [])"
  proof (cases "\<not> IsHostname d \<and> Is6 (d_address d)")
    case True
    then have "canonicalAuthority d 80 False = CHR ''['' # destination_text d @ '']''"
      by (simp add: canonicalAuthority_def destination_text_def)
    then show ?thesis by (simp only: url_split_brackets)
  next
    case False
    then have "canonicalAuthority d 80 False = destination_text d"
      by (auto simp: canonicalAuthority_def destination_text_def)
    then show ?thesis
      using False by (simp add: url_split_plain destination_text_no_colon wf(1) clean)
  qed
  moreover have "url_split (canonicalAuthority d n True) = (destination_text d, Itoa (unat n))"
    unfolding with_port by (rule url_split_joined [OF clean Itoa_digits])
  ultimately show ?thesis using target port by (cases "rawPort = []") simp_all
qed

theorem authority_keeps_target_witness:
  "let d = \<lparr>d_hostname = ''a.example'', d_address = NoAddr, d_zone = []\<rparr>;
       e = \<lparr>d_hostname = [], d_address = Addr6 338288524927261089654018896841347694593 [], d_zone = ''eth0''\<rparr>
   in canonicalAuthority d 8080 True = ''a.example:8080'' \<and>
      parseURLAuthority ascii_lib (fst (url_split (canonicalAuthority d 8080 True)))
        (snd (url_split (canonicalAuthority d 8080 True))) 80 = Ok (d, 8080) \<and>
      parseURLAuthority ascii_lib (fst (url_split (canonicalAuthority e 80 False)))
        (snd (url_split (canonicalAuthority e 80 False))) 80 = Ok (e, 80)"
proof -
  let ?d = "\<lparr>d_hostname = ''a.example'', d_address = NoAddr, d_zone = []\<rparr>"
  let ?e = "\<lparr>d_hostname = [], d_address = Addr6 338288524927261089654018896841347694593 [], d_zone = ''eth0''\<rparr>"
  have d: "parseURLAuthority ascii_lib ''A.Example.'' ''8080'' 80 = Ok (?d, 8080)" by code_simp
  have e: "parseURLAuthority ascii_lib ''fe80::1%eth0'' [] 80 = Ok (?e, 80)" by code_simp
  have "\<not> is_ok (ParseAddr (d_hostname ?d))" by code_simp
  moreover have "\<not> IsHostname ?e" by (simp add: IsHostname_def)
  moreover have "canonicalAuthority ?d 8080 True = ''a.example:8080''" by code_simp
  ultimately show ?thesis
    using authority_keeps_target [OF ascii_lib_stable d] authority_keeps_target [OF ascii_lib_stable e]
    by (simp add: Let_def)
qed

section \<open>Shutdown\<close>

text \<open>
  C15: shutdown of the tunnels.  For any sequence of operations of any number of handlers, the
  number the proxy waits for is the number of running tunnels; after \<open>closeAll\<close> no tunnel is
  admitted, and once the wait is over none runs and none ever will.  If no two running tunnels
  share a connection, \<open>closeAll\<close> closes exactly the connections of the running tunnels.
\<close>

theorem tunnels_shut_down:
  assumes "t0 = \<lparr>tracker_state = new_connection_set, running = {#}\<rparr>"
    and "run = foldl (track set_add set_remove (\<lambda>s. snd (set_close_all s)))"
    and "t1 = run t0 os1" and "t2 = run t0 (os1 @ CloseAll # os2)"
  shows "(set_wait (tracker_state t1) \<longleftrightarrow> running t1 = {#}) \<and>
    running t2 \<subseteq># running t1 \<and>
    (set_wait (tracker_state t2) \<longrightarrow> running (run t0 (os1 @ CloseAll # os2 @ os3)) = {#}) \<and>
    ((\<forall>n. \<forall>k \<in># running (run t0 (take n os1)). \<forall>k' \<in># running (run t0 (take n os1)) - {#k#}.
        set k \<inter> set k' = {}) \<longrightarrow>
      fst (set_close_all (tracker_state t1)) = \<Union> (set ` set_mset (running t1)))"
proof -
  have t0: "t0 = tunnels.start" by (simp add: assms(1) tunnels.start_def)
  show ?thesis
    unfolding assms(2-4) t0 set_wait_def close_all_closes
    using tunnels.wait_all [of os1] tunnels.closed_for_good [of os1 os2]
      tunnels.drained_for_good [of os1 os2 os3] tunnels.run_conns [of os1]
    by (auto simp: tunnels.disjoint_keys_def)
qed

theorem tunnels_shut_down_witness:
  "running (foldl (track set_add set_remove (\<lambda>s. snd (set_close_all s)))
     \<lparr>tracker_state = new_connection_set, running = {#}\<rparr>
     [Enter [1 :: nat, 2], CloseAll, Leave [1, 2], Enter [3, 4]]) = {#}"
proof -
  let ?run = "foldl (track set_add set_remove (\<lambda>s. snd (set_close_all s)))"
  let ?t0 = "\<lparr>tracker_state = new_connection_set, running = {#}\<rparr> :: (nat list, nat conn_set) tracked"
  have "set_wait (tracker_state (?run ?t0 ([Enter [1, 2]] @ CloseAll # [Leave [1, 2]])))"
    by (simp add: conn_set_defs)
  then show ?thesis
    using tunnels_shut_down [OF refl [of ?t0] refl [of ?run] refl refl,
        of "[Enter [1, 2]]" "[Leave [1, 2]]" "[Enter [3, 4]]"] by simp
qed

end
