(* ===== verification/Proxy_SOCKS.thy ===== *)
theory Proxy_SOCKS
  imports Direct Destination_Text Conn_Sets
begin

text \<open>
  internal/proxysocks/server.go: what airjail adds to the SOCKS5 backend
  github.com/armon/go-socks5.  The backend is outside the repository: it calls the dial
  callback with a network and an address, asks the resolver for each hostname, and writes its
  replies through the handshake connection.  \<open>Serve\<close> is the accept loop with its watcher.
\<close>

section \<open>The dial callback\<close>

datatype 'e socks_error =
    UnsupportedNetwork string
  | BadSocksAddress addr_error
  | InvalidSocksPort string
  | BadSocksDestination dest_error
  | SocksConnector 'e

text \<open>
  The port text is read as an \<open>int\<close> and only its lower bound is checked; the conversion to
  \<open>uint16\<close> keeps its low 16 bits.
\<close>

definition socks_dial ::
  "text_lib \<Rightarrow> ('s, 'e, 'c) dial \<Rightarrow> string \<Rightarrow> string \<Rightarrow> 's \<Rightarrow> ('e socks_error, 'c) result \<times> 's" where
  "socks_dial tx dial network address st =
     (if network \<noteq> ''tcp'' then (Err (UnsupportedNetwork network), st)
      else
        (case SplitHostPort address of
           Inl e \<Rightarrow> (Err (BadSocksAddress e), st)
         | Inr (host, rawPort) \<Rightarrow>
             (case Atoi rawPort of
                None \<Rightarrow> (Err (InvalidSocksPort rawPort), st)
              | Some port \<Rightarrow>
                  if port < 1 then (Err (InvalidSocksPort rawPort), st)
                  else
                    (case ParseDestination tx host of
                       Inl e \<Rightarrow> (Err (BadSocksDestination e), st)
                     | Inr destination \<Rightarrow>
                         (case dial destination (word_of_int port) st of
                            (r, st) \<Rightarrow> (rmap_err SocksConnector r, st))))))"

section \<open>The resolver\<close>

text \<open>
  \<open>validatingResolver\<close>: the result is the address for the backend, which is always nil
  (\<open>None\<close>), so that the name itself reaches the dial callback.
\<close>

datatype resolve_error = ResolveInvalid dest_error | ResolveIsAddress

definition socks_resolve :: "text_lib \<Rightarrow> string \<Rightarrow> (resolve_error, addr option) result" where
  "socks_resolve tx hostname =
     (case ParseDestination tx hostname of
        Inl e \<Rightarrow> Err (ResolveInvalid e)
      | Inr destination \<Rightarrow>
          if \<not> IsHostname destination \<and> d_zone destination = [] then Err ResolveIsAddress
          else Ok None)"

section \<open>The server\<close>

text \<open>
  What \<open>New\<close> hands to the backend, and the server around it.  The commands permitted are those set
  in \<open>PermitCommand\<close>: CONNECT, but not BIND or ASSOCIATE.  \<open>made\<close> is the error of \<open>socks5.New\<close>.
\<close>

record ('s, 'e, 'c) socks_config =
  sc_resolver :: "string \<Rightarrow> (resolve_error, addr option) result"
  sc_connect :: bool
  sc_bind :: bool
  sc_associate :: bool
  sc_dial :: "string \<Rightarrow> string \<Rightarrow> 's \<Rightarrow> ('e socks_error, 'c) result \<times> 's"

record ('s, 'e, 'c) socks_backend =
  ss_backend :: "('s, 'e, 'c) socks_config"
  ss_connections :: "'c conn_set"

definition socks_New ::
  "text_lib \<Rightarrow> (('s, 'e, 'c) socks_config \<Rightarrow> string option) \<Rightarrow> ('s, 'e, 'c) dial \<Rightarrow>
   (string, ('s, 'e, 'c) socks_backend) result" where
  "socks_New tx made dial =
     (let configured = \<lparr>sc_resolver = socks_resolve tx, sc_connect = True, sc_bind = False,
        sc_associate = False, sc_dial = socks_dial tx dial\<rparr> in
      case made configured of
        Some e \<Rightarrow> Err e
      | None \<Rightarrow> Ok \<lparr>ss_backend = configured, ss_connections = new_connection_set\<rparr>)"

section \<open>The handshake connection\<close>

text \<open>
  The backend writes twice during a handshake: the method selection and the reply.  A reply
  with status 0 ends the handshake, and the deadline is lifted before it is sent.  The state
  is the number of writes; \<open>cleared\<close> is whether \<open>SetDeadline\<close> succeeds.
\<close>

datatype handshake_action = LiftDeadline | PassOn string

definition handshake_write ::
  "bool \<Rightarrow> string \<Rightarrow> nat \<Rightarrow> (handshake_action list \<times> bool) \<times> nat" where
  "handshake_write cleared contents writes =
     (let writes = writes + 1 in
      if writes = 2 \<and> 2 \<le> length contents \<and> byte (contents ! 1) = 0 then
        (if cleared then (([LiftDeadline, PassOn contents], True), writes)
         else (([LiftDeadline], False), writes))
      else (([PassOn contents], True), writes))"

text \<open>\<open>CloseWrite\<close> of a connection that may not support it: \<open>None\<close> is a nil error.\<close>

definition handshake_CloseWrite :: "(unit \<Rightarrow> 'e option) option \<Rightarrow> 'e option" where
  "handshake_CloseWrite closeable = (case closeable of None \<Rightarrow> None | Some f \<Rightarrow> f ())"

fun handshake_writes :: "bool \<Rightarrow> string list \<Rightarrow> nat \<Rightarrow> handshake_action list" where
  "handshake_writes cleared [] n = []"
| "handshake_writes cleared (c # cs) n =
     (case handshake_write cleared c n of
        ((acts, ok), n) \<Rightarrow> acts @ (if ok then handshake_writes cleared cs n else []))"

section \<open>The accept loop\<close>

text \<open>
  Where the loop is: accepting, waiting for the handlers after \<open>Accept\<close> failed (\<open>True\<close> where its
  error is \<open>net.ErrClosed\<close>), or returned.
\<close>

datatype serve_phase = Accepting | Draining bool | Returned "(string, unit) result"

record 'c socks_server =
  sv_set :: "'c conn_set"
  sv_phase :: serve_phase
  sv_cancelled :: bool
  sv_watcher :: bool
  sv_listening :: bool
  sv_handlers :: "'c set"
  sv_closed :: "'c set"
  sv_seen :: "'c set"

definition socks_start :: "'c socks_server" where
  "socks_start = \<lparr>sv_set = new_connection_set, sv_phase = Accepting, sv_cancelled = False,
     sv_watcher = True, sv_listening = True, sv_handlers = {}, sv_closed = {}, sv_seen = {}\<rparr>"

text \<open>\<open>closeAll\<close> closes the registered connections.\<close>

definition socks_closeAll :: "'c socks_server \<Rightarrow> 'c socks_server" where
  "socks_closeAll s =
     (case set_close_all (sv_set s) of
        (cs, set') \<Rightarrow> s\<lparr>sv_set := set', sv_closed := sv_closed s \<union> cs\<rparr>)"

text \<open>One accepted connection: the deadline, then registration, then its handler.\<close>

definition socks_accept :: "'c \<Rightarrow> bool \<Rightarrow> 'c socks_server \<Rightarrow> 'c socks_server" where
  "socks_accept c deadline_ok s =
     (let s = s\<lparr>sv_seen := insert c (sv_seen s)\<rparr> in
      if \<not> deadline_ok then s\<lparr>sv_closed := insert c (sv_closed s)\<rparr>
      else
        (case socks_add c (sv_set s) of
           (admitted, set') \<Rightarrow>
             if \<not> admitted then s\<lparr>sv_set := set', sv_closed := insert c (sv_closed s)\<rparr>
             else s\<lparr>sv_set := set', sv_handlers := insert c (sv_handlers s)\<rparr>))"

definition socks_handler_done :: "'c \<Rightarrow> 'c socks_server \<Rightarrow> 'c socks_server" where
  "socks_handler_done c s =
     s\<lparr>sv_set := socks_remove c (sv_set s), sv_handlers := sv_handlers s - {c}\<rparr>"

text \<open>
  The steps of the accept loop, the watcher and the handlers, in any order.  A connection is
  accepted once.  The context is looked at after the wait for the handlers.
\<close>

inductive socks_step :: "'c socks_server \<Rightarrow> 'c socks_server \<Rightarrow> bool" where
  socks_accepts: "sv_phase s = Accepting \<Longrightarrow> c \<notin> sv_seen s \<Longrightarrow>
    socks_step s (socks_accept c deadline_ok s)"
| socks_accept_fails: "sv_phase s = Accepting \<Longrightarrow>
    socks_step s (socks_closeAll s\<lparr>sv_phase := Draining is_closed\<rparr>)"
| socks_drained: "sv_phase s = Draining is_closed \<Longrightarrow> socks_wait (sv_set s) \<Longrightarrow>
    socks_step s (s\<lparr>sv_phase := Returned
      (if sv_cancelled s \<or> is_closed then Ok () else Err ''accept SOCKS connection''), sv_watcher := False\<rparr>)"
| socks_handler_ends: "c \<in> sv_handlers s \<Longrightarrow> socks_step s (socks_handler_done c s)"
| socks_cancel: "socks_step s (s\<lparr>sv_cancelled := True\<rparr>)"
| socks_watches: "sv_watcher s \<Longrightarrow> sv_cancelled s \<Longrightarrow>
    socks_step s (socks_closeAll s\<lparr>sv_watcher := False, sv_listening := False\<rparr>)"

inductive_cases socks_step_cases: "socks_step s s'"

inductive socks_reachable :: "'c socks_server \<Rightarrow> bool" where
  socks_init: "socks_reachable socks_start"
| socks_next: "socks_reachable s \<Longrightarrow> socks_step s s' \<Longrightarrow> socks_reachable s'"

definition socks_inv :: "'c socks_server \<Rightarrow> bool" where
  "socks_inv s \<longleftrightarrow>
     finite (sv_handlers s) \<and> sv_handlers s \<subseteq> sv_seen s \<and>
     cs_active (sv_set s) = int (card (sv_handlers s)) \<and>
     cs_connections (sv_set s) = sv_handlers s \<and>
     (cs_closing (sv_set s) \<longrightarrow> sv_handlers s \<subseteq> sv_closed s) \<and>
     (sv_phase s \<noteq> Accepting \<longrightarrow> cs_closing (sv_set s)) \<and>
     (\<forall>r. sv_phase s = Returned r \<longrightarrow> sv_handlers s = {})"

lemma socks_closeAll_simps [simp]:
  "sv_handlers (socks_closeAll s) = sv_handlers s" "sv_seen (socks_closeAll s) = sv_seen s"
  "sv_phase (socks_closeAll s) = sv_phase s"
  "sv_closed (socks_closeAll s) = sv_closed s \<union> cs_connections (sv_set s)"
  "cs_active (sv_set (socks_closeAll s)) = cs_active (sv_set s)"
  "cs_connections (sv_set (socks_closeAll s)) = cs_connections (sv_set s)"
  "cs_closing (sv_set (socks_closeAll s))"
  by (simp_all add: socks_closeAll_def set_close_all_def)

lemma socks_accept_inv:
  assumes "socks_inv s" "sv_phase s = Accepting" "c \<notin> sv_seen s"
  shows "socks_inv (socks_accept c deadline_ok s)"
proof -
  have "c \<notin> sv_handlers s" using assms by (auto simp: socks_inv_def)
  with assms show ?thesis
    by (auto simp: socks_inv_def socks_accept_def Let_def socks_add_def)
qed

lemma socks_handler_done_inv:
  assumes "socks_inv s" "c \<in> sv_handlers s" shows "socks_inv (socks_handler_done c s)"
proof -
  have "card (sv_handlers s) \<ge> 1"
    using assms by (auto simp: socks_inv_def Suc_le_eq card_gt_0_iff)
  with assms show ?thesis
    by (auto simp: socks_inv_def socks_handler_done_def socks_remove_def of_nat_diff)
qed

lemma socks_step_inv: "socks_step s s' \<Longrightarrow> socks_inv s \<Longrightarrow> socks_inv s'"
proof (induction rule: socks_step.induct)
  case (socks_accepts s c deadline_ok)
  then show ?case by (simp add: socks_accept_inv)
next
  case (socks_handler_ends c s)
  then show ?case by (simp add: socks_handler_done_inv)
next
  case (socks_drained s is_closed)
  then show ?case by (auto simp: socks_inv_def socks_wait_def)
qed (auto simp: socks_inv_def)

lemma socks_reachable_inv: "socks_reachable s \<Longrightarrow> socks_inv s"
proof (induction rule: socks_reachable.induct)
  case socks_init
  then show ?case by (simp add: socks_inv_def socks_start_def new_connection_set_def)
qed (simp add: socks_step_inv)

lemma socks_returned_stays: "socks_step s s' \<Longrightarrow> sv_phase s = Returned r \<Longrightarrow> sv_phase s' = Returned r"
  by (erule socks_step_cases) (auto simp: socks_handler_done_def)

section \<open>Calls of the connector\<close>

lemma socks_dial_text:
  assumes "wf_destination d" "text_stable tx d" "0 < k" "k < 2 ^ 63"
  shows "socks_dial tx dial ''tcp'' (JoinHostPort (destination_text d) (Itoa k)) st =
    (case dial d (of_nat k) st of (r, st) \<Rightarrow> (rmap_err SocksConnector r, st))"
proof -
  have "(word_of_int (int k) :: 16 word) = of_nat k" by simp
  then show ?thesis
    using assms SplitHostPort_JoinHostPort [OF destination_text_clean [OF assms(1)] port_clean_Itoa]
      ParseDestination_text [OF assms(1,2)]
    by (simp add: socks_dial_def)
qed

lemma socks_dial_calls:
  "\<exists>ts. list_all (\<lambda>(d, n). wf_destination d) ts \<and> length ts \<le> 1 \<and>
     snd (socks_dial tx dial network address st) = snd (dial_all dial ts st)"
proof -
  have "snd (socks_dial tx dial network address st) = st \<or>
      (\<exists>d n. wf_destination d \<and> snd (socks_dial tx dial network address st) = snd (dial d n st))"
    by (auto simp: socks_dial_def split_def split: sum.splits option.splits dest: ParseDestination_wf)
  then show ?thesis
  proof (elim disjE exE conjE)
    assume "snd (socks_dial tx dial network address st) = st"
    then show ?thesis by (intro exI [of _ "[]"]) simp
  next
    fix d n assume "wf_destination d" "snd (socks_dial tx dial network address st) = snd (dial d n st)"
    then show ?thesis by (intro exI [of _ "[(d, n)]"]) (simp add: split_def)
  qed
qed

end
