(* ===== verification/SOCKS_Properties.thy ===== *)
theory SOCKS_Properties
  imports Proxy_SOCKS Examples
begin

text \<open>
  The properties of the SOCKS proxy (internal/proxysocks): the policy decides about every
  dial, names are not resolved before it, the handshake deadline, and shutdown.
\<close>

section \<open>Dialing\<close>

text \<open>
  whatever network and address the SOCKS backend asks for, an address is handed to the
  route only if the policy's specification permits it.
\<close>

theorem socks_dials_only_permitted:
  assumes "fst (new_policy tx resolver lenient as bs w) = Inr p"
    and "dir_policy dir = Some p"
  shows "\<exists>new. dialed (snd (socks_dial tx (Dial tx dir) network address st)) = dialed st @ new \<and>
    (\<forall>(h, a, n) \<in> set new. \<exists>q. normalize_request tx h (WithZone a []) n = Ok q \<and> permits p q)"
proof -
  obtain ts where ts: "list_all (\<lambda>(d, n). wf_destination d) ts"
    "snd (socks_dial tx (Dial tx dir) network address st) = snd (dial_all (Dial tx dir) ts st)"
    using socks_dial_calls [of tx "Dial tx dir" network address st] by blast
  show ?thesis unfolding ts(2) by (rule dial_all_permitted [OF assms ts(1)])
qed

theorem socks_dials_only_permitted_witness:
  "\<exists>q. normalize_request ascii_lib ''a.example'' (Addr4 3232235778) 443 = Ok q \<and> permits demo_policy q"
proof -
  have p: "dir_policy demo_direct = Some demo_policy" by (simp add: demo_direct_def)
  have "(''a.example'', Addr4 3232235778, 443) \<in>
      set (dialed (snd (socks_dial ascii_lib (Dial ascii_lib demo_direct) ''tcp'' ''a.example:443'' demo_state)))"
    by code_simp
  moreover have "dialed demo_state = []" by (simp add: demo_state_def dialed_def)
  ultimately show ?thesis
    using socks_dials_only_permitted [OF demo_policy_new p, of "''tcp''" "''a.example:443''" demo_state]
    by fastforce
qed

text \<open>
  the address text the backend makes of a target reaches the connector as that target,
  for every destination and every port from 1 to 65535.  A larger port text is not rejected:
  it is dialed modulo 65536.
\<close>

theorem socks_target_and_port:
  assumes "wf_destination d" and "0 < k" and "k < 2 ^ 63"
    and "IsHostname d \<Longrightarrow> NormalizeHostname tx (d_hostname d) = Ok (d_hostname d)"
    and "IsHostname d \<Longrightarrow> \<not> is_ok (ParseAddr (d_hostname d))"
  shows "socks_dial tx dial ''tcp'' (JoinHostPort (destination_text d) (Itoa k)) st =
      (rmap_err SocksConnector (fst (dial d (of_nat k) st)), snd (dial d (of_nat k) st)) \<and>
    unat (of_nat k :: 16 word) = k mod 65536"
proof -
  have "text_stable tx d" using assms(4,5) by (simp add: text_stable_def)
  then show ?thesis
    using socks_dial_text [OF assms(1) _ assms(2,3)] by (simp add: split_def unat_of_nat take_bit_eq_mod)
qed

theorem socks_target_and_port_witness:
  "fst (socks_dial ascii_lib (\<lambda>d n (s :: unit). (Ok n :: (unit, 16 word) result, s)) ''tcp''
     (JoinHostPort ''a.example'' (Itoa 65616)) ()) = Ok 80"
proof -
  let ?d = "\<lparr>d_hostname = ''a.example'', d_address = NoAddr, d_zone = []\<rparr>"
  have "wf_destination ?d" by code_simp
  moreover have "NormalizeHostname ascii_lib (d_hostname ?d) = Ok (d_hostname ?d)" by code_simp
  moreover have "\<not> is_ok (ParseAddr (d_hostname ?d))" by code_simp
  moreover have "destination_text ?d = ''a.example''" by code_simp
  ultimately show ?thesis
    using socks_target_and_port [of ?d 65616 ascii_lib "\<lambda>d n (s :: unit). (Ok n :: (unit, 16 word) result, s)" "()"]
    by simp
qed

text \<open>
  names are never resolved before the policy: the resolver answers every hostname and
  every scoped IPv6 literal with no address, rejects any other IP literal, and never gives the
  backend an address to dial.
\<close>

theorem socks_resolver_defers:
  "socks_resolve tx name = Ok answer \<longleftrightarrow>
     answer = None \<and> (\<exists>d. ParseDestination tx name = Ok d \<and> (IsHostname d \<or> d_zone d \<noteq> []))"
  by (auto simp: socks_resolve_def split: sum.splits if_splits)

section \<open>The handshake\<close>

text \<open>
  over any series of writes the handshake deadline is lifted at most once, and exactly when
  the second write is a reply with status 0: a client that fails the handshake stays under the
  deadline.
\<close>

theorem handshake_deadline:
  "count_list (handshake_writes cleared contents 0) LiftDeadline =
     (case contents of
        selection # reply # rest \<Rightarrow> if 2 \<le> length reply \<and> byte (reply ! 1) = 0 then 1 else 0
      | _ \<Rightarrow> 0)"
proof -
  have later: "count_list (handshake_writes cleared cs n) LiftDeadline = 0" if "2 \<le> n" for cs n
    using that by (induction cs arbitrary: n) (simp_all add: handshake_write_def Let_def)
  show ?thesis
  proof (cases contents)
    case (Cons selection cs)
    then show ?thesis
      using later [of "Suc (Suc 0)"] by (cases cs) (auto simp: handshake_write_def Let_def)
  qed simp
qed

section \<open>Shutdown\<close>

text \<open>
  C16: in every reachable state of the server, the number it waits for is the number of running
  handlers; once it is closing, the connection of every running handler has been closed; and
  when \<open>Serve\<close> has returned, no handler is running.
\<close>

theorem socks_serve_shutdown:
  assumes "socks_reachable s"
  shows "(socks_wait (sv_set s) \<longleftrightarrow> sv_handlers s = {}) \<and>
    (cs_closing (sv_set s) \<longrightarrow> sv_handlers s \<subseteq> sv_closed s) \<and>
    (\<forall>r. sv_phase s = Returned r \<longrightarrow> sv_handlers s = {})"
  using socks_reachable_inv [OF assms] by (auto simp: socks_inv_def socks_wait_def)

theorem socks_serve_shutdown_witness:
  "sv_handlers (socks_closeAll (socks_accept (1 :: nat) True socks_start)) \<subseteq>
   sv_closed (socks_closeAll (socks_accept 1 True socks_start))"
proof -
  let ?s1 = "socks_accept (1 :: nat) True socks_start"
  let ?s2 = "socks_closeAll ?s1\<lparr>sv_phase := Draining True\<rparr>"
  have "socks_step socks_start ?s1"
    by (rule socks_accepts) (simp_all add: socks_start_def)
  then have r1: "socks_reachable ?s1" by (rule socks_next [OF socks_init])
  have "sv_phase ?s1 = Accepting"
    by (simp add: socks_accept_def socks_start_def Let_def socks_add_def new_connection_set_def)
  from socks_accept_fails [OF this, of True] have "socks_step ?s1 ?s2" by simp
  then have "socks_reachable ?s2" by (rule socks_next [OF r1])
  from socks_serve_shutdown [OF this] show ?thesis by simp
qed

end
