(* ===== verification/Syscalls.thy ===== *)
theory Syscalls
  imports Prelude
begin

text \<open>
  What the namespace components share about the kernel: the error numbers the code tells
  apart, the threads of a process, and the credentials of a thread as the manual pages
  capabilities(7) and prctl(2) describe them.  System calls themselves are parameters of the
  definitions that make them.
\<close>

datatype errno = EINVAL | EINTR | ECHILD | ESRCH | OtherErrno nat

type_synonym thread = nat

section \<open>Credentials\<close>

text \<open>
  The capability sets belong to a thread, not to a process.  \<open>cr_no_new_privs\<close> is the
  thread's \<open>no_new_privs\<close> bit.
\<close>

record creds =
  cr_bounding :: "nat set"
  cr_ambient :: "nat set"
  cr_effective :: "nat set"
  cr_permitted :: "nat set"
  cr_inheritable :: "nat set"
  cr_no_new_privs :: bool

text \<open>The abstract operations on credentials: giving up some capabilities in every set, or all.\<close>

definition without_caps :: "nat set \<Rightarrow> creds \<Rightarrow> creds" where
  "without_caps D cr =
     cr\<lparr>cr_bounding := cr_bounding cr - D, cr_ambient := cr_ambient cr - D,
        cr_effective := cr_effective cr - D, cr_permitted := cr_permitted cr - D,
        cr_inheritable := cr_inheritable cr - D\<rparr>"

definition no_creds :: creds where
  "no_creds = \<lparr>cr_bounding = {}, cr_ambient = {}, cr_effective = {}, cr_permitted = {},
     cr_inheritable = {}, cr_no_new_privs = True\<rparr>"

text \<open>The two words per set of \<open>capget\<close> and \<open>capset\<close>, version 3 of the interface.\<close>

record cap_words =
  Effective :: "32 word"
  Permitted :: "32 word"
  Inheritable :: "32 word"

type_synonym cap_data = "cap_words \<times> cap_words"

definition no_words :: cap_words where
  "no_words = \<lparr>Effective = 0, Permitted = 0, Inheritable = 0\<rparr>"

definition data_word :: "cap_data \<Rightarrow> nat \<Rightarrow> cap_words" where
  "data_word data i = (if i = 0 then fst data else snd data)"

definition set_data_word :: "cap_data \<Rightarrow> nat \<Rightarrow> cap_words \<Rightarrow> cap_data" where
  "set_data_word data i x = (if i = 0 then (x, snd data) else (fst data, x))"

lemma data_word_set [simp]:
  "i < 2 \<Longrightarrow> j < 2 \<Longrightarrow> data_word (set_data_word data i x) j = (if i = j then x else data_word data j)"
  by (cases data) (auto simp: data_word_def set_data_word_def less_2_cases_iff)

text \<open>The capabilities a set of words stands for.\<close>

definition word_caps :: "(cap_words \<Rightarrow> 32 word) \<Rightarrow> cap_data \<Rightarrow> nat set" where
  "word_caps field data = {c. c < 64 \<and> bit (field (data_word data (c div 32))) (c mod 32)}"

lemma word_caps_no_words [simp]:
  "word_caps Effective (no_words, no_words) = {}" "word_caps Permitted (no_words, no_words) = {}"
  "word_caps Inheritable (no_words, no_words) = {}"
  by (auto simp: word_caps_def data_word_def no_words_def)

section \<open>The system calls on capabilities\<close>

text \<open>
  \<open>PR_CAPBSET_DROP\<close>, \<open>PR_CAP_AMBIENT\<close> with \<open>PR_CAP_AMBIENT_IS_SET\<close> (the value and the error
  that \<open>PrctlRetInt\<close> returns) and \<open>PR_CAP_AMBIENT_LOWER\<close>, \<open>capget\<close>, \<open>capset\<close> and
  \<open>PR_SET_NO_NEW_PRIVS\<close>, all on the thread that makes the call, and \<open>PR_SET_DUMPABLE\<close>, which
  concerns the process.
\<close>

record 'w cap_ops =
  bounding_drop :: "thread \<Rightarrow> nat \<Rightarrow> 'w \<Rightarrow> errno option \<times> 'w"
  ambient_is_set :: "thread \<Rightarrow> nat \<Rightarrow> 'w \<Rightarrow> (int \<times> errno option) \<times> 'w"
  ambient_lower :: "thread \<Rightarrow> nat \<Rightarrow> 'w \<Rightarrow> errno option \<times> 'w"
  capget :: "thread \<Rightarrow> 'w \<Rightarrow> (errno, cap_data) result \<times> 'w"
  capset :: "thread \<Rightarrow> cap_data \<Rightarrow> 'w \<Rightarrow> errno option \<times> 'w"
  set_no_new_privs :: "thread \<Rightarrow> 'w \<Rightarrow> errno option \<times> 'w"
  set_dumpable :: "bool \<Rightarrow> 'w \<Rightarrow> errno option \<times> 'w"

text \<open>
  Their documented behaviour.  \<open>view w t\<close> is the credentials of thread \<open>t\<close> in the state \<open>w\<close>
  and \<open>top_cap\<close> the last capability the kernel knows.  A call that fails changes no credentials,
  no call changes another thread's, and \<open>EINVAL\<close> from the prctl calls means that the kernel does
  not know the capability.  The ambient set is always part of the permitted and inheritable ones.
\<close>

definition changes ::
  "('w \<Rightarrow> thread \<Rightarrow> creds) \<Rightarrow> thread \<Rightarrow> (creds \<Rightarrow> creds) \<Rightarrow> 'w \<Rightarrow> errno option \<times> 'w \<Rightarrow> bool" where
  "changes view t f w r \<longleftrightarrow>
     view (snd r) = (if fst r = None then (view w)(t := f (view w t)) else view w)"

definition cap_laws :: "'w cap_ops \<Rightarrow> ('w \<Rightarrow> thread \<Rightarrow> creds) \<Rightarrow> nat \<Rightarrow> bool" where
  "cap_laws ops view top_cap \<longleftrightarrow> top_cap < 64 \<and>
     (\<forall>w t. cr_bounding (view w t) \<subseteq> {..top_cap} \<and> cr_permitted (view w t) \<subseteq> {..top_cap} \<and>
        cr_effective (view w t) \<subseteq> {..top_cap} \<and> cr_inheritable (view w t) \<subseteq> {..top_cap} \<and>
        cr_ambient (view w t) \<subseteq> cr_permitted (view w t) \<inter> cr_inheritable (view w t)) \<and>
     (\<forall>t c w. changes view t (\<lambda>cr. cr\<lparr>cr_bounding := cr_bounding cr - {c}\<rparr>) w (bounding_drop ops t c w) \<and>
        (fst (bounding_drop ops t c w) = Some EINVAL \<longrightarrow> top_cap < c)) \<and>
     (\<forall>t c w v e w'. ambient_is_set ops t c w = ((v, e), w') \<longrightarrow> view w' = view w \<and>
        (e = None \<longrightarrow> (v = 1 \<longleftrightarrow> c \<in> cr_ambient (view w t))) \<and>
        (e = Some EINVAL \<longrightarrow> v \<noteq> 1 \<and> top_cap < c)) \<and>
     (\<forall>t c w. changes view t (\<lambda>cr. cr\<lparr>cr_ambient := cr_ambient cr - {c}\<rparr>) w (ambient_lower ops t c w)) \<and>
     (\<forall>t w r w'. capget ops t w = (r, w') \<longrightarrow> view w' = view w \<and>
        (\<forall>data. r = Ok data \<longrightarrow> word_caps Effective data = cr_effective (view w t) \<and>
           word_caps Permitted data = cr_permitted (view w t) \<and>
           word_caps Inheritable data = cr_inheritable (view w t))) \<and>
     (\<forall>t data w. changes view t
        (\<lambda>cr. cr\<lparr>cr_effective := word_caps Effective data \<inter> {..top_cap},
                cr_permitted := word_caps Permitted data \<inter> {..top_cap},
                cr_inheritable := word_caps Inheritable data \<inter> {..top_cap},
                cr_ambient := cr_ambient cr \<inter> word_caps Permitted data \<inter> word_caps Inheritable data\<rparr>)
        w (capset ops t data w)) \<and>
     (\<forall>t w. changes view t (\<lambda>cr. cr\<lparr>cr_no_new_privs := True\<rparr>) w (set_no_new_privs ops t w)) \<and>
     (\<forall>d w. view (snd (set_dumpable ops d w)) = view w)"

lemma cap_view_bounds:
  assumes "cap_laws ops view top_cap"
  shows "top_cap < 64" "cr_bounding (view w t) \<subseteq> {..top_cap}" "cr_permitted (view w t) \<subseteq> {..top_cap}"
    "cr_effective (view w t) \<subseteq> {..top_cap}" "cr_inheritable (view w t) \<subseteq> {..top_cap}"
    "cr_ambient (view w t) \<subseteq> cr_permitted (view w t) \<inter> cr_inheritable (view w t)"
  using assms unfolding cap_laws_def by simp_all

lemma cap_bounding_drop:
  assumes "cap_laws ops view top_cap" and "bounding_drop ops t c w = (e, w')"
  shows "changes view t (\<lambda>cr. cr\<lparr>cr_bounding := cr_bounding cr - {c}\<rparr>) w (e, w')"
    and "e = Some EINVAL \<Longrightarrow> top_cap < c"
proof -
  have "changes view t (\<lambda>cr. cr\<lparr>cr_bounding := cr_bounding cr - {c}\<rparr>) w (bounding_drop ops t c w) \<and>
      (fst (bounding_drop ops t c w) = Some EINVAL \<longrightarrow> top_cap < c)"
    using assms(1) unfolding cap_laws_def by simp
  with assms(2) show "changes view t (\<lambda>cr. cr\<lparr>cr_bounding := cr_bounding cr - {c}\<rparr>) w (e, w')"
    and "e = Some EINVAL \<Longrightarrow> top_cap < c" by simp_all
qed

lemma cap_ambient_is_set:
  assumes "cap_laws ops view top_cap" and "ambient_is_set ops t c w = ((v, e), w')"
  shows "view w' = view w" and "e = None \<Longrightarrow> v = 1 \<longleftrightarrow> c \<in> cr_ambient (view w t)"
    and "e = Some EINVAL \<Longrightarrow> v \<noteq> 1 \<and> top_cap < c"
proof -
  have "view w' = view w \<and> (e = None \<longrightarrow> (v = 1 \<longleftrightarrow> c \<in> cr_ambient (view w t))) \<and>
      (e = Some EINVAL \<longrightarrow> v \<noteq> 1 \<and> top_cap < c)"
    using assms(1) assms(2) unfolding cap_laws_def by presburger
  then show "view w' = view w" "e = None \<Longrightarrow> v = 1 \<longleftrightarrow> c \<in> cr_ambient (view w t)"
    "e = Some EINVAL \<Longrightarrow> v \<noteq> 1 \<and> top_cap < c" by simp_all
qed

lemma cap_ambient_lower:
  assumes "cap_laws ops view top_cap" and "ambient_lower ops t c w = (e, w')"
  shows "changes view t (\<lambda>cr. cr\<lparr>cr_ambient := cr_ambient cr - {c}\<rparr>) w (e, w')"
  unfolding assms(2) [symmetric] using assms(1) unfolding cap_laws_def by simp

lemma cap_capget:
  assumes "cap_laws ops view top_cap" and "capget ops t w = (r, w')"
  shows "view w' = view w" and "r = Ok data \<Longrightarrow> word_caps Effective data = cr_effective (view w t)"
    and "r = Ok data \<Longrightarrow> word_caps Permitted data = cr_permitted (view w t)"
    and "r = Ok data \<Longrightarrow> word_caps Inheritable data = cr_inheritable (view w t)"
proof -
  have *: "view w' = view w \<and> (\<forall>data. r = Ok data \<longrightarrow>
      word_caps Effective data = cr_effective (view w t) \<and>
      word_caps Permitted data = cr_permitted (view w t) \<and>
      word_caps Inheritable data = cr_inheritable (view w t))"
    using assms(1) assms(2) unfolding cap_laws_def by presburger
  then show "view w' = view w" by (rule conjunct1)
  show "r = Ok data \<Longrightarrow> word_caps Effective data = cr_effective (view w t)"
    "r = Ok data \<Longrightarrow> word_caps Permitted data = cr_permitted (view w t)"
    "r = Ok data \<Longrightarrow> word_caps Inheritable data = cr_inheritable (view w t)"
    using * by metis+
qed

lemma cap_capset:
  assumes "cap_laws ops view top_cap" and "capset ops t data w = (e, w')"
  shows "changes view t
      (\<lambda>cr. cr\<lparr>cr_effective := word_caps Effective data \<inter> {..top_cap},
              cr_permitted := word_caps Permitted data \<inter> {..top_cap},
              cr_inheritable := word_caps Inheritable data \<inter> {..top_cap},
              cr_ambient := cr_ambient cr \<inter> word_caps Permitted data \<inter> word_caps Inheritable data\<rparr>)
      w (e, w')"
  unfolding assms(2) [symmetric] using assms(1) unfolding cap_laws_def by presburger

lemma cap_no_new_privs:
  assumes "cap_laws ops view top_cap" and "set_no_new_privs ops t w = (e, w')"
  shows "changes view t (\<lambda>cr. cr\<lparr>cr_no_new_privs := True\<rparr>) w (e, w')"
  unfolding assms(2) [symmetric] using assms(1) unfolding cap_laws_def by simp

lemma cap_set_dumpable:
  assumes "cap_laws ops view top_cap" and "set_dumpable ops d w = (e, w')"
  shows "view w' = view w"
proof -
  have "view (snd (set_dumpable ops d w)) = view w"
    using assms(1) unfolding cap_laws_def by blast
  with assms(2) show ?thesis by simp
qed

end
