(* ===== verification/Capabilities.thy ===== *)
theory Capabilities
  imports Syscalls
begin

text \<open>
  internal/namespace/capabilities_linux.go and the capability parts of namespace_linux.go: the
  dangerous capabilities, the names a user may keep, the bit operations on capability words,
  and the two ways of giving capabilities up before the command starts.  Every function runs
  on one thread \<open>t\<close> of the supervisor, which is an argument: the credentials it changes are
  that thread's.  The lemmas show each function to compute an operation on sets of capabilities.
\<close>

unbundle bit_operations_syntax

section \<open>The dangerous capabilities\<close>

datatype mode = RootlessMode | PermissionPreservingMode

record dangerous_capability =
  cap_name :: string
  cap_value :: nat

definition CAP_NET_ADMIN :: nat where "CAP_NET_ADMIN = 12"
definition CAP_SYS_ADMIN :: nat where "CAP_SYS_ADMIN = 21"
definition CAP_SETPCAP :: nat where "CAP_SETPCAP = 8"

definition dangerousCapabilities :: "dangerous_capability list" where
  "dangerousCapabilities =
     [\<lparr>cap_name = ''CAP_SYS_ADMIN'', cap_value = CAP_SYS_ADMIN\<rparr>,
      \<lparr>cap_name = ''CAP_NET_ADMIN'', cap_value = CAP_NET_ADMIN\<rparr>,
      \<lparr>cap_name = ''CAP_SYS_PTRACE'', cap_value = 19\<rparr>,
      \<lparr>cap_name = ''CAP_SYS_MODULE'', cap_value = 16\<rparr>,
      \<lparr>cap_name = ''CAP_SYS_RAWIO'', cap_value = 17\<rparr>,
      \<lparr>cap_name = ''CAP_BPF'', cap_value = 39\<rparr>,
      \<lparr>cap_name = ''CAP_PERFMON'', cap_value = 38\<rparr>,
      \<lparr>cap_name = ''CAP_CHECKPOINT_RESTORE'', cap_value = 40\<rparr>]"

datatype cap_error =
    UnsafeNotDropped string
  | ReadCallerCapabilities errno
  | ReadEffectiveCapabilities errno
  | DropFromBoundingSet string errno
  | InspectAmbientCapability string errno
  | DropAmbientCapability string errno
  | ReadBeforeDropping errno
  | DropDangerousCapabilities errno
  | DropNumberFromBoundingSet nat errno
  | DropNamespaceCapabilities errno
  | SetNoNewPrivsFailed errno
  | MakeNonDumpable errno

section \<open>Capability words\<close>

definition capabilityPermitted :: "cap_data \<Rightarrow> nat \<Rightarrow> bool" where
  "capabilityPermitted data capability =
     (let i = capability div 32; n = capability mod 32
      in Permitted (data_word data i) AND push_bit n 1 \<noteq> 0)"

definition capabilityEffective :: "cap_data \<Rightarrow> nat \<Rightarrow> bool" where
  "capabilityEffective data capability =
     (let i = capability div 32; n = capability mod 32
      in Effective (data_word data i) AND push_bit n 1 \<noteq> 0)"

definition clearCapability :: "cap_data \<Rightarrow> nat \<Rightarrow> cap_data" where
  "clearCapability data capability =
     (let i = capability div 32; mask = NOT (push_bit (capability mod 32) 1);
          x = data_word data i
      in set_data_word data i
           \<lparr>Effective = Effective x AND mask, Permitted = Permitted x AND mask,
            Inheritable = Inheritable x AND mask\<rparr>)"

text \<open>\<open>DetectMode\<close> and \<open>SetNonDumpable\<close>.\<close>

definition DetectMode :: "'w cap_ops \<Rightarrow> thread \<Rightarrow> 'w \<Rightarrow> (cap_error, mode) result \<times> 'w" where
  "DetectMode ops t w =
     (case capget ops t w of
        (Inl e, w) \<Rightarrow> (Err (ReadEffectiveCapabilities e), w)
      | (Inr data, w) \<Rightarrow>
          (Ok (if capabilityEffective data CAP_SYS_ADMIN \<and> capabilityEffective data CAP_NET_ADMIN
               then PermissionPreservingMode else RootlessMode), w))"

definition SetNonDumpable :: "'w cap_ops \<Rightarrow> 'w \<Rightarrow> (cap_error, unit) result \<times> 'w" where
  "SetNonDumpable ops w =
     (case set_dumpable ops False w of
        (Some e, w) \<Rightarrow> (Err (MakeNonDumpable e), w)
      | (None, w) \<Rightarrow> (Ok (), w))"

section \<open>The names a user keeps\<close>

definition capabilitiesByName :: "string \<Rightarrow> dangerous_capability option" where
  "capabilitiesByName =
     foldl (\<lambda>m capability. m(cap_name capability \<mapsto> capability)) (\<lambda>_. None) dangerousCapabilities"

definition capability_name :: "text_lib \<Rightarrow> string \<Rightarrow> string" where
  "capability_name tx rawName =
     (let name = ToUpper (uni_upper tx) (TrimSpace (uni_trim tx) rawName)
      in if HasPrefix name ''CAP_'' then name else ''CAP_'' @ name)"

fun parse_unsafe_from ::
  "text_lib \<Rightarrow> nat set \<Rightarrow> dangerous_capability list \<Rightarrow> string list \<Rightarrow>
   (cap_error, dangerous_capability list) result" where
  "parse_unsafe_from tx seen parsed [] = Ok parsed"
| "parse_unsafe_from tx seen parsed (rawName # requested) =
     (case capabilitiesByName (capability_name tx rawName) of
        None \<Rightarrow> Err (UnsafeNotDropped rawName)
      | Some capability \<Rightarrow>
          if cap_value capability \<in> seen then parse_unsafe_from tx seen parsed requested
          else parse_unsafe_from tx (insert (cap_value capability) seen) (parsed @ [capability]) requested)"

definition parseUnsafeCapabilities ::
  "text_lib \<Rightarrow> string list \<Rightarrow> (cap_error, dangerous_capability list) result" where
  "parseUnsafeCapabilities tx requested = parse_unsafe_from tx {} [] requested"

definition unsafeCapabilityValues :: "text_lib \<Rightarrow> string list \<Rightarrow> (cap_error, nat list) result" where
  "unsafeCapabilityValues tx names =
     rbind (parseUnsafeCapabilities tx names) (\<lambda>capabilities. Ok (map cap_value capabilities))"

text \<open>
  \<open>selectUnsafeCapabilities\<close>: the names that are kept, and the warnings handed to \<open>Warnf\<close> in order.
\<close>

datatype cap_warning = NotPermitted string | NotInRootlessMode string

fun selectUnsafeCapabilities ::
  "dangerous_capability list \<Rightarrow> mode \<Rightarrow> cap_data \<Rightarrow> string list \<times> cap_warning list" where
  "selectUnsafeCapabilities [] m data = ([], [])"
| "selectUnsafeCapabilities (capability # requested) m data =
     (let (kept, warnings) = selectUnsafeCapabilities requested m data in
      if \<not> capabilityPermitted data (cap_value capability)
      then (kept, NotPermitted (cap_name capability) # warnings)
      else if m \<noteq> PermissionPreservingMode
      then (kept, NotInRootlessMode (cap_name capability) # warnings)
      else (cap_name capability # kept, warnings))"

definition resolveUnsafeCapabilities ::
  "text_lib \<Rightarrow> 'w cap_ops \<Rightarrow> thread \<Rightarrow> string list \<Rightarrow> mode \<Rightarrow> 'w \<Rightarrow>
   (cap_error, string list \<times> cap_warning list) result \<times> 'w" where
  "resolveUnsafeCapabilities tx ops t requested m w =
     (case parseUnsafeCapabilities tx requested of
        Inl e \<Rightarrow> (Err e, w)
      | Inr parsed \<Rightarrow>
          (case capget ops t w of
             (Inl e, w) \<Rightarrow> (Err (ReadCallerCapabilities e), w)
           | (Inr data, w) \<Rightarrow> (Ok (selectUnsafeCapabilities parsed m data), w)))"

section \<open>Giving capabilities up\<close>

text \<open>
  The first loop of \<open>dropDangerousCapabilities\<close>: bounding and ambient set, for each dangerous
  capability that is not kept.
\<close>

fun drop_each ::
  "'w cap_ops \<Rightarrow> thread \<Rightarrow> nat set \<Rightarrow> dangerous_capability list \<Rightarrow> 'w \<Rightarrow> (cap_error, unit) result \<times> 'w" where
  "drop_each ops t kept [] w = (Ok (), w)"
| "drop_each ops t kept (capability # rest) w =
     (if cap_value capability \<in> kept then drop_each ops t kept rest w
      else
        (case bounding_drop ops t (cap_value capability) w of
           (err, w) \<Rightarrow>
             if err \<noteq> None \<and> err \<noteq> Some EINVAL
             then (Err (DropFromBoundingSet (cap_name capability) (the err)), w)
             else
               (case ambient_is_set ops t (cap_value capability) w of
                  ((ambient, ambientErr), w) \<Rightarrow>
                    if ambientErr \<noteq> None \<and> ambientErr \<noteq> Some EINVAL
                    then (Err (InspectAmbientCapability (cap_name capability) (the ambientErr)), w)
                    else if ambient = 1
                    then
                      (case ambient_lower ops t (cap_value capability) w of
                         (Some e, w) \<Rightarrow> (Err (DropAmbientCapability (cap_name capability) e), w)
                       | (None, w) \<Rightarrow> drop_each ops t kept rest w)
                    else drop_each ops t kept rest w)))"

definition clear_each :: "nat set \<Rightarrow> dangerous_capability list \<Rightarrow> cap_data \<Rightarrow> cap_data" where
  "clear_each kept capabilities data =
     foldl (\<lambda>data capability.
         if cap_value capability \<in> kept then data else clearCapability data (cap_value capability))
       data capabilities"

definition dropDangerousCapabilities ::
  "text_lib \<Rightarrow> 'w cap_ops \<Rightarrow> thread \<Rightarrow> string list \<Rightarrow> 'w \<Rightarrow> (cap_error, unit) result \<times> 'w" where
  "dropDangerousCapabilities tx ops t keptNames w =
     (case parseUnsafeCapabilities tx keptNames of
        Inl e \<Rightarrow> (Err e, w)
      | Inr keptCapabilities \<Rightarrow>
          let kept = cap_value ` set keptCapabilities in
          (case drop_each ops t kept dangerousCapabilities w of
             (Inl e, w) \<Rightarrow> (Err e, w)
           | (Inr _, w) \<Rightarrow>
               (case capget ops t w of
                  (Inl e, w) \<Rightarrow> (Err (ReadBeforeDropping e), w)
                | (Inr data, w) \<Rightarrow>
                    (case capset ops t (clear_each kept dangerousCapabilities data) w of
                       (Some e, w) \<Rightarrow> (Err (DropDangerousCapabilities e), w)
                     | (None, w) \<Rightarrow> (Ok (), w)))))"

text \<open>\<open>dropSetupCapabilities\<close>: \<open>for capability := range 64\<close>, ended by \<open>EINVAL\<close>.\<close>

fun drop_bounding_from ::
  "'w cap_ops \<Rightarrow> thread \<Rightarrow> nat list \<Rightarrow> 'w \<Rightarrow> (cap_error, unit) result \<times> 'w" where
  "drop_bounding_from ops t [] w = (Ok (), w)"
| "drop_bounding_from ops t (capability # rest) w =
     (case bounding_drop ops t capability w of
        (err, w) \<Rightarrow>
          if err = Some EINVAL then (Ok (), w)
          else
            (case err of
               Some e \<Rightarrow> (Err (DropNumberFromBoundingSet capability e), w)
             | None \<Rightarrow> drop_bounding_from ops t rest w))"

definition dropSetupCapabilities ::
  "'w cap_ops \<Rightarrow> thread \<Rightarrow> 'w \<Rightarrow> (cap_error, unit) result \<times> 'w" where
  "dropSetupCapabilities ops t w =
     (case drop_bounding_from ops t [0..<64] w of
        (Inl e, w) \<Rightarrow> (Err e, w)
      | (Inr _, w) \<Rightarrow>
          (case capset ops t (no_words, no_words) w of
             (Some e, w) \<Rightarrow> (Err (DropNamespaceCapabilities e), w)
           | (None, w) \<Rightarrow>
               (case set_no_new_privs ops t w of
                  (Some e, w) \<Rightarrow> (Err (SetNoNewPrivsFailed e), w)
                | (None, w) \<Rightarrow> (Ok (), w))))"

section \<open>Capability words as sets\<close>

lemma capability_index [simp]: "(c :: nat) < 64 \<Longrightarrow> c div 32 < 2"
  by simp

lemma capabilityPermitted_iff: "c < 64 \<Longrightarrow> capabilityPermitted data c \<longleftrightarrow> c \<in> word_caps Permitted data"
  by (simp add: capabilityPermitted_def word_caps_def Let_def bit_iff_and_push_bit_not_eq_0)

lemma capabilityEffective_iff: "c < 64 \<Longrightarrow> capabilityEffective data c \<longleftrightarrow> c \<in> word_caps Effective data"
  by (simp add: capabilityEffective_def word_caps_def Let_def bit_iff_and_push_bit_not_eq_0)

lemma bit_clear: "n < 32 \<Longrightarrow> bit ((x :: 32 word) AND NOT (2 ^ m)) n \<longleftrightarrow> bit x n \<and> n \<noteq> m"
  by (auto simp: bit_and_iff bit_not_iff bit_exp_iff)

lemma index_eq: "(c :: nat) div 32 = d div 32 \<Longrightarrow> c mod 32 = d mod 32 \<longleftrightarrow> c = d"
  by (metis div_mod_decomp)

lemma clearCapability_bit:
  assumes "c < 64" "d < 64"
    and "\<And>x mask. field \<lparr>Effective = Effective x AND mask, Permitted = Permitted x AND mask,
      Inheritable = Inheritable x AND mask\<rparr> = field x AND mask"
  shows "bit (field (data_word (clearCapability data c) (d div 32))) (d mod 32) \<longleftrightarrow>
    bit (field (data_word data (d div 32))) (d mod 32) \<and> d \<noteq> c"
  using assms index_eq [of d c] by (auto simp: clearCapability_def Let_def bit_clear)

lemma word_caps_clearCapability:
  assumes "c < 64"
  shows "word_caps Permitted (clearCapability data c) = word_caps Permitted data - {c}"
    and "word_caps Effective (clearCapability data c) = word_caps Effective data - {c}"
    and "word_caps Inheritable (clearCapability data c) = word_caps Inheritable data - {c}"
  using assms by (auto simp: word_caps_def clearCapability_bit)

lemma dangerous_values:
  "cap_value ` set dangerousCapabilities = {12, 16, 17, 19, 21, 38, 39, 40}"
  "\<forall>capability \<in> set dangerousCapabilities. cap_value capability < 64"
  "distinct (map cap_value dangerousCapabilities)" "distinct (map cap_name dangerousCapabilities)"
  by (auto simp: dangerousCapabilities_def CAP_SYS_ADMIN_def CAP_NET_ADMIN_def)

lemma word_caps_clear_each:
  assumes "\<forall>capability \<in> set capabilities. cap_value capability < 64"
  shows "word_caps Permitted (clear_each kept capabilities data) =
      word_caps Permitted data - (cap_value ` set capabilities - kept)"
    and "word_caps Effective (clear_each kept capabilities data) =
      word_caps Effective data - (cap_value ` set capabilities - kept)"
    and "word_caps Inheritable (clear_each kept capabilities data) =
      word_caps Inheritable data - (cap_value ` set capabilities - kept)"
  using assms
  by (induction capabilities arbitrary: data)
    (auto simp: clear_each_def word_caps_clearCapability)

section \<open>Parsing names\<close>

lemma by_name_Some:
  "distinct (map cap_name cs) \<Longrightarrow>
   foldl (\<lambda>m c. m(cap_name c \<mapsto> c)) m cs name = Some c \<longleftrightarrow>
     c \<in> set cs \<and> cap_name c = name \<or> name \<notin> cap_name ` set cs \<and> m name = Some c"
proof (induction cs arbitrary: m)
  case (Cons x cs)
  then show ?case by (cases "name = cap_name x") auto
qed simp

lemma capabilitiesByName_iff:
  "capabilitiesByName name = Some capability \<longleftrightarrow>
     capability \<in> set dangerousCapabilities \<and> cap_name capability = name"
  unfolding capabilitiesByName_def using by_name_Some [OF dangerous_values(4)] by simp

lemma parse_unsafe_from_Ok:
  "parse_unsafe_from tx seen parsed requested = Ok caps \<Longrightarrow>
   seen = cap_value ` set parsed \<Longrightarrow> distinct (map cap_value parsed) \<Longrightarrow>
   set parsed \<subseteq> set dangerousCapabilities \<Longrightarrow>
   distinct (map cap_value caps) \<and> set caps \<subseteq> set dangerousCapabilities \<and>
   cap_name ` set caps = cap_name ` set parsed \<union> capability_name tx ` set requested"
proof (induction tx seen parsed requested rule: parse_unsafe_from.induct)
  case (1 tx seen parsed)
  then show ?case by simp
next
  case (2 tx seen parsed rawName requested)
  then obtain capability where c: "capabilitiesByName (capability_name tx rawName) = Some capability"
    by (auto split: option.splits)
  then have d: "capability \<in> set dangerousCapabilities" "cap_name capability = capability_name tx rawName"
    by (simp_all add: capabilitiesByName_iff)
  show ?case
  proof (cases "cap_value capability \<in> seen")
    case True
    then obtain c' where c': "c' \<in> set parsed" "cap_value c' = cap_value capability"
      using "2.prems"(2) by auto
    then have same: "c' = capability"
      using d(1) "2.prems"(4) dangerous_values(3) by (auto simp: distinct_map dest: inj_onD)
    then have "capability_name tx rawName \<in> cap_name ` set parsed"
      using c'(1) d(2) unfolding same by (metis imageI)
    with 2 c True show ?thesis by auto
  next
    case False
    with 2 c d show ?thesis by auto
  qed
qed

lemma parseUnsafeCapabilities_Ok:
  assumes "parseUnsafeCapabilities tx requested = Ok caps"
  shows "distinct (map cap_value caps)" and "set caps \<subseteq> set dangerousCapabilities"
    and "cap_name ` set caps = capability_name tx ` set requested"
  using parse_unsafe_from_Ok [of tx "{}" "[]" requested caps] assms
  by (auto simp: parseUnsafeCapabilities_def)

text \<open>The names of the dangerous capabilities are their own canonical form.\<close>

lemma capability_name_canonical:
  assumes "capability \<in> set dangerousCapabilities"
  shows "capability_name tx (cap_name capability) = cap_name capability"
proof -
  have "list_all (\<lambda>c. is_ascii (cap_name c) \<and> HasPrefix (cap_name c) ''CAP_'' \<and>
      rev (dropWhile is_space (rev (dropWhile is_space (cap_name c)))) = cap_name c \<and>
      map upper_byte (cap_name c) = cap_name c) dangerousCapabilities"
    by code_simp
  with assms show ?thesis
    by (auto simp: list_all_iff capability_name_def ToUpper_def TrimSpace_def)
qed

lemma parse_unsafe_from_names:
  "set caps \<subseteq> set dangerousCapabilities \<Longrightarrow> distinct (map cap_value (parsed @ caps)) \<Longrightarrow>
   parse_unsafe_from tx (cap_value ` set parsed) parsed (map cap_name caps) = Ok (parsed @ caps)"
proof (induction caps arbitrary: parsed)
  case (Cons c caps)
  have "capabilitiesByName (capability_name tx (cap_name c)) = Some c"
    using Cons.prems(1) by (simp add: capability_name_canonical capabilitiesByName_iff)
  moreover have "cap_value c \<notin> cap_value ` set parsed" using Cons.prems(2) by auto
  ultimately show ?case using Cons.IH [of "parsed @ [c]"] Cons.prems by simp
qed simp

lemma parseUnsafeCapabilities_names:
  assumes "set caps \<subseteq> set dangerousCapabilities" and "distinct (map cap_value caps)"
  shows "parseUnsafeCapabilities tx (map cap_name caps) = Ok caps"
  using parse_unsafe_from_names [of caps "[]" tx] assms by (simp add: parseUnsafeCapabilities_def)

lemma selectUnsafeCapabilities_kept:
  "fst (selectUnsafeCapabilities requested m data) =
     (if m = PermissionPreservingMode
      then map cap_name (filter (\<lambda>c. capabilityPermitted data (cap_value c)) requested) else [])"
  by (induction requested m data rule: selectUnsafeCapabilities.induct) (auto simp: Let_def split_def)

section \<open>Giving up, on sets\<close>

definition lower_sets :: "nat set \<Rightarrow> creds \<Rightarrow> creds" where
  "lower_sets D cr = cr\<lparr>cr_bounding := cr_bounding cr - D, cr_ambient := cr_ambient cr - D\<rparr>"

lemma lower_sets_simps [simp]:
  "lower_sets {} cr = cr" "lower_sets D (lower_sets E cr) = lower_sets (E \<union> D) cr"
  "cr_effective (lower_sets D cr) = cr_effective cr" "cr_permitted (lower_sets D cr) = cr_permitted cr"
  "cr_inheritable (lower_sets D cr) = cr_inheritable cr"
  by (auto simp: lower_sets_def intro!: creds.equality)

text \<open>A thread whose credentials change, the other threads' staying.\<close>

lemma bounding_drop_effect:
  assumes "cap_laws ops view top_cap" "bounding_drop ops t c w = (e, w')" "e = None \<or> e = Some EINVAL"
  shows "view w' = (view w)(t := (view w t)\<lparr>cr_bounding := cr_bounding (view w t) - {c}\<rparr>)"
proof (cases e)
  case None
  then show ?thesis using cap_bounding_drop(1) [OF assms(1,2)] by (simp add: changes_def)
next
  case (Some x)
  with assms(3) have "top_cap < c" using cap_bounding_drop(2) [OF assms(1,2)] by simp
  then have "c \<notin> cr_bounding (view w t)" using cap_view_bounds(2) [OF assms(1), of w t] by auto
  then show ?thesis using cap_bounding_drop(1) [OF assms(1,2)] Some by (simp add: changes_def)
qed

lemma ambient_is_set_effect:
  assumes "cap_laws ops view top_cap" "ambient_is_set ops t c w = ((v, e), w')"
    "e = None \<or> e = Some EINVAL"
  shows "view w' = view w" and "v = 1 \<longleftrightarrow> c \<in> cr_ambient (view w t)"
proof -
  show "view w' = view w" using cap_ambient_is_set(1) [OF assms(1,2)] .
  have "cr_ambient (view w t) \<subseteq> {..top_cap}"
    using cap_view_bounds(3,6) [OF assms(1), of w t] by blast
  then show "v = 1 \<longleftrightarrow> c \<in> cr_ambient (view w t)"
    using assms(3) cap_ambient_is_set(2,3) [OF assms(1,2)] by auto
qed

lemma drop_each_Ok:
  assumes "cap_laws ops view top_cap" and "drop_each ops t kept capabilities w = (Ok u, w')"
  shows "view w' = (view w)(t := lower_sets (cap_value ` set capabilities - kept) (view w t))"
  using assms(2)
proof (induction capabilities arbitrary: w)
  case Nil
  then show ?case by simp
next
  case (Cons x xs)
  let ?c = "cap_value x"
  show ?case
  proof (cases "?c \<in> kept")
    case True
    with Cons show ?thesis by simp
  next
    case False
    obtain e w1 where b: "bounding_drop ops t ?c w = (e, w1)" by force
    obtain v e2 w2 where a: "ambient_is_set ops t ?c w1 = ((v, e2), w2)" by (metis surj_pair)
    have e: "e = None \<or> e = Some EINVAL" "e2 = None \<or> e2 = Some EINVAL"
      using Cons.prems False b a by (auto split: if_splits)
    have v1: "view w1 = (view w)(t := (view w t)\<lparr>cr_bounding := cr_bounding (view w t) - {?c}\<rparr>)"
      by (rule bounding_drop_effect [OF assms(1) b e(1)])
    note v2 = ambient_is_set_effect [OF assms(1) a e(2)]
    obtain w3 where w3: "view w3 = (view w)(t := lower_sets {?c} (view w t))"
      "drop_each ops t kept xs w3 = (Ok u, w')"
    proof (cases "v = 1")
      case True
      obtain e3 w3 where l: "ambient_lower ops t ?c w2 = (e3, w3)" by force
      then have "e3 = None" "drop_each ops t kept xs w3 = (Ok u, w')"
        using Cons.prems False b a e True by (auto split: option.splits if_splits)
      moreover have "view w3 = (view w)(t := lower_sets {?c} (view w t))"
        using cap_ambient_lower [OF assms(1) l] calculation(1) v1 v2(1)
        by (simp add: changes_def lower_sets_def)
      ultimately show ?thesis using that by blast
    next
      case v: False
      then have "?c \<notin> cr_ambient (view w t)" using v2(2) v1 by simp
      then have "view w2 = (view w)(t := lower_sets {?c} (view w t))"
        using v1 v2(1) by (simp add: lower_sets_def)
      moreover have "drop_each ops t kept xs w2 = (Ok u, w')"
        using Cons.prems False b a e v by (auto split: if_splits)
      ultimately show ?thesis using that by blast
    qed
    have "insert ?c (cap_value ` set xs - kept) = cap_value ` set (x # xs) - kept" using False by auto
    then show ?thesis using Cons.IH [OF w3(2)] w3(1) by (auto simp: fun_eq_iff)
  qed
qed

text \<open>
  On success \<open>dropDangerousCapabilities\<close> takes the dangerous capabilities that are not kept
  out of all five sets of the calling thread, and changes nothing else.
\<close>

lemma dropDangerousCapabilities_Ok:
  assumes "cap_laws ops view top_cap" and "dropDangerousCapabilities tx ops t keptNames w = (Ok u, w')"
  shows "\<exists>kept. parseUnsafeCapabilities tx keptNames = Ok kept \<and>
    view w' = (view w)(t := without_caps (cap_value ` set dangerousCapabilities - cap_value ` set kept) (view w t))"
proof -
  obtain kept where k: "parseUnsafeCapabilities tx keptNames = Ok kept"
    using assms(2) by (auto simp: dropDangerousCapabilities_def split: sum.splits)
  let ?k = "cap_value ` set kept" and ?D = "cap_value ` set dangerousCapabilities - cap_value ` set kept"
  obtain u1 w1 where d: "drop_each ops t ?k dangerousCapabilities w = (Ok u1, w1)"
    using assms(2) k by (auto simp: dropDangerousCapabilities_def split: sum.splits prod.splits)
  obtain data w2 where g: "capget ops t w1 = (Ok data, w2)"
    using assms(2) k d by (auto simp: dropDangerousCapabilities_def split: sum.splits prod.splits)
  let ?data = "clear_each ?k dangerousCapabilities data"
  have c: "capset ops t ?data w2 = (None, w')"
    using assms(2) k d g
    by (auto simp: dropDangerousCapabilities_def split: option.splits prod.splits)
  have v2: "view w2 = (view w)(t := lower_sets ?D (view w t))"
    using drop_each_Ok [OF assms(1) d] cap_capget(1) [OF assms(1) g] by simp
  have words: "word_caps Effective data = cr_effective (view w t)"
    "word_caps Permitted data = cr_permitted (view w t)"
    "word_caps Inheritable data = cr_inheritable (view w t)"
    using cap_capget [OF assms(1) g] drop_each_Ok [OF assms(1) d] by auto
  note b = cap_view_bounds(2-6) [OF assms(1), of w t]
  have "view w' = (view w)(t := without_caps ?D (view w t))"
    using cap_capset [OF assms(1) c] v2 words b word_caps_clear_each [OF dangerous_values(2), of ?k data]
    by (auto simp: changes_def without_caps_def lower_sets_def fun_eq_iff
        intro!: creds.equality)
  with k show ?thesis by blast
qed

lemma drop_bounding_from_Ok:
  assumes "cap_laws ops view top_cap" and "drop_bounding_from ops t [n..<m] w = (Ok u, w')"
  shows "\<exists>B. view w' = (view w)(t := (view w t)\<lparr>cr_bounding := cr_bounding (view w t) - B\<rparr>) \<and>
    {n..<m} \<inter> {..top_cap} \<subseteq> B"
  using assms(2)
proof (induction "m - n" arbitrary: n w)
  case 0
  then show ?case by (intro exI [of _ "{}"]) simp
next
  case (Suc k)
  then have n: "n < m" by simp
  obtain e w1 where b: "bounding_drop ops t n w = (e, w1)" by force
  show ?case
  proof (cases e)
    case None
    then have "drop_bounding_from ops t [Suc n..<m] w1 = (Ok u, w')"
      using Suc.prems b n by (simp add: upt_conv_Cons)
    moreover have "k = m - Suc n" using Suc.hyps(2) by simp
    ultimately obtain B where
      "view w' = (view w1)(t := (view w1 t)\<lparr>cr_bounding := cr_bounding (view w1 t) - B\<rparr>)"
      "{Suc n..<m} \<inter> {..top_cap} \<subseteq> B" using Suc.hyps(1) by blast
    moreover have "view w1 = (view w)(t := (view w t)\<lparr>cr_bounding := cr_bounding (view w t) - {n}\<rparr>)"
      using bounding_drop_effect [OF assms(1) b] None by simp
    moreover have "cr_bounding (view w t) - {n} - B = cr_bounding (view w t) - insert n B" by auto
    moreover have "{n..<m} = insert n {Suc n..<m}" using n by auto
    ultimately show ?thesis by (intro exI [of _ "insert n B"]) (auto simp: fun_eq_iff)
  next
    case (Some x)
    then have x: "x = EINVAL" "w' = w1" using Suc.prems b n by (auto simp: upt_conv_Cons split: if_splits)
    then have "top_cap < n" using cap_bounding_drop(2) [OF assms(1) b] Some by simp
    moreover have "view w1 = view w"
      using cap_bounding_drop(1) [OF assms(1) b] Some by (simp add: changes_def)
    ultimately show ?thesis using x by (intro exI [of _ "{}"]) auto
  qed
qed

text \<open>On success \<open>dropSetupCapabilities\<close> leaves the calling thread nothing.\<close>

lemma dropSetupCapabilities_Ok:
  assumes "cap_laws ops view top_cap" and "dropSetupCapabilities ops t w = (Ok u, w')"
  shows "view w' = (view w)(t := no_creds)"
proof -
  obtain u1 w1 where d: "drop_bounding_from ops t [0..<64] w = (Ok u1, w1)"
    using assms(2) by (auto simp: dropSetupCapabilities_def split: sum.splits prod.splits)
  obtain w2 where c: "capset ops t (no_words, no_words) w1 = (None, w2)"
    using assms(2) d by (auto simp: dropSetupCapabilities_def split: option.splits prod.splits)
  have p: "set_no_new_privs ops t w2 = (None, w')"
    using assms(2) d c by (auto simp: dropSetupCapabilities_def split: option.splits prod.splits)
  obtain B where B: "view w1 = (view w)(t := (view w t)\<lparr>cr_bounding := cr_bounding (view w t) - B\<rparr>)"
    "{0..<64} \<inter> {..top_cap} \<subseteq> B" using drop_bounding_from_Ok [OF assms(1) d] by blast
  have "{..top_cap} \<subseteq> {0..<64}" using cap_view_bounds(1) [OF assms(1)] by auto
  then have "cr_bounding (view w t) - B = {}"
    using B(2) cap_view_bounds(2) [OF assms(1), of w t] by blast
  then show ?thesis
    using cap_capset [OF assms(1) c] cap_no_new_privs [OF assms(1) p] B(1)
    by (auto simp: changes_def no_creds_def fun_eq_iff intro!: creds.equality)
qed

text \<open>\<open>DetectMode\<close> reads the effective set and changes nothing.\<close>

lemma DetectMode_Ok:
  assumes "cap_laws ops view top_cap" and "DetectMode ops t w = (Ok m, w')"
  shows "view w' = view w" and "m = PermissionPreservingMode \<longleftrightarrow>
    {CAP_SYS_ADMIN, CAP_NET_ADMIN} \<subseteq> cr_effective (view w t)"
proof -
  obtain data where g: "capget ops t w = (Ok data, w')" and
    m: "m = (if capabilityEffective data CAP_SYS_ADMIN \<and> capabilityEffective data CAP_NET_ADMIN
       then PermissionPreservingMode else RootlessMode)"
    using assms(2) by (auto simp: DetectMode_def split: sum.splits prod.splits)
  show "view w' = view w" using cap_capget(1) [OF assms(1) g] .
  have "CAP_SYS_ADMIN < 64" "CAP_NET_ADMIN < 64" by (simp_all add: CAP_SYS_ADMIN_def CAP_NET_ADMIN_def)
  then show "m = PermissionPreservingMode \<longleftrightarrow> {CAP_SYS_ADMIN, CAP_NET_ADMIN} \<subseteq> cr_effective (view w t)"
    using cap_capget(2) [OF assms(1) g] m by (simp add: capabilityEffective_iff)
qed

end
