(* ===== verification/Process.thy ===== *)
theory Process
  imports Syscalls
begin

text \<open>
  internal/namespace/run_linux.go: running one sandboxed process, with job control.  The
  system calls act on the outside world \<open>'w\<close> and are parameters; the state pairs that world
  with the record \<open>acts\<close> of the calls made, in order.  A \<open>unix.WaitStatus\<close> is a value of
  \<open>wait_status\<close>, the cases its methods tell apart.  Signals are their Linux numbers.
  Loops that wait for the kernel may not end: they are partial functions, and
  \<open>None\<close> means that the call never returns.
\<close>

section \<open>The interface of the kernel\<close>

definition SIGHUP :: nat where "SIGHUP = 1"
definition SIGINT :: nat where "SIGINT = 2"
definition SIGQUIT :: nat where "SIGQUIT = 3"
definition SIGKILL :: nat where "SIGKILL = 9"
definition SIGUSR1 :: nat where "SIGUSR1 = 10"
definition SIGUSR2 :: nat where "SIGUSR2 = 12"
definition SIGTERM :: nat where "SIGTERM = 15"
definition SIGCONT :: nat where "SIGCONT = 18"
definition SIGSTOP :: nat where "SIGSTOP = 19"
definition SIGTSTP :: nat where "SIGTSTP = 20"
definition SIGWINCH :: nat where "SIGWINCH = 28"

definition forwardedSignals :: "nat list" where
  "forwardedSignals = [SIGHUP, SIGINT, SIGQUIT, SIGTERM, SIGUSR1, SIGUSR2, SIGTSTP, SIGWINCH]"

datatype wait_status = Exited nat | Signaled nat | Stopped nat | Continued

text \<open>The fields of \<open>syscall.SysProcAttr\<close> that airjail sets.\<close>

record sys_proc_attr =
  Cloneflags :: "32 word"
  UidMappings :: "(int \<times> int \<times> int) list"
  GidMappings :: "(int \<times> int \<times> int) list"
  GidMappingsEnableSetgroups :: bool
  AmbientCaps :: "nat list"
  Pdeathsig :: nat
  Setpgid :: bool
  Foreground :: bool
  Ctty :: int

definition no_attributes :: sys_proc_attr where
  "no_attributes = \<lparr>Cloneflags = 0, UidMappings = [], GidMappings = [],
     GidMappingsEnableSetgroups = False, AmbientCaps = [], Pdeathsig = 0, Setpgid = False,
     Foreground = False, Ctty = 0\<rparr>"

record exec_cmd =
  cmd_path :: string
  cmd_args :: "string list"
  cmd_env :: "string list"
  cmd_dir :: string
  cmd_sys :: sys_proc_attr

record run_options =
  ro_Environment :: "string list"
  ro_Directory :: string
  ro_Sys :: "sys_proc_attr option"
  JoinParentProcessGroup :: bool
  ro_ManageForeground :: bool
  ReapProcessGroup :: bool

text \<open>
  \<open>stdin_ok\<close> is the success of \<open>os.Stdin.Stat\<close>; \<open>get_foreground\<close> and \<open>set_foreground\<close> are the
  ioctls on the terminal; \<open>start\<close> is \<open>exec.Cmd.Start\<close> on the thread that makes the call.
\<close>

record 'w proc_ops =
  look_path :: "string \<Rightarrow> 'w \<Rightarrow> (string, string) result \<times> 'w"
  stdin_ok :: "'w \<Rightarrow> bool \<times> 'w"
  stdin_fd :: int
  get_foreground :: "'w \<Rightarrow> (errno, int) result \<times> 'w"
  set_foreground :: "int \<Rightarrow> 'w \<Rightarrow> errno option \<times> 'w"
  getpgrp :: "'w \<Rightarrow> int"
  getpid :: "'w \<Rightarrow> int"
  start :: "thread \<Rightarrow> exec_cmd \<Rightarrow> 'w \<Rightarrow> (string, int) result \<times> 'w"
  kill :: "int \<Rightarrow> nat \<Rightarrow> 'w \<Rightarrow> errno option \<times> 'w"
  wait4 :: "int \<Rightarrow> bool \<Rightarrow> 'w \<Rightarrow> (errno, wait_status) result \<times> 'w"
  release :: "int \<Rightarrow> 'w \<Rightarrow> errno option \<times> 'w"

datatype proc_action =
    IgnoreTTOU
  | Started thread exec_cmd "(string, int) result"
  | Waited int "(errno, wait_status) result"
  | Killed int nat
  | SetForeground int
  | IgnoredError string errno
  | Released int
  | SignalsStopped

record 'w proc =
  pw :: 'w
  acts :: "proc_action list"

definition act :: "proc_action \<Rightarrow> 'w proc \<Rightarrow> 'w proc" where
  "act a st = st\<lparr>acts := acts st @ [a]\<rparr>"

definition do_kill :: "'w proc_ops \<Rightarrow> int \<Rightarrow> nat \<Rightarrow> 'w proc \<Rightarrow> errno option \<times> 'w proc" where
  "do_kill ops target sig st =
     (case kill ops target sig (pw st) of (e, w) \<Rightarrow> (e, act (Killed target sig) (st\<lparr>pw := w\<rparr>)))"

definition do_wait ::
  "'w proc_ops \<Rightarrow> int \<Rightarrow> bool \<Rightarrow> 'w proc \<Rightarrow> (errno, wait_status) result \<times> 'w proc" where
  "do_wait ops pid all st =
     (case wait4 ops pid all (pw st) of (r, w) \<Rightarrow> (r, act (Waited pid r) (st\<lparr>pw := w\<rparr>)))"

definition logIgnoredError :: "string \<Rightarrow> errno option \<times> 'w proc \<Rightarrow> 'w proc" where
  "logIgnoredError operation r =
     (case r of (err, st) \<Rightarrow>
        (case err of None \<Rightarrow> st | Some e \<Rightarrow> act (IgnoredError operation e) st))"

datatype proc_error =
    EmptyCommand
  | LookUpCommand string string
  | StartCommand string string
  | WaitForCommand string errno
  | StopSupervisor errno
  | KillRemaining int errno
  | ReapRemaining int errno

section \<open>The terminal\<close>

definition terminalForeground :: "'w proc_ops \<Rightarrow> 'w proc \<Rightarrow> (bool \<times> int) \<times> 'w proc" where
  "terminalForeground ops st =
     (case stdin_ok ops (pw st) of
        (ok, w) \<Rightarrow>
          if \<not> ok then ((False, 0), st\<lparr>pw := w\<rparr>)
          else
            (case get_foreground ops w of
               (Inl e, w) \<Rightarrow> ((False, 0), st\<lparr>pw := w\<rparr>)
             | (Inr foreground, w) \<Rightarrow> ((True, foreground), st\<lparr>pw := w\<rparr>)))"

definition shouldManageForeground :: "bool \<Rightarrow> bool \<Rightarrow> int \<Rightarrow> int \<Rightarrow> bool" where
  "shouldManageForeground terminal joinParentProcessGroup foregroundProcessGroup currentProcessGroup \<longleftrightarrow>
     terminal \<and> \<not> joinParentProcessGroup \<and> foregroundProcessGroup = currentProcessGroup"

definition ownsTerminalForeground :: "bool \<Rightarrow> int \<Rightarrow> int \<Rightarrow> bool" where
  "ownsTerminalForeground terminal foregroundProcessGroup currentProcessGroup \<longleftrightarrow>
     terminal \<and> foregroundProcessGroup = currentProcessGroup"

definition setTerminalForeground :: "'w proc_ops \<Rightarrow> int \<Rightarrow> 'w proc \<Rightarrow> errno option \<times> 'w proc" where
  "setTerminalForeground ops processGroup st =
     (case set_foreground ops processGroup (pw st) of
        (e, w) \<Rightarrow> (e, act (SetForeground processGroup) (st\<lparr>pw := w\<rparr>)))"

definition transferTerminalForegroundIfOwned ::
  "'w proc_ops \<Rightarrow> int \<Rightarrow> int \<Rightarrow> 'w proc \<Rightarrow> errno option \<times> 'w proc" where
  "transferTerminalForegroundIfOwned ops fromProcessGroup toProcessGroup st =
     (case terminalForeground ops st of
        ((terminal, foregroundProcessGroup), st) \<Rightarrow>
          if \<not> terminal \<or> foregroundProcessGroup \<noteq> fromProcessGroup then (None, st)
          else setTerminalForeground ops toProcessGroup st)"

definition cloneSysProcAttr :: "sys_proc_attr option \<Rightarrow> sys_proc_attr" where
  "cloneSysProcAttr source =
     (case source of
        None \<Rightarrow> no_attributes\<lparr>Pdeathsig := SIGKILL\<rparr>
      | Some s \<Rightarrow> if Pdeathsig s = 0 then s\<lparr>Pdeathsig := SIGKILL\<rparr> else s)"

section \<open>Reaping the process group\<close>

partial_function (option) reap_loop ::
  "'w proc_ops \<Rightarrow> int \<Rightarrow> 'w proc \<Rightarrow> ((proc_error, unit) result \<times> 'w proc) option" where
  "reap_loop ops processGroup st =
     (case do_wait ops (- processGroup) False st of
        (r, st) \<Rightarrow>
          (case r of
             Inr _ \<Rightarrow> reap_loop ops processGroup st
           | Inl err \<Rightarrow>
               if err = EINTR then reap_loop ops processGroup st
               else if err = ECHILD then Some (Ok (), st)
               else Some (Err (ReapRemaining processGroup err), st)))"

declare reap_loop.simps [code]

definition terminateAndReapProcessGroup ::
  "'w proc_ops \<Rightarrow> int \<Rightarrow> 'w proc \<Rightarrow> ((proc_error, unit) result \<times> 'w proc) option" where
  "terminateAndReapProcessGroup ops processGroup st =
     (case do_kill ops (- processGroup) SIGKILL st of
        (killErr, st) \<Rightarrow>
          if killErr \<noteq> None \<and> killErr \<noteq> Some ESRCH
          then Some (Err (KillRemaining processGroup (the killErr)), st)
          else reap_loop ops processGroup st)"

section \<open>Waiting for the command\<close>

text \<open>What the loop of \<open>runSandboxedProcess\<close> has fixed when it starts.\<close>

record job =
  job_command :: string
  job_pid :: int
  job_target :: int
  job_manage :: bool
  job_original :: int
  job_reap :: bool

text \<open>
  The end of the child with the exit code: \<open>childFinished\<close> is the first component of the
  result from here on.
\<close>

definition child_ended ::
  "'w proc_ops \<Rightarrow> job \<Rightarrow> nat \<Rightarrow> 'w proc \<Rightarrow> ((bool \<times> (proc_error, nat) result) \<times> 'w proc) option" where
  "child_ended ops j code st =
     (if job_reap j then
        (case terminateAndReapProcessGroup ops (job_pid j) st of
           None \<Rightarrow> None
         | Some (Inl reapErr, st) \<Rightarrow> Some ((True, Err reapErr), st)
         | Some (Inr _, st) \<Rightarrow> Some ((True, Ok code), st))
      else Some ((True, Ok code), st))"

text \<open>
  A stopped child stops airjail too, so that the caller sees what it would see without airjail
  in between; when airjail is resumed it resumes the child.
\<close>

definition foreground_to_caller :: "'w proc_ops \<Rightarrow> job \<Rightarrow> 'w proc \<Rightarrow> 'w proc" where
  "foreground_to_caller ops j st =
     (if job_manage j
      then logIgnoredError ''restore terminal foreground process group for stopped process''
             (transferTerminalForegroundIfOwned ops (job_pid j) (job_original j) st)
      else st)"

definition foreground_to_child :: "'w proc_ops \<Rightarrow> job \<Rightarrow> 'w proc \<Rightarrow> 'w proc" where
  "foreground_to_child ops j st =
     (if job_manage j
      then logIgnoredError ''restore child terminal foreground process group after resume''
             (transferTerminalForegroundIfOwned ops (job_original j) (job_pid j) st)
      else st)"

definition child_stopped :: "'w proc_ops \<Rightarrow> job \<Rightarrow> 'w proc \<Rightarrow> errno option \<times> 'w proc" where
  "child_stopped ops j st =
     (let st = foreground_to_caller ops j st
      in (case do_kill ops (getpid ops (pw st)) SIGSTOP st of
            (Some err, st) \<Rightarrow> (Some err, st)
          | (None, st) \<Rightarrow>
              (None, logIgnoredError ''continue child process after resume''
                       (do_kill ops (job_target j) SIGCONT (foreground_to_child ops j st)))))"

partial_function (option) wait_loop ::
  "'w proc_ops \<Rightarrow> job \<Rightarrow> 'w proc \<Rightarrow> ((bool \<times> (proc_error, nat) result) \<times> 'w proc) option" where
  "wait_loop ops j st =
     (case do_wait ops (job_pid j) True st of
        (r, st) \<Rightarrow>
          (case r of
             Inl err \<Rightarrow>
               if err = EINTR then wait_loop ops j st
               else Some ((False, Err (WaitForCommand (job_command j) err)), st)
           | Inr status \<Rightarrow>
               (case status of
                  Exited code \<Rightarrow> child_ended ops j code st
                | Signaled sig \<Rightarrow> child_ended ops j (128 + sig) st
                | Stopped sig \<Rightarrow>
                    (case child_stopped ops j st of
                       (Some err, st) \<Rightarrow> Some ((False, Err (StopSupervisor err)), st)
                     | (None, st) \<Rightarrow> wait_loop ops j st)
                | Continued \<Rightarrow> wait_loop ops j st)))"

declare wait_loop.simps [code]

section \<open>Running the command\<close>

text \<open>The deferred cleanup, in the order the deferred calls run.\<close>

definition cleanup :: "'w proc_ops \<Rightarrow> job \<Rightarrow> bool \<Rightarrow> 'w proc \<Rightarrow> 'w proc" where
  "cleanup ops j childFinished st =
     (let st = (if \<not> childFinished
        then logIgnoredError ''kill process during cleanup'' (do_kill ops (job_target j) SIGKILL st)
        else st);
          st = (if job_manage j
        then logIgnoredError ''restore terminal foreground process group during cleanup''
               (transferTerminalForegroundIfOwned ops (job_pid j) (job_original j) st)
        else st);
          st = logIgnoredError ''release process during cleanup''
            (case release ops (job_pid j) (pw st) of
               (e, w) \<Rightarrow> (e, act (Released (job_pid j)) (st\<lparr>pw := w\<rparr>)))
      in act SignalsStopped st)"

definition process_attributes :: "'w proc_ops \<Rightarrow> run_options \<Rightarrow> bool \<Rightarrow> sys_proc_attr" where
  "process_attributes ops options manageForeground =
     (let sys = cloneSysProcAttr (ro_Sys options);
          sys = (if \<not> JoinParentProcessGroup options then sys\<lparr>Setpgid := True\<rparr> else sys)
      in if manageForeground then sys\<lparr>Foreground := True, Ctty := stdin_fd ops\<rparr> else sys)"

text \<open>Starting the child, waiting for it and the deferred cleanup.\<close>

definition run_child ::
  "'w proc_ops \<Rightarrow> thread \<Rightarrow> string \<Rightarrow> exec_cmd \<Rightarrow> (int \<Rightarrow> job) \<Rightarrow> 'w proc \<Rightarrow>
   ((proc_error, nat) result \<times> 'w proc) option" where
  "run_child ops t name child j st =
     (case start ops t child (pw st) of
        (r, w) \<Rightarrow>
          let st = act (Started t child r) (st\<lparr>pw := w\<rparr>) in
          (case r of
             Inl e \<Rightarrow> Some (Err (StartCommand name e), st)
           | Inr pid \<Rightarrow>
               (case wait_loop ops (j pid) st of
                  None \<Rightarrow> None
                | Some ((childFinished, result), st) \<Rightarrow>
                    Some (result, cleanup ops (j pid) childFinished st))))"

definition runSandboxedProcess ::
  "'w proc_ops \<Rightarrow> thread \<Rightarrow> string list \<Rightarrow> run_options \<Rightarrow> 'w proc \<Rightarrow>
   ((proc_error, nat) result \<times> 'w proc) option" where
  "runSandboxedProcess ops t command options st =
     (case command of
        [] \<Rightarrow> Some (Err EmptyCommand, st)
      | name # _ \<Rightarrow>
          (case look_path ops name (pw st) of
             (Inl e, w) \<Rightarrow> Some (Err (LookUpCommand name e), st\<lparr>pw := w\<rparr>)
           | (Inr path, w) \<Rightarrow>
               (case terminalForeground ops (st\<lparr>pw := w\<rparr>) of
                  ((terminal, originalForeground), st) \<Rightarrow>
                    let manageForeground = ro_ManageForeground options \<and>
                          shouldManageForeground terminal (JoinParentProcessGroup options)
                            originalForeground (getpgrp ops (pw st))
                    in run_child ops t name
                         \<lparr>cmd_path = path, cmd_args = command,
                          cmd_env = ro_Environment options, cmd_dir = ro_Directory options,
                          cmd_sys = process_attributes ops options manageForeground\<rparr>
                         (\<lambda>pid. \<lparr>job_command = name, job_pid = pid,
                            job_target = (if JoinParentProcessGroup options then pid else - pid),
                            job_manage = manageForeground, job_original = originalForeground,
                            job_reap = ReapProcessGroup options\<rparr>)
                         (if manageForeground then act IgnoreTTOU st else st))))"

section \<open>Forwarding signals\<close>

text \<open>
  The goroutine beside the wait loop.  Its select receives the end of the context, a signal
  (\<open>None\<close> for a value that is no \<open>syscall.Signal\<close>), the closed channel \<open>done\<close> or the timer of three
  seconds; the result is what it sends to the target, and whether it has returned.
\<close>

datatype forward_event = ContextDone | ReceivedSignal "nat option" | DoneClosed | TimerFired

fun forward_cancelled :: "forward_event list \<Rightarrow> nat list \<times> bool" where
  "forward_cancelled [] = ([], False)"
| "forward_cancelled (TimerFired # es) = ([SIGKILL], True)"
| "forward_cancelled (DoneClosed # es) = ([], True)"
| "forward_cancelled (_ # es) = forward_cancelled es"

fun forwardSignals :: "forward_event list \<Rightarrow> nat list \<times> bool" where
  "forwardSignals [] = ([], False)"
| "forwardSignals (ContextDone # es) =
     (case forward_cancelled es of (sent, returned) \<Rightarrow> (SIGTERM # sent, returned))"
| "forwardSignals (ReceivedSignal received # es) =
     (case forwardSignals es of (sent, returned) \<Rightarrow>
        ((case received of None \<Rightarrow> sent | Some signalValue \<Rightarrow> signalValue # sent), returned))"
| "forwardSignals (DoneClosed # es) = ([], True)"
| "forwardSignals (TimerFired # es) = forwardSignals es"

end
