(* ===== verification/Supervisor.thy ===== *)
theory Supervisor
  imports Capabilities Process Logging
begin

text \<open>
  The supervisor inside the namespaces: \<open>RunSupervisor\<close> of internal/namespace/namespace_linux.go.
  \<open>supervisor_setup\<close> is everything it does before it starts its goroutines, on the thread \<open>t\<close>
  that runs it; \<open>group_step\<close> is the life of the goroutine group afterwards, driven by the
  order in which its members return; and \<open>RunSupervisor\<close> puts both together around the run
  of the command on the thread \<open>u\<close> that runs the command's goroutine.
\<close>

unbundle bit_operations_syntax

section \<open>The interface\<close>

definition HTTPAddress :: string where "HTTPAddress = ''127.0.0.1:19080''"
definition SOCKAddress :: string where "SOCKAddress = ''127.0.0.1:19081''"
definition RestrictedExecCommand :: string where "RestrictedExecCommand = ''__restricted-exec''"

text \<open>
  Handles (sockets and listeners) are numbers.  \<open>stat_socket\<close> is \<open>os.Stat\<close> with the socket bit
  of the mode; \<open>open_control\<close> opens the socket for the interface requests, \<open>new_ifreq\<close> builds
  one and \<open>get_flags\<close> and \<open>set_flags\<close> are the ioctls.
\<close>

record 'w sup_ops =
  caps :: "'w cap_ops"
  procs :: "'w proc_ops"
  stat_socket :: "string \<Rightarrow> 'w \<Rightarrow> (string, bool) result \<times> 'w"
  open_control :: "'w \<Rightarrow> (errno, nat) result \<times> 'w"
  new_ifreq :: "string \<Rightarrow> string option"
  get_flags :: "nat \<Rightarrow> 'w \<Rightarrow> (errno, 16 word) result \<times> 'w"
  set_flags :: "nat \<Rightarrow> 16 word \<Rightarrow> 'w \<Rightarrow> errno option \<times> 'w"
  tcp_listen :: "string \<Rightarrow> 'w \<Rightarrow> (string, nat) result \<times> 'w"
  close_handle :: "nat \<Rightarrow> 'w \<Rightarrow> 'w"
  set_subreaper :: "'w \<Rightarrow> errno option \<times> 'w"
  executable :: "'w \<Rightarrow> (string, string) result \<times> 'w"

record supervisor_options =
  so_Command :: "string list"
  so_Environment :: "string list"
  so_Directory :: string
  so_HTTPSocket :: string
  so_SOCKSocket :: string
  so_PreservePermissions :: bool
  so_RestrictUnixSockets :: bool
  so_ManageForeground :: bool
  so_KeepUnsafeCapabilities :: "string list"
  so_Logger :: "logger option"

text \<open>A bridge: the listener inside the namespace and the outer socket it forwards to.\<close>

record bridge_server =
  br_listener :: nat
  br_socketPath :: string

datatype child_error =
    LocateExecutable string
  | CommandFailed proc_error
  | BridgeFailed string
  | BridgeStoppedUnexpectedly

datatype sup_error =
    InspectProxySocket string string
  | NotAUnixSocket string
  | OpenLoopbackSocket errno
  | CreateLoopbackRequest string
  | ReadLoopbackFlags errno
  | BringLoopbackUp errno
  | ListenInnerHTTP string
  | ListenInnerSOCKS string
  | SetChildSubreaper errno
  | SupervisorCapabilities cap_error
  | RunIsolatedCommand child_error

section \<open>The setup\<close>

definition validateProxySocket :: "'w sup_ops \<Rightarrow> string \<Rightarrow> 'w \<Rightarrow> (sup_error, unit) result \<times> 'w" where
  "validateProxySocket ops path w =
     (case stat_socket ops path w of
        (Inl e, w) \<Rightarrow> (Err (InspectProxySocket path e), w)
      | (Inr is_socket, w) \<Rightarrow> (if is_socket then Ok () else Err (NotAUnixSocket path), w))"

fun validate_sockets :: "'w sup_ops \<Rightarrow> string list \<Rightarrow> 'w \<Rightarrow> (sup_error, unit) result \<times> 'w" where
  "validate_sockets ops [] w = (Ok (), w)"
| "validate_sockets ops (path # paths) w =
     (if path = [] then validate_sockets ops paths w
      else
        (case validateProxySocket ops path w of
           (Inl e, w) \<Rightarrow> (Err e, w)
         | (Inr _, w) \<Rightarrow> validate_sockets ops paths w))"

definition bringLoopbackUp :: "'w sup_ops \<Rightarrow> 'w \<Rightarrow> (sup_error, unit) result \<times> 'w" where
  "bringLoopbackUp ops w =
     (case open_control ops w of
        (Inl e, w) \<Rightarrow> (Err (OpenLoopbackSocket e), w)
      | (Inr fd, w) \<Rightarrow>
          (case new_ifreq ops ''lo'' of
             Some e \<Rightarrow> (Err (CreateLoopbackRequest e), close_handle ops fd w)
           | None \<Rightarrow>
               (case get_flags ops fd w of
                  (Inl e, w) \<Rightarrow> (Err (ReadLoopbackFlags e), close_handle ops fd w)
                | (Inr flags, w) \<Rightarrow>
                    (case set_flags ops fd (flags OR 1) w of
                       (Some e, w) \<Rightarrow> (Err (BringLoopbackUp e), close_handle ops fd w)
                     | (None, w) \<Rightarrow> (Ok (), close_handle ops fd w)))))"

definition closeBridgeListeners :: "'w sup_ops \<Rightarrow> bridge_server list \<Rightarrow> 'w \<Rightarrow> 'w" where
  "closeBridgeListeners ops servers w = foldl (\<lambda>w server. close_handle ops (br_listener server) w) w servers"

text \<open>The two listeners; the second one closes the first where it fails.\<close>

definition listen_bridge ::
  "'w sup_ops \<Rightarrow> string \<Rightarrow> string \<Rightarrow> (string \<Rightarrow> sup_error) \<Rightarrow> bridge_server list \<Rightarrow> 'w \<Rightarrow>
   (sup_error, bridge_server list) result \<times> 'w" where
  "listen_bridge ops address socket failed servers w =
     (if socket = [] then (Ok servers, w)
      else
        (case tcp_listen ops address w of
           (Inl e, w) \<Rightarrow> (Err (failed e), closeBridgeListeners ops servers w)
         | (Inr l, w) \<Rightarrow> (Ok (servers @ [\<lparr>br_listener = l, br_socketPath = socket\<rparr>]), w)))"

definition drop_capabilities ::
  "text_lib \<Rightarrow> 'w sup_ops \<Rightarrow> thread \<Rightarrow> supervisor_options \<Rightarrow> 'w \<Rightarrow> (cap_error, unit) result \<times> 'w" where
  "drop_capabilities tx ops t options w =
     (if so_PreservePermissions options
      then dropDangerousCapabilities tx (caps ops) t (so_KeepUnsafeCapabilities options) w
      else dropSetupCapabilities (caps ops) t w)"

definition child_attributes ::
  "text_lib \<Rightarrow> supervisor_options \<Rightarrow> (cap_error, sys_proc_attr option) result" where
  "child_attributes tx options =
     (if so_PreservePermissions options
      then rbind (unsafeCapabilityValues tx (so_KeepUnsafeCapabilities options))
             (\<lambda>ambient. Ok (Some (no_attributes\<lparr>AmbientCaps := ambient\<rparr>)))
      else Ok None)"

definition supervisor_setup ::
  "text_lib \<Rightarrow> 'w sup_ops \<Rightarrow> thread \<Rightarrow> supervisor_options \<Rightarrow> 'w \<Rightarrow>
   (sup_error, bridge_server list \<times> sys_proc_attr option) result \<times> 'w" where
  "supervisor_setup tx ops t options w =
     (case validate_sockets ops [so_HTTPSocket options, so_SOCKSocket options] w of
        (Inl e, w) \<Rightarrow> (Err e, w)
      | (Inr _, w) \<Rightarrow>
     (case bringLoopbackUp ops w of
        (Inl e, w) \<Rightarrow> (Err e, w)
      | (Inr _, w) \<Rightarrow>
     (case listen_bridge ops HTTPAddress (so_HTTPSocket options) ListenInnerHTTP [] w of
        (Inl e, w) \<Rightarrow> (Err e, w)
      | (Inr servers, w) \<Rightarrow>
     (case listen_bridge ops SOCKAddress (so_SOCKSocket options) ListenInnerSOCKS servers w of
        (Inl e, w) \<Rightarrow> (Err e, w)
      | (Inr servers, w) \<Rightarrow>
     (case set_subreaper ops w of
        (Some e, w) \<Rightarrow> (Err (SetChildSubreaper e), closeBridgeListeners ops servers w)
      | (None, w) \<Rightarrow>
     (case drop_capabilities tx ops t options w of
        (Inl e, w) \<Rightarrow> (Err (SupervisorCapabilities e), closeBridgeListeners ops servers w)
      | (Inr _, w) \<Rightarrow>
     (case child_attributes tx options of
        Inl e \<Rightarrow> (Err (SupervisorCapabilities e), closeBridgeListeners ops servers w)
      | Inr attributes \<Rightarrow> (Ok (servers, attributes), w))))))))"

section \<open>The goroutine group\<close>

text \<open>
  The members of the group return in some order: a bridge with the error of its \<open>Serve\<close>, the
  command with its result; the caller's context may end at any point.  The first error of a
  member cancels the group's context, and so does the end of the command.
\<close>

datatype group_event =
    BridgeReturned "string option"
  | CommandReturned "(child_error, nat) result"
  | CallerDone

record group_state =
  gs_done :: bool
  gs_error :: "child_error option"
  gs_child :: "(child_error, nat) result option"
  gs_bridges :: nat

definition group_start :: "nat \<Rightarrow> group_state" where
  "group_start n = \<lparr>gs_done = False, gs_error = None, gs_child = None, gs_bridges = n\<rparr>"

definition bridge_result :: "bool \<Rightarrow> string option \<Rightarrow> child_error option" where
  "bridge_result ctx_done err =
     (case err of
        Some e \<Rightarrow> Some (BridgeFailed e)
      | None \<Rightarrow> if \<not> ctx_done then Some BridgeStoppedUnexpectedly else None)"

fun group_step :: "group_event \<Rightarrow> group_state \<Rightarrow> group_state" where
  "group_step (BridgeReturned err) s =
     (let s = s\<lparr>gs_bridges := gs_bridges s - 1\<rparr> in
      case bridge_result (gs_done s) err of
        None \<Rightarrow> s
      | Some e \<Rightarrow>
          s\<lparr>gs_error := (case gs_error s of None \<Rightarrow> Some e | Some first \<Rightarrow> Some first), gs_done := True\<rparr>)"
| "group_step (CommandReturned r) s = s\<lparr>gs_child := Some r, gs_done := True\<rparr>"
| "group_step CallerDone s = s\<lparr>gs_done := True\<rparr>"

text \<open>The result once every member has returned; \<open>None\<close> while \<open>Wait\<close> still blocks.\<close>

definition group_result :: "group_state \<Rightarrow> (sup_error, nat) result option" where
  "group_result s =
     (case gs_child s of
        None \<Rightarrow> None
      | Some r \<Rightarrow>
          if gs_bridges s \<noteq> 0 then None
          else
            Some (case r of
                Inl childErr \<Rightarrow> Err (RunIsolatedCommand childErr)
              | Inr code \<Rightarrow>
                  (case gs_error s of
                     Some infrastructureErr \<Rightarrow> Err (RunIsolatedCommand infrastructureErr)
                   | None \<Rightarrow> Ok code)))"

section \<open>The command\<close>

text \<open>The goroutine of the command, on its thread \<open>u\<close>.\<close>

definition isolated_command ::
  "'w sup_ops \<Rightarrow> supervisor_options \<Rightarrow> 'w \<Rightarrow> (child_error, string list) result \<times> 'w" where
  "isolated_command ops options w =
     (if so_RestrictUnixSockets options then
        (case executable ops w of
           (Inl e, w) \<Rightarrow> (Err (LocateExecutable e), w)
         | (Inr path, w) \<Rightarrow> (Ok ([path, RestrictedExecCommand, ''--''] @ so_Command options), w))
      else (Ok (so_Command options), w))"

definition command_goroutine ::
  "'w sup_ops \<Rightarrow> thread \<Rightarrow> supervisor_options \<Rightarrow> sys_proc_attr option \<Rightarrow> 'w proc \<Rightarrow>
   ((child_error, nat) result \<times> 'w proc) option" where
  "command_goroutine ops u options attributes st =
     (case isolated_command ops options (pw st) of
        (Inl e, w) \<Rightarrow> Some (Err e, st\<lparr>pw := w\<rparr>)
      | (Inr command, w) \<Rightarrow>
          (case runSandboxedProcess (procs ops) u command
              \<lparr>ro_Environment = so_Environment options, ro_Directory = so_Directory options,
               ro_Sys = attributes, JoinParentProcessGroup = False,
               ro_ManageForeground = so_ManageForeground options, ReapProcessGroup = True\<rparr>
              (st\<lparr>pw := w\<rparr>) of
             None \<Rightarrow> None
           | Some (r, st) \<Rightarrow> Some (rmap_err CommandFailed r, st)))"

text \<open>
  \<open>RunSupervisor\<close>, when the other members of the group return as in \<open>before\<close> and \<open>after\<close> around the
  end of the command.  \<open>None\<close>: it has not returned.
\<close>

definition RunSupervisor ::
  "text_lib \<Rightarrow> 'w sup_ops \<Rightarrow> thread \<Rightarrow> thread \<Rightarrow> supervisor_options \<Rightarrow>
   group_event list \<Rightarrow> group_event list \<Rightarrow> 'w proc \<Rightarrow>
   ((sup_error, nat) result \<times> 'w proc) option" where
  "RunSupervisor tx ops t u options before after st =
     (case supervisor_setup tx ops t options (pw st) of
        (Inl e, w) \<Rightarrow> Some (Err e, st\<lparr>pw := w\<rparr>)
      | (Inr (servers, attributes), w) \<Rightarrow>
          (case command_goroutine ops u options attributes (st\<lparr>pw := w\<rparr>) of
             None \<Rightarrow> None
           | Some (r, st) \<Rightarrow>
               (case group_result (foldl (\<lambda>s e. group_step e s) (group_start (length servers))
                        (before @ CommandReturned r # after)) of
                  None \<Rightarrow> None
                | Some result \<Rightarrow> Some (result, st))))"

end
