(* ===== verification/Process_Properties.thy ===== *)
theory Process_Properties
  imports Process
begin

text \<open>
  The properties of a sandboxed run: the exit code, the cleanup on every path out, job
  control, and the return of the wait loops.  Each is a statement about the trace \<open>acts\<close>.
\<close>

section \<open>Reading a trace\<close>

text \<open>The life of the process: the starts of processes, and its ends with their exit codes.\<close>

datatype life_event = Began int | Ended nat

fun life_step :: "int \<Rightarrow> proc_action \<Rightarrow> life_event list" where
  "life_step pid (Started t child (Inr p)) = [Began p]"
| "life_step pid (Waited p (Inr (Exited code))) = (if p = pid then [Ended code] else [])"
| "life_step pid (Waited p (Inr (Signaled sig))) = (if p = pid then [Ended (128 + sig)] else [])"
| "life_step pid _ = []"

definition life :: "int \<Rightarrow> proc_action list \<Rightarrow> life_event list" where
  "life pid tr = concat (map (life_step pid) tr)"

text \<open>
  The events of job control: the child stopped, airjail (\<open>self\<close>) is stopped, the child is continued
  through \<open>target\<close>.  A stop or continue signal to any other process is \<open>Misdirected\<close>.
\<close>

datatype job_event = ChildStopped | StopAirjail | ContinueChild | Misdirected

fun job_step :: "int \<Rightarrow> int \<Rightarrow> int \<Rightarrow> proc_action \<Rightarrow> job_event list" where
  "job_step self target pid (Waited p (Inr (Stopped _))) = (if p = pid then [ChildStopped] else [])"
| "job_step self target pid (Killed p sig) =
     (if sig = SIGSTOP then [if p = self then StopAirjail else Misdirected]
      else if sig = SIGCONT then [if p = target then ContinueChild else Misdirected] else [])"
| "job_step self target pid _ = []"

definition job_events :: "int \<Rightarrow> int \<Rightarrow> int \<Rightarrow> proc_action list \<Rightarrow> job_event list" where
  "job_events self target pid tr = concat (map (job_step self target pid) tr)"

definition no_jobs :: "int \<Rightarrow> proc_action list \<Rightarrow> bool" where
  "no_jobs pid tr \<longleftrightarrow> (\<forall>self target. job_events self target pid tr = [])"

lemma life_simps [simp]:
  "life pid [] = []" "life pid (a # tr) = life_step pid a @ life pid tr"
  "life pid (tr @ tr') = life pid tr @ life pid tr'"
  by (simp_all add: life_def)

lemma job_events_simps [simp]:
  "job_events self target pid [] = []"
  "job_events self target pid (a # tr) = job_step self target pid a @ job_events self target pid tr"
  "job_events self target pid (tr @ tr') = job_events self target pid tr @ job_events self target pid tr'"
  by (simp_all add: job_events_def)

lemma no_jobs_simps [simp]:
  "no_jobs pid []"
  "no_jobs pid (a # tr) \<longleftrightarrow> (\<forall>self target. job_step self target pid a = []) \<and> no_jobs pid tr"
  "no_jobs pid (tr @ tr') \<longleftrightarrow> no_jobs pid tr \<and> no_jobs pid tr'"
  by (auto simp: no_jobs_def)

lemma no_jobsD [simp]: "no_jobs pid tr \<Longrightarrow> job_events self target pid tr = []"
  by (simp add: no_jobs_def)

lemma wait_other [simp]:
  "p \<noteq> pid \<Longrightarrow> life_step pid (Waited p r) = []" "p \<noteq> pid \<Longrightarrow> job_step self target pid (Waited p r) = []"
  by (cases "(pid, Waited p r)" rule: life_step.cases; simp)
    (cases "(self, target, pid, Waited p r)" rule: job_step.cases; simp)

text \<open>Steps that concern the terminal only.\<close>

definition quiet :: "'w proc \<Rightarrow> 'w proc \<Rightarrow> bool" where
  "quiet st st' \<longleftrightarrow> (\<exists>tr. acts st' = acts st @ tr \<and>
     (\<forall>a \<in> set tr. (\<exists>g. a = SetForeground g) \<or> (\<exists>m e. a = IgnoredError m e)))"

lemma quiet_refl [simp]: "quiet st st"
  by (auto simp: quiet_def)

lemma quiet_trans: "quiet st st' \<Longrightarrow> quiet st' st'' \<Longrightarrow> quiet st st''"
  by (fastforce simp: quiet_def)

lemma quiet_trace:
  assumes "quiet st st'"
  shows "\<exists>tr. acts st' = acts st @ tr \<and> life pid tr = [] \<and> no_jobs pid tr"
proof -
  have "life pid tr = [] \<and> no_jobs pid tr"
    if "\<forall>a \<in> set tr. (\<exists>g. a = SetForeground g) \<or> (\<exists>m e. a = IgnoredError m e)" for tr
    using that by (induction tr) auto
  with assms show ?thesis by (fastforce simp: quiet_def)
qed

lemma quiet_terminalForeground: "terminalForeground ops st = (r, st') \<Longrightarrow> acts st' = acts st"
  by (auto simp: terminalForeground_def split: prod.splits sum.splits if_splits)

lemma quiet_transfer: "transferTerminalForegroundIfOwned ops a b st = (e, st') \<Longrightarrow> quiet st st'"
  by (auto simp: transferTerminalForegroundIfOwned_def setTerminalForeground_def quiet_def act_def
      split: prod.splits if_splits dest!: quiet_terminalForeground)

lemma quiet_ignored: "quiet st (snd r) \<Longrightarrow> quiet st (logIgnoredError m r)"
  by (auto simp: quiet_def logIgnoredError_def act_def split: prod.splits option.splits)

lemma quiet_ignored_transfer:
  "quiet st (logIgnoredError m (transferTerminalForegroundIfOwned ops a b st))"
  by (rule quiet_ignored) (metis quiet_transfer surj_pair snd_conv)

lemma quiet_foreground: "quiet st (foreground_to_caller ops j st)" "quiet st (foreground_to_child ops j st)"
  by (simp_all add: foreground_to_caller_def foreground_to_child_def quiet_ignored_transfer)

lemma acts_logIgnoredError_kill:
  "\<exists>tr. acts (logIgnoredError m (do_kill ops target sig st)) = acts st @ Killed target sig # tr \<and>
     life pid tr = [] \<and> no_jobs pid tr"
  by (auto simp: do_kill_def logIgnoredError_def act_def split: prod.splits option.splits)

section \<open>The loops\<close>

text \<open>Induction over the turns of the two loops.\<close>

lemma reap_loop_run:
  assumes "reap_loop ops pg st = Some (r, st')"
    and again: "\<And>st x st1 r st'. do_wait ops (- pg) False st = (x, st1) \<Longrightarrow> is_ok x \<or> x = Err EINTR \<Longrightarrow>
      P st1 r st' \<Longrightarrow> P st r st'"
    and reaped: "\<And>st st'. do_wait ops (- pg) False st = (Err ECHILD, st') \<Longrightarrow> P st (Ok ()) st'"
    and failed: "\<And>st e st'. do_wait ops (- pg) False st = (Err e, st') \<Longrightarrow> e \<noteq> EINTR \<Longrightarrow> e \<noteq> ECHILD \<Longrightarrow>
      P st (Err (ReapRemaining pg e)) st'"
  shows "P st r st'"
proof -
  let ?Q = "\<lambda>ops' pg' st y. ops' = ops \<and> pg' = pg \<longrightarrow> P st (fst y) (snd y)"
  have "?Q ops pg st (r, st')"
  proof (rule reap_loop.raw_induct [of ?Q, OF _ assms(1)], intro impI, elim conjE)
    fix loop :: "'a proc_ops \<Rightarrow> int \<Rightarrow> 'a proc \<Rightarrow> ((proc_error, unit) result \<times> 'a proc) option"
      and ops' pg' st y
    assume IH: "\<And>ops' pg' st y. loop ops' pg' st = Some y \<Longrightarrow> ?Q ops' pg' st y"
      and body: "(case do_wait ops' (- pg') False st of
        (r, st) \<Rightarrow> (case r of
             Inr _ \<Rightarrow> loop ops' pg' st
           | Inl err \<Rightarrow>
               if err = EINTR then loop ops' pg' st
               else if err = ECHILD then Some (Ok (), st)
               else Some (Err (ReapRemaining pg' err), st))) = Some y"
      and eq: "ops' = ops" "pg' = pg"
    obtain x st1 where d: "do_wait ops (- pg) False st = (x, st1)" by force
    show "P st (fst y) (snd y)"
    proof (cases "is_ok x \<or> x = Err EINTR")
      case True
      with body eq d have "loop ops pg st1 = Some y" by (auto split: sum.splits)
      then show ?thesis using IH again [OF d True] by blast
    next
      case False
      then show ?thesis using body eq d reaped failed by (auto split: sum.splits if_splits)
    qed
  qed
  then show ?thesis by simp
qed

lemma wait_loop_run:
  assumes "wait_loop ops j st = Some ((fin, r), st')"
    and again: "\<And>st x st1 fin r st'. do_wait ops (job_pid j) True st = (x, st1) \<Longrightarrow>
      x = Ok Continued \<or> x = Err EINTR \<Longrightarrow> P st1 fin r st' \<Longrightarrow> P st fin r st'"
    and stopped: "\<And>st sig st1 st2 fin r st'. do_wait ops (job_pid j) True st = (Ok (Stopped sig), st1) \<Longrightarrow>
      child_stopped ops j st1 = (None, st2) \<Longrightarrow> P st2 fin r st' \<Longrightarrow> P st fin r st'"
    and ended: "\<And>st status st1 code fin r st'. do_wait ops (job_pid j) True st = (Ok status, st1) \<Longrightarrow>
      life_step (job_pid j) (Waited (job_pid j) (Ok status)) = [Ended code] \<Longrightarrow>
      child_ended ops j code st1 = Some ((fin, r), st') \<Longrightarrow> P st fin r st'"
    and stuck: "\<And>st sig st1 e st'. do_wait ops (job_pid j) True st = (Ok (Stopped sig), st1) \<Longrightarrow>
      child_stopped ops j st1 = (Some e, st') \<Longrightarrow> P st False (Err (StopSupervisor e)) st'"
    and failed: "\<And>st e st'. do_wait ops (job_pid j) True st = (Err e, st') \<Longrightarrow> e \<noteq> EINTR \<Longrightarrow>
      P st False (Err (WaitForCommand (job_command j) e)) st'"
  shows "P st fin r st'"
proof -
  let ?Q = "\<lambda>ops' j' st y. ops' = ops \<and> j' = j \<longrightarrow> P st (fst (fst y)) (snd (fst y)) (snd y)"
  have "?Q ops j st ((fin, r), st')"
  proof (rule wait_loop.raw_induct [of ?Q, OF _ assms(1)], intro impI, elim conjE)
    fix loop :: "'a proc_ops \<Rightarrow> job \<Rightarrow> 'a proc \<Rightarrow> ((bool \<times> (proc_error, nat) result) \<times> 'a proc) option"
      and ops' j' st y
    assume IH: "\<And>ops' j' st y. loop ops' j' st = Some y \<Longrightarrow> ?Q ops' j' st y"
      and body: "(case do_wait ops' (job_pid j') True st of
        (r, st) \<Rightarrow> (case r of
             Inl err \<Rightarrow>
               if err = EINTR then loop ops' j' st
               else Some ((False, Err (WaitForCommand (job_command j') err)), st)
           | Inr status \<Rightarrow>
               (case status of
                  Exited code \<Rightarrow> child_ended ops' j' code st
                | Signaled sig \<Rightarrow> child_ended ops' j' (128 + sig) st
                | Stopped sig \<Rightarrow>
                    (case child_stopped ops' j' st of
                       (Some err, st) \<Rightarrow> Some ((False, Err (StopSupervisor err)), st)
                     | (None, st) \<Rightarrow> loop ops' j' st)
                | Continued \<Rightarrow> loop ops' j' st))) = Some y"
      and eq: "ops' = ops" "j' = j"
    obtain x st1 where d: "do_wait ops (job_pid j) True st = (x, st1)" by force
    obtain fin r st' where y: "y = ((fin, r), st')" by (metis surj_pair)
    have IH': "loop ops j st = Some y \<Longrightarrow> P st fin r st'" for st using IH y by fastforce
    show "P st (fst (fst y)) (snd (fst y)) (snd y)"
    proof (cases x)
      case (Inl e)
      then show ?thesis
        using body eq d y again [OF d] failed IH' by (cases "e = EINTR") auto
    next
      case (Inr status)
      show ?thesis
      proof (cases status)
        case (Stopped sig)
        then show ?thesis
          using body eq d y Inr IH' stopped stuck
          by (cases "child_stopped ops j st1") (auto split: option.splits)
      qed (use body eq d y Inr IH' again [OF d] ended [of st status st1] in auto)
    qed
  qed
  then show ?thesis by simp
qed

section \<open>The loops\<close>

lemma acts_do_wait: "do_wait ops pid all st = (x, st') \<Longrightarrow> acts st' = acts st @ [Waited pid x]"
  by (auto simp: do_wait_def act_def split: prod.splits)

lemma reap_loop_trace:
  assumes "reap_loop ops pg st = Some (r, st')" and "0 < pg"
  shows "\<exists>tr. acts st' = acts st @ tr \<and> life pg tr = [] \<and> no_jobs pg tr \<and>
    (r = Ok () \<longrightarrow> Waited (- pg) (Err ECHILD) \<in> set tr) \<and> (\<forall>e. r = Err e \<longrightarrow> (\<exists>x. e = ReapRemaining pg x))"
  using assms(1)
proof (rule reap_loop_run)
  fix st x st1 r st'
  assume d: "do_wait ops (- pg) False st = (x, st1)"
    and "\<exists>tr. acts st' = acts st1 @ tr \<and> life pg tr = [] \<and> no_jobs pg tr \<and>
      (r = Ok () \<longrightarrow> Waited (- pg) (Err ECHILD) \<in> set tr) \<and> (\<forall>e. r = Err e \<longrightarrow> (\<exists>x. e = ReapRemaining pg x))"
  then obtain tr where "acts st' = acts st1 @ tr" "life pg tr = []" "no_jobs pg tr"
      "r = Ok () \<longrightarrow> Waited (- pg) (Err ECHILD) \<in> set tr" "\<forall>e. r = Err e \<longrightarrow> (\<exists>x. e = ReapRemaining pg x)"
    by blast
  then show "\<exists>tr. acts st' = acts st @ tr \<and> life pg tr = [] \<and> no_jobs pg tr \<and>
      (r = Ok () \<longrightarrow> Waited (- pg) (Err ECHILD) \<in> set tr) \<and> (\<forall>e. r = Err e \<longrightarrow> (\<exists>x. e = ReapRemaining pg x))"
    using acts_do_wait [OF d] assms(2) by (intro exI [of _ "Waited (- pg) x # tr"]) auto
qed (use assms(2) in \<open>auto dest!: acts_do_wait\<close>)

lemma child_ended_trace:
  assumes "child_ended ops j code st = Some ((fin, r), st')" and "0 < job_pid j"
  shows "fin \<and> (\<forall>n. r = Ok n \<longrightarrow> n = code) \<and>
    (\<forall>e. r = Err e \<longrightarrow> (\<exists>x. e = KillRemaining (job_pid j) x \<or> e = ReapRemaining (job_pid j) x)) \<and> (\<exists>tr. acts st' = acts st @ tr \<and> life (job_pid j) tr = [] \<and>
    no_jobs (job_pid j) tr \<and>
    (job_reap j \<longrightarrow> Killed (- job_pid j) SIGKILL \<in> set tr \<and>
       (\<forall>n. r = Ok n \<longrightarrow> Waited (- job_pid j) (Err ECHILD) \<in> set tr)))"
proof (cases "job_reap j")
  case True
  obtain e st1 where k: "do_kill ops (- job_pid j) SIGKILL st = (e, st1)" by force
  then have a: "acts st1 = acts st @ [Killed (- job_pid j) SIGKILL]"
    by (auto simp: do_kill_def act_def split: prod.splits)
  have s: "SIGKILL \<noteq> SIGSTOP" "SIGKILL \<noteq> SIGCONT"
    by (simp_all add: SIGKILL_def SIGSTOP_def SIGCONT_def)
  show ?thesis
  proof (cases "e \<noteq> None \<and> e \<noteq> Some ESRCH")
    case bad: True
    then show ?thesis
      using assms(1) True k a s
      by (auto simp: child_ended_def terminateAndReapProcessGroup_def)
  next
    case False
    then obtain r1 where r1: "reap_loop ops (job_pid j) st1 = Some (r1, st')"
      "fin" "\<forall>n. r = Ok n \<longrightarrow> n = code \<and> r1 = Ok ()" "\<forall>e. r = Err e \<longrightarrow> r1 = Err e"
      using assms(1) True k
      by (auto simp: child_ended_def terminateAndReapProcessGroup_def split: option.splits sum.splits prod.splits)
    from reap_loop_trace [OF r1(1) assms(2)] obtain tr where
      tr: "acts st' = acts st1 @ tr" "life (job_pid j) tr = []" "no_jobs (job_pid j) tr"
        "r1 = Ok () \<longrightarrow> Waited (- job_pid j) (Err ECHILD) \<in> set tr"
        "\<forall>e. r1 = Err e \<longrightarrow> (\<exists>x. e = ReapRemaining (job_pid j) x)" by blast
    show ?thesis
      using r1 tr a s by (auto intro!: exI [of _ "Killed (- job_pid j) SIGKILL # tr"])
  qed
qed (use assms in \<open>auto simp: child_ended_def\<close>)

lemma child_stopped_trace:
  assumes "child_stopped ops j st = (e, st')"
  shows "\<exists>tr. acts st' = acts st @ tr \<and> life pid tr = [] \<and>
    (\<forall>self. (\<forall>w. getpid ops w = self) \<longrightarrow> job_events self (job_target j) pid tr =
       (if e = None then [StopAirjail, ContinueChild] else [StopAirjail]))"
proof -
  let ?st1 = "foreground_to_caller ops j st"
  obtain e2 st2 where d: "do_kill ops (getpid ops (pw ?st1)) SIGSTOP ?st1 = (e2, st2)" by force
  then have a2: "acts st2 = acts ?st1 @ [Killed (getpid ops (pw ?st1)) SIGSTOP]"
    by (auto simp: do_kill_def act_def split: prod.splits)
  obtain tr1 where t1: "acts ?st1 = acts st @ tr1" "life pid tr1 = []" "no_jobs pid tr1"
    using quiet_trace [OF quiet_foreground(1)] by blast
  show ?thesis
  proof (cases e2)
    case (Some err)
    then show ?thesis using assms d a2 t1 by (auto simp: child_stopped_def Let_def)
  next
    case None
    let ?st3 = "foreground_to_child ops j st2"
    have st': "e = None" "st' = logIgnoredError ''continue child process after resume'' (do_kill ops (job_target j) SIGCONT ?st3)"
      using assms d None by (auto simp: child_stopped_def Let_def)
    obtain tr3 where t3: "acts ?st3 = acts st2 @ tr3" "life pid tr3 = []" "no_jobs pid tr3"
      using quiet_trace [OF quiet_foreground(2)] by blast
    obtain tr4 where t4: "acts st' = acts ?st3 @ Killed (job_target j) SIGCONT # tr4"
      "life pid tr4 = []" "no_jobs pid tr4"
      using acts_logIgnoredError_kill [of _ ops "job_target j" SIGCONT ?st3] st'(2) by blast
    have "SIGCONT \<noteq> SIGSTOP" by (simp add: SIGCONT_def SIGSTOP_def)
    then show ?thesis using st'(1) a2 t1 t3 t4 by auto
  qed
qed

text \<open>
  Job control is kept: each stop of the child is followed by a stop of airjail itself and then by
  the continuation of the child, and no other process is stopped or continued.
\<close>

definition job_control :: "'w proc_ops \<Rightarrow> int \<Rightarrow> int \<Rightarrow> proc_action list \<Rightarrow> bool" where
  "job_control ops target pid tr \<longleftrightarrow>
     (\<forall>self. (\<forall>w. getpid ops w = self) \<longrightarrow> (\<exists>k. job_events self target pid tr =
        concat (replicate k [ChildStopped, StopAirjail, ContinueChild])))"

lemma job_control_none: "no_jobs pid tr \<Longrightarrow> job_control ops target pid tr"
  by (auto simp: job_control_def intro: exI [of _ 0])

lemma job_control_append:
  assumes "no_jobs pid tr" shows "job_control ops target pid (tr @ tr') \<longleftrightarrow> job_control ops target pid tr'"
    and "job_control ops target pid (tr' @ tr) \<longleftrightarrow> job_control ops target pid tr'"
  using assms by (simp_all add: job_control_def)

lemma job_control_Cons:
  assumes "\<And>self. job_step self target pid a = []"
  shows "job_control ops target pid (a # tr) \<longleftrightarrow> job_control ops target pid tr"
  using assms by (simp add: job_control_def)

lemma job_control_turn:
  assumes "\<forall>self. (\<forall>w. getpid ops w = self) \<longrightarrow> job_events self target pid tr1 = [StopAirjail, ContinueChild]"
    and "job_control ops target pid tr"
  shows "job_control ops target pid (Waited pid (Ok (Stopped sig)) # tr1 @ tr)"
  unfolding job_control_def
proof (intro allI impI)
  fix self assume self: "\<forall>w. getpid ops w = self"
  with assms(2) obtain k where "job_events self target pid tr =
      concat (replicate k [ChildStopped, StopAirjail, ContinueChild])"
    unfolding job_control_def by blast
  with assms(1) self show "\<exists>k. job_events self target pid (Waited pid (Ok (Stopped sig)) # tr1 @ tr) =
      concat (replicate k [ChildStopped, StopAirjail, ContinueChild])"
    by (intro exI [of _ "Suc k"]) simp
qed

text \<open>What the trace of the wait loop says.\<close>

definition loop_trace ::
  "'w proc_ops \<Rightarrow> job \<Rightarrow> bool \<Rightarrow> (proc_error, nat) result \<Rightarrow> proc_action list \<Rightarrow> bool" where
  "loop_trace ops j fin r tr \<longleftrightarrow>
     (\<exists>code. life (job_pid j) tr = (if fin then [Ended code] else []) \<and> (\<forall>n. r = Ok n \<longrightarrow> fin \<and> n = code)) \<and>
     (fin \<and> job_reap j \<longrightarrow> Killed (- job_pid j) SIGKILL \<in> set tr) \<and>
     (is_ok r \<and> job_reap j \<longrightarrow> Waited (- job_pid j) (Err ECHILD) \<in> set tr) \<and>
     (is_ok r \<longrightarrow> job_control ops (job_target j) (job_pid j) tr) \<and>
     (\<forall>e. r = Err e \<longrightarrow> (\<exists>name x. e \<in> (if fin then {KillRemaining (job_pid j) x, ReapRemaining (job_pid j) x}
        else {WaitForCommand name x, StopSupervisor x})))"

lemma wait_loop_trace:
  assumes "wait_loop ops j st = Some ((fin, r), st')" and pid: "0 < job_pid j"
  shows "\<exists>tr. acts st' = acts st @ tr \<and> loop_trace ops j fin r tr"
  using assms(1)
proof (rule wait_loop_run)
  fix st x st1 fin r st'
  assume d: "do_wait ops (job_pid j) True st = (x, st1)" "x = Ok Continued \<or> x = Err EINTR"
    and "\<exists>tr. acts st' = acts st1 @ tr \<and> loop_trace ops j fin r tr"
  then obtain tr where "acts st' = acts st1 @ tr" "loop_trace ops j fin r tr" by blast
  then show "\<exists>tr. acts st' = acts st @ tr \<and> loop_trace ops j fin r tr"
    using acts_do_wait [OF d(1)] d(2)
    by (intro exI [of _ "Waited (job_pid j) x # tr"]) (auto simp: loop_trace_def job_control_Cons)
next
  fix st sig st1 st2 fin r st'
  assume d: "do_wait ops (job_pid j) True st = (Ok (Stopped sig), st1)"
    and c: "child_stopped ops j st1 = (None, st2)"
    and "\<exists>tr. acts st' = acts st2 @ tr \<and> loop_trace ops j fin r tr"
  then obtain tr where tr: "acts st' = acts st2 @ tr" "loop_trace ops j fin r tr" by blast
  from child_stopped_trace [OF c, of "job_pid j"] obtain tr1 where
    tr1: "acts st2 = acts st1 @ tr1" "life (job_pid j) tr1 = []"
      "\<forall>self. (\<forall>w. getpid ops w = self) \<longrightarrow>
        job_events self (job_target j) (job_pid j) tr1 = [StopAirjail, ContinueChild]" by auto
  have "loop_trace ops j fin r (Waited (job_pid j) (Ok (Stopped sig)) # tr1 @ tr)"
    using tr(2) tr1(2) job_control_turn [OF tr1(3)] unfolding loop_trace_def by auto
  then show "\<exists>tr. acts st' = acts st @ tr \<and> loop_trace ops j fin r tr"
    using acts_do_wait [OF d] tr1(1) tr(1) by auto
next
  fix st status st1 code fin r st'
  assume d: "do_wait ops (job_pid j) True st = (Ok status, st1)"
    and c: "life_step (job_pid j) (Waited (job_pid j) (Ok status)) = [Ended code]"
    and e: "child_ended ops j code st1 = Some ((fin, r), st')"
  from child_ended_trace [OF e pid] obtain tr where
    tr: "acts st' = acts st1 @ tr" "life (job_pid j) tr = []" "no_jobs (job_pid j) tr"
      "job_reap j \<longrightarrow> Killed (- job_pid j) SIGKILL \<in> set tr \<and>
         (\<forall>n. r = Ok n \<longrightarrow> Waited (- job_pid j) (Err ECHILD) \<in> set tr)"
    and fin: fin "\<forall>n. r = Ok n \<longrightarrow> n = code"
      "\<forall>e. r = Err e \<longrightarrow> (\<exists>x. e = KillRemaining (job_pid j) x \<or> e = ReapRemaining (job_pid j) x)" by blast
  have "job_step self target (job_pid j) (Waited (job_pid j) (Ok status)) = []" for self target
    using c by (cases status) auto
  then have "loop_trace ops j fin r (Waited (job_pid j) (Ok status) # tr)"
    using tr fin c by (auto simp: loop_trace_def is_ok_iff job_control_Cons job_control_none)
  then show "\<exists>tr. acts st' = acts st @ tr \<and> loop_trace ops j fin r tr"
    using acts_do_wait [OF d] tr(1) by auto
next
  fix st sig st1 e st'
  assume d: "do_wait ops (job_pid j) True st = (Ok (Stopped sig), st1)"
    and c: "child_stopped ops j st1 = (Some e, st')"
  from child_stopped_trace [OF c, of "job_pid j"] obtain tr1 where
    "acts st' = acts st1 @ tr1" "life (job_pid j) tr1 = []" by auto
  then show "\<exists>tr. acts st' = acts st @ tr \<and> loop_trace ops j False (Err (StopSupervisor e)) tr"
    using acts_do_wait [OF d] by (auto simp: loop_trace_def)
next
  fix st e st'
  assume d: "do_wait ops (job_pid j) True st = (Err e, st')" "e \<noteq> EINTR"
  then show "\<exists>tr. acts st' = acts st @ tr \<and> loop_trace ops j False (Err (WaitForCommand (job_command j) e)) tr"
    using acts_do_wait [OF d(1)] by (auto simp: loop_trace_def)
qed

section \<open>A whole run\<close>

text \<open>A run either starts no process, or is the wait loop of one followed by the cleanup.\<close>

definition the_job :: "run_options \<Rightarrow> int \<Rightarrow> job \<Rightarrow> bool" where
  "the_job options pid j \<longleftrightarrow> job_pid j = pid \<and> job_reap j = ReapProcessGroup options \<and>
     job_target j = (if JoinParentProcessGroup options then pid else - pid) \<and>
     (job_manage j \<longrightarrow> ro_ManageForeground options \<and> \<not> JoinParentProcessGroup options)"

definition the_child :: "'w proc_ops \<Rightarrow> string list \<Rightarrow> run_options \<Rightarrow> exec_cmd \<Rightarrow> bool" where
  "the_child ops command options child \<longleftrightarrow> cmd_args child = command \<and>
     cmd_env child = ro_Environment options \<and> cmd_dir child = ro_Directory options \<and>
     (\<exists>manage. cmd_sys child = process_attributes ops options manage)"

lemma runSandboxedProcess_cases:
  assumes "runSandboxedProcess ops t command options st = Some (r, st')"
  obtains (no_start) e pre where "r = Err e" "acts st' = acts st @ pre" "\<forall>p. life p pre = []"
    | (started) child pid j fin w0 st1 st2 pre where "acts st1 = acts st @ pre @ [Started t child (Ok pid)]"
      "set pre \<subseteq> {IgnoreTTOU}" "the_job options pid j" "the_child ops command options child"
      "wait_loop ops j st1 = Some ((fin, r), st2)" "st' = cleanup ops j fin st2"
      "start ops t child w0 = (Ok pid, pw st1)"
      "w0 = pw (snd (terminalForeground ops (st\<lparr>pw := snd (look_path ops (hd command) (pw st))\<rparr>)))"
proof -
  show ?thesis
  proof (cases command)
    case Nil
    then show ?thesis using assms no_start [of EmptyCommand "[]"] by (auto simp: runSandboxedProcess_def)
  next
    case (Cons name args)
    obtain p w where l: "look_path ops name (pw st) = (p, w)" by force
    show ?thesis
    proof (cases p)
      case (Inl e)
      then show ?thesis
        using assms no_start [of "LookUpCommand name e" "[]"] Cons l by (auto simp: runSandboxedProcess_def)
    next
      case (Inr path)
      obtain terminal original sta where f: "terminalForeground ops (st\<lparr>pw := w\<rparr>) = ((terminal, original), sta)"
        by (metis surj_pair)
      then have a: "acts sta = acts st" using quiet_terminalForeground by fastforce
      define manage where "manage = (ro_ManageForeground options \<and>
        shouldManageForeground terminal (JoinParentProcessGroup options) original (getpgrp ops (pw sta)))"
      define stb where "stb = (if manage then act IgnoreTTOU sta else sta)"
      define child where "child = \<lparr>cmd_path = path, cmd_args = command, cmd_env = ro_Environment options,
        cmd_dir = ro_Directory options, cmd_sys = process_attributes ops options manage\<rparr>"
      obtain x w2 where s: "start ops t child (pw stb) = (x, w2)" by force
      define stc where "stc = act (Started t child x) (stb\<lparr>pw := w2\<rparr>)"
      have ac: "acts stc = acts st @ (if manage then [IgnoreTTOU] else []) @ [Started t child x]"
        using a by (simp add: stc_def stb_def act_def)
      define j where "j pid = \<lparr>job_command = name, job_pid = pid,
        job_target = (if JoinParentProcessGroup options then pid else - pid),
        job_manage = manage, job_original = original, job_reap = ReapProcessGroup options\<rparr>" for pid
      have run: "run_child ops t name child j stb = Some (r, st')"
        using assms Cons l Inr f
        by (simp add: runSandboxedProcess_def Let_def manage_def child_def stb_def j_def [abs_def])
      show ?thesis
      proof (cases x)
        case (Inl e)
        then show ?thesis
          using run s ac no_start [of "StartCommand name e" "(if manage then [IgnoreTTOU] else []) @ [Started t child x]"]
          by (simp add: run_child_def stc_def split: if_splits)
      next
        case (Inr pid)
        then obtain fin st2 where "wait_loop ops (j pid) stc = Some ((fin, r), st2)"
          "st' = cleanup ops (j pid) fin st2"
          using run s by (auto simp: run_child_def stc_def split: option.splits prod.splits)
        moreover have "the_job options pid (j pid)" "the_child ops command options child"
          by (auto simp: the_job_def the_child_def j_def child_def manage_def shouldManageForeground_def)
        moreover have "start ops t child (pw stb) = (Ok pid, pw stc)"
          using s Inr by (simp add: stc_def act_def)
        moreover have "acts stc = acts st @ (if manage then [IgnoreTTOU] else []) @ [Started t child (Ok pid)]"
          using ac Inr by simp
        moreover have "set (if manage then [IgnoreTTOU] else []) \<subseteq> {IgnoreTTOU}" by auto
        moreover have "pw stb = pw (snd (terminalForeground ops (st\<lparr>pw := snd (look_path ops (hd command) (pw st))\<rparr>)))"
          using f l Cons by (simp add: stb_def act_def)
        ultimately show ?thesis by (intro started)
      qed
    qed
  qed
qed

lemma cleanup_trace:
  "\<exists>tr. acts (cleanup ops j fin st) = acts st @ tr @ [SignalsStopped] \<and> life pid tr = [] \<and>
     (fin \<longrightarrow> no_jobs pid tr) \<and> Released (job_pid j) \<in> set tr \<and>
     (\<not> fin \<longrightarrow> Killed (job_target j) SIGKILL \<in> set tr)"
proof -
  define st1 where "st1 = (if \<not> fin
    then logIgnoredError ''kill process during cleanup'' (do_kill ops (job_target j) SIGKILL st) else st)"
  define st2 where "st2 = (if job_manage j
    then logIgnoredError ''restore terminal foreground process group during cleanup''
      (transferTerminalForegroundIfOwned ops (job_pid j) (job_original j) st1) else st1)"
  obtain e w where r: "release ops (job_pid j) (pw st2) = (e, w)" by force
  have c: "acts (cleanup ops j fin st) = acts st2 @ Released (job_pid j) #
      (case e of None \<Rightarrow> [] | Some x \<Rightarrow> [IgnoredError ''release process during cleanup'' x]) @ [SignalsStopped]"
    by (auto simp: cleanup_def Let_def st1_def [symmetric] st2_def [symmetric] r logIgnoredError_def act_def
        split: option.splits)
  have "\<exists>tr. acts st1 = acts st @ tr \<and> life pid tr = [] \<and> (fin \<longrightarrow> no_jobs pid tr) \<and>
      (\<not> fin \<longrightarrow> Killed (job_target j) SIGKILL \<in> set tr)"
    using acts_logIgnoredError_kill [of "''kill process during cleanup''" ops "job_target j" SIGKILL st pid]
    by (auto simp: st1_def)
  moreover have "quiet st1 st2" by (simp add: st2_def quiet_ignored_transfer)
  ultimately obtain tr1 tr2 where "acts st1 = acts st @ tr1" "life pid tr1 = []"
    "fin \<longrightarrow> no_jobs pid tr1" "\<not> fin \<longrightarrow> Killed (job_target j) SIGKILL \<in> set tr1"
    "acts st2 = acts st1 @ tr2" "life pid tr2 = []" "no_jobs pid tr2"
    using quiet_trace by blast
  then show ?thesis
    unfolding c
    by (intro exI [of _ "tr1 @ tr2 @ Released (job_pid j) #
          (case e of None \<Rightarrow> [] | Some x \<Rightarrow> [IgnoredError ''release process during cleanup'' x])"])
      (auto split: option.splits)
qed

definition positive_pids :: "'w proc_ops \<Rightarrow> bool" where
  "positive_pids ops \<longleftrightarrow> (\<forall>t child w pid w'. start ops t child w = (Ok pid, w') \<longrightarrow> 0 < pid)"

text \<open>The parts of the trace of a run that started a process.\<close>

definition run_parts ::
  "'w proc_ops \<Rightarrow> thread \<Rightarrow> string list \<Rightarrow> run_options \<Rightarrow> (proc_error, nat) result \<Rightarrow> proc_action list \<Rightarrow>
   exec_cmd \<Rightarrow> int \<Rightarrow> job \<Rightarrow> bool \<Rightarrow> proc_action list \<Rightarrow> proc_action list \<Rightarrow> proc_action list \<Rightarrow> bool" where
  "run_parts ops t command options r tr child pid j fin tr0 tr1 tr2 \<longleftrightarrow>
     tr = tr0 @ Started t child (Ok pid) # tr1 @ tr2 @ [SignalsStopped] \<and>
     (\<forall>p. life p tr0 = []) \<and> (\<forall>p. no_jobs p tr0) \<and>
     the_child ops command options child \<and> the_job options pid j \<and>
     loop_trace ops j fin r tr1 \<and> life pid tr2 = [] \<and> (fin \<longrightarrow> no_jobs pid tr2) \<and>
     Released pid \<in> set tr2 \<and> (\<not> fin \<longrightarrow> Killed (job_target j) SIGKILL \<in> set tr2)"

lemma run_trace:
  assumes "runSandboxedProcess ops t command options st = Some (r, st')" and "positive_pids ops"
  obtains (no_start) e pre where "r = Err e" "acts st' = acts st @ pre" "\<forall>p. life p pre = []"
    | (started) tr child pid j fin tr0 tr1 tr2 where "acts st' = acts st @ tr"
      "run_parts ops t command options r tr child pid j fin tr0 tr1 tr2"
      "\<exists>w1. start ops t child
        (pw (snd (terminalForeground ops (st\<lparr>pw := snd (look_path ops (hd command) (pw st))\<rparr>)))) = (Ok pid, w1)"
  using assms(1)
proof (cases rule: runSandboxedProcess_cases)
  case (no_start e pre)
  then show ?thesis by (rule that(1))
next
  case (started child pid j fin w0 st1 st2 pre)
  then have j: "job_pid j = pid" by (simp add: the_job_def)
  have "0 < pid" using started(7) assms(2) unfolding positive_pids_def by blast
  with j have pid: "0 < job_pid j" "job_pid j = pid" by simp_all
  obtain tr1 where tr1: "acts st2 = acts st1 @ tr1" "loop_trace ops j fin r tr1"
    using wait_loop_trace [OF started(5) pid(1)] by blast
  obtain tr2 where tr2: "acts st' = acts st2 @ tr2 @ [SignalsStopped]" "life pid tr2 = []"
    "fin \<longrightarrow> no_jobs pid tr2" "Released pid \<in> set tr2"
    "\<not> fin \<longrightarrow> Killed (job_target j) SIGKILL \<in> set tr2"
    using cleanup_trace [of ops j fin st2 pid] started(6) pid(2) by auto
  have "life p pre = [] \<and> no_jobs p pre" for p using started(2) by (induction pre) auto
  then have "run_parts ops t command options r (pre @ Started t child (Ok pid) # tr1 @ tr2 @ [SignalsStopped])
      child pid j fin pre tr1 tr2"
    using started tr1 tr2 by (simp add: run_parts_def)
  moreover have "acts st' = acts st @ pre @ Started t child (Ok pid) # tr1 @ tr2 @ [SignalsStopped]"
    using started(1) tr1(1) tr2(1) by simp
  ultimately show ?thesis using started(7,8) by (intro that(2)) auto
qed

lemma life_Began: "Began q \<in> set (life pid tr) \<longleftrightarrow> Began q \<in> set (life p tr)"
proof -
  have "Began q \<in> set (life_step pid a) \<longleftrightarrow> Began q \<in> set (life_step p a)" for a
    by (cases "(pid, a)" rule: life_step.cases) auto
  then show ?thesis by (simp add: life_def)
qed

lemma run_parts_Began:
  assumes "run_parts ops t command options r tr child p j fin tr0 tr1 tr2"
  shows "Began q \<in> set (life pid tr) \<longleftrightarrow> q = p"
proof -
  have parts: "tr = tr0 @ Started t child (Ok p) # tr1 @ tr2 @ [SignalsStopped]" "loop_trace ops j fin r tr1"
    "life p tr0 = []" "life p tr2 = []" "job_pid j = p"
    using assms by (simp_all add: run_parts_def the_job_def)
  then obtain code where "life p tr1 = (if fin then [Ended code] else [])"
    by (auto simp: loop_trace_def)
  then show ?thesis unfolding life_Began [of q pid tr p] using parts by auto
qed

lemma run_exit_code:
  assumes "runSandboxedProcess ops t command options st = Some (Ok n, st')" and "positive_pids ops"
  shows "\<exists>child pid tr. acts st' = acts st @ tr \<and> Started t child (Ok pid) \<in> set tr \<and>
    cmd_args child = command \<and> cmd_env child = ro_Environment options \<and>
    cmd_dir child = ro_Directory options \<and> life pid tr = [Began pid, Ended n] \<and>
    job_control ops (if JoinParentProcessGroup options then pid else - pid) pid tr"
  using assms
proof (cases rule: run_trace)
  case (started tr child pid j fin tr0 tr1 tr2)
  then have lt: "loop_trace ops j fin (Ok n) tr1" and j: "job_pid j = pid"
    "job_target j = (if JoinParentProcessGroup options then pid else - pid)"
    by (simp_all add: run_parts_def the_job_def)
  from lt have fin: "fin" "life pid tr1 = [Ended n]" "job_control ops (job_target j) pid tr1"
    unfolding loop_trace_def j(1) by auto
  from started(2) fin have "job_control ops (job_target j) pid tr"
    by (simp add: run_parts_def job_control_append job_control_Cons)
  with started fin j(2) have "acts st' = acts st @ tr \<and> Started t child (Ok pid) \<in> set tr \<and>
    cmd_args child = command \<and> cmd_env child = ro_Environment options \<and>
    cmd_dir child = ro_Directory options \<and> life pid tr = [Began pid, Ended n] \<and>
    job_control ops (if JoinParentProcessGroup options then pid else - pid) pid tr"
    by (simp add: run_parts_def the_child_def)
  then show ?thesis by blast
qed simp

text \<open>
  C21: a sandboxed run that returns an exit code started exactly one process, with the given
  command, environment and directory, waited for exactly one end of it, and the code is the
  exit status of that end, or 128 plus the number of the signal that killed it.  Whenever the
  process stopped, airjail sent SIGSTOP to itself, and after it was resumed SIGCONT to the process,
  or to its group where it has one of its own; it stopped and continued no other process.
\<close>

theorem sandboxed_exit_code:
  assumes "runSandboxedProcess ops t command options st = Some (Ok n, st')" and "positive_pids ops"
    and "\<And>w. getpid ops w = self"
  shows "\<exists>child pid tr k. acts st' = acts st @ tr \<and> Started t child (Ok pid) \<in> set tr \<and>
    cmd_args child = command \<and> cmd_env child = ro_Environment options \<and>
    cmd_dir child = ro_Directory options \<and> life pid tr = [Began pid, Ended n] \<and>
    job_events self (if JoinParentProcessGroup options then pid else - pid) pid tr =
      concat (replicate k [ChildStopped, StopAirjail, ContinueChild])"
  using run_exit_code [OF assms(1,2)] assms(3) unfolding job_control_def by blast

text \<open>
  C22: the cleanup after a run.  Whatever way a run ends that started a process, the process was
  waited for until its end or was sent SIGKILL, with its group if it has one of its own; the process
  is released, and signals are no longer forwarded when the call returns.  Where the process group
  is to be reaped and is its own, or the process has ended, the whole group was sent SIGKILL; and a
  run that returns an exit code has waited until no member of the group was left.  An error is one
  of waiting for the process, of stopping airjail, or of killing or reaping the group.
\<close>

theorem sandboxed_process_cleaned_up:
  assumes "runSandboxedProcess ops t command options st = Some (r, st')" and "positive_pids ops"
    and "acts st = []" and "Began pid \<in> set (life pid (acts st'))"
  shows "((\<exists>n. Ended n \<in> set (life pid (acts st'))) \<or>
      Killed (if JoinParentProcessGroup options then pid else - pid) SIGKILL \<in> set (acts st')) \<and>
    Released pid \<in> set (acts st') \<and> last (acts st') = SignalsStopped \<and>
    (ReapProcessGroup options \<longrightarrow>
      (\<not> JoinParentProcessGroup options \<or> (\<exists>n. Ended n \<in> set (life pid (acts st'))) \<longrightarrow>
        Killed (- pid) SIGKILL \<in> set (acts st')) \<and>
      (is_ok r \<longrightarrow> Waited (- pid) (Err ECHILD) \<in> set (acts st'))) \<and>
    (\<forall>e. r = Err e \<longrightarrow> (\<exists>name x.
      e \<in> {WaitForCommand name x, StopSupervisor x, KillRemaining pid x, ReapRemaining pid x}))"
  using assms(1,2)
proof (cases rule: run_trace)
  case (no_start e pre)
  then show ?thesis using assms(3,4) by simp
next
  case (started tr child p j fin tr0 tr1 tr2)
  then have acts: "acts st' = tr0 @ Started t child (Ok p) # tr1 @ tr2 @ [SignalsStopped]"
    and lt: "loop_trace ops j fin r tr1" and tr0: "life pid tr0 = []"
    and tr2: "life p tr2 = []" "Released p \<in> set tr2" "fin \<or> Killed (job_target j) SIGKILL \<in> set tr2"
    and j: "job_pid j = p" "job_reap j = ReapProcessGroup options"
      "job_target j = (if JoinParentProcessGroup options then p else - p)"
    using assms(3) by (auto simp: run_parts_def the_job_def)
  obtain code where code: "life p tr1 = (if fin then [Ended code] else [])"
    "\<forall>n. r = Ok n \<longrightarrow> fin \<and> n = code" using lt j(1) by (auto simp: loop_trace_def)
  have pid: "pid = p" using run_parts_Began [OF started(2)] started(1) assms(3,4) by simp
  have life: "life pid (acts st') = Began p # (if fin then [Ended code] else [])"
    using started(2) code(1) unfolding acts pid run_parts_def by simp
  have reaped: "fin \<longrightarrow> Killed (- p) SIGKILL \<in> set tr1" "is_ok r \<longrightarrow> Waited (- p) (Err ECHILD) \<in> set tr1"
    if "ReapProcessGroup options"
    using lt j that by (simp_all add: loop_trace_def)
  show ?thesis
  proof (intro conjI impI)
    show "(\<exists>n. Ended n \<in> set (life pid (acts st'))) \<or>
        Killed (if JoinParentProcessGroup options then pid else - pid) SIGKILL \<in> set (acts st')"
      using tr2(3) j(3) unfolding life unfolding acts pid by (cases fin) auto
    show "Released pid \<in> set (acts st')" "last (acts st') = SignalsStopped"
      using tr2(2) unfolding acts pid by simp_all
    show "\<forall>e. r = Err e \<longrightarrow> (\<exists>name x.
        e \<in> {WaitForCommand name x, StopSupervisor x, KillRemaining pid x, ReapRemaining pid x})"
      using lt j(1) unfolding loop_trace_def pid by (cases fin) fastforce+
  next
    assume "ReapProcessGroup options"
      "\<not> JoinParentProcessGroup options \<or> (\<exists>n. Ended n \<in> set (life pid (acts st')))"
    then have "fin \<and> Killed (- p) SIGKILL \<in> set tr1 \<or> Killed (- p) SIGKILL \<in> set tr2"
      using reaped(1) tr2(3) j(3) unfolding life by (cases fin) auto
    then show "Killed (- pid) SIGKILL \<in> set (acts st')" unfolding acts pid by auto
  next
    assume "ReapProcessGroup options" "is_ok r"
    with reaped(2) show "Waited (- pid) (Err ECHILD) \<in> set (acts st')" unfolding acts pid by simp
  qed
qed

section \<open>Returning\<close>

text \<open>
  A measure for a kernel that interrupts the waiting only finitely often: it decreases with
  every wait that is interrupted, that reports a stop or a resumption, or that reaps one member
  of a process group, and nothing the run does between two waits increases it.
\<close>

fun wait_goes_on :: "int \<Rightarrow> (errno, wait_status) result \<Rightarrow> bool" where
  "wait_goes_on p (Inl e) \<longleftrightarrow> e = EINTR"
| "wait_goes_on p (Inr status) \<longleftrightarrow> p < 0 \<or> status = Continued \<or> (\<exists>sig. status = Stopped sig)"

definition finitely_interrupted :: "'w proc_ops \<Rightarrow> ('w \<Rightarrow> nat) \<Rightarrow> bool" where
  "finitely_interrupted ops m \<longleftrightarrow>
     (\<forall>p all w r w'. wait4 ops p all w = (r, w') \<longrightarrow>
        m w' \<le> m w \<and> (wait_goes_on p r \<longrightarrow> m w' < m w)) \<and>
     (\<forall>p sig w. m (snd (kill ops p sig w)) \<le> m w) \<and>
     (\<forall>w. m (snd (stdin_ok ops w)) \<le> m w) \<and>
     (\<forall>w. m (snd (get_foreground ops w)) \<le> m w) \<and>
     (\<forall>g w. m (snd (set_foreground ops g w)) \<le> m w)"

lemma do_wait_measure:
  assumes "finitely_interrupted ops m" "do_wait ops p all st = (r, st')"
  shows "m (pw st') \<le> m (pw st)" "wait_goes_on p r \<Longrightarrow> m (pw st') < m (pw st)"
proof -
  have "wait4 ops p all (pw st) = (r, pw st')"
    using assms(2) by (auto simp: do_wait_def act_def split: prod.splits)
  with assms(1) show "m (pw st') \<le> m (pw st)" "wait_goes_on p r \<Longrightarrow> m (pw st') < m (pw st)"
    unfolding finitely_interrupted_def by blast+
qed

lemma do_kill_measure:
  assumes "finitely_interrupted ops m"
  shows "m (pw (snd (do_kill ops p sig st))) \<le> m (pw st)"
  using assms by (auto simp: finitely_interrupted_def do_kill_def act_def split_def)

lemma pw_logIgnoredError [simp]: "pw (logIgnoredError msg r) = pw (snd r)"
  by (auto simp: logIgnoredError_def act_def split: prod.splits option.splits)

lemma terminalForeground_measure:
  assumes "finitely_interrupted ops m" "terminalForeground ops st = (r, st')"
  shows "m (pw st') \<le> m (pw st)"
proof -
  obtain ok w1 where s: "stdin_ok ops (pw st) = (ok, w1)" by force
  obtain g w2 where g: "get_foreground ops w1 = (g, w2)" by force
  have "m w1 \<le> m (pw st)" "m w2 \<le> m w1"
    using assms(1) s g unfolding finitely_interrupted_def by (metis snd_conv)+
  moreover have "pw st' \<in> {w1, w2}"
    using assms(2) s g by (auto simp: terminalForeground_def split: if_splits sum.splits)
  ultimately show ?thesis by auto
qed

lemma transfer_measure:
  assumes "finitely_interrupted ops m"
  shows "m (pw (snd (transferTerminalForegroundIfOwned ops a b st))) \<le> m (pw st)"
proof -
  obtain x st1 where f: "terminalForeground ops st = (x, st1)" by (cases "terminalForeground ops st")
  have "m (snd (set_foreground ops b (pw st1))) \<le> m (pw st1)"
    using assms unfolding finitely_interrupted_def by blast
  then show ?thesis
    using terminalForeground_measure [OF assms f] f
    by (auto simp: transferTerminalForegroundIfOwned_def setTerminalForeground_def act_def split: prod.splits)
qed

lemma child_stopped_measure:
  assumes "finitely_interrupted ops m" "child_stopped ops j st = (e, st')"
  shows "m (pw st') \<le> m (pw st)"
proof -
  have f: "m (pw (foreground_to_caller ops j st)) \<le> m (pw st)" "m (pw (foreground_to_child ops j st)) \<le> m (pw st)"
    for st
    using transfer_measure [OF assms(1)] by (simp_all add: foreground_to_caller_def foreground_to_child_def)
  obtain e1 st1 where k: "do_kill ops (getpid ops (pw (foreground_to_caller ops j st))) SIGSTOP
      (foreground_to_caller ops j st) = (e1, st1)" by force
  have "m (pw st1) \<le> m (pw st)" using do_kill_measure [OF assms(1)] f(1) k by (metis le_trans snd_conv)
  moreover have "m (pw (snd (do_kill ops (job_target j) SIGCONT (foreground_to_child ops j st1)))) \<le> m (pw st1)"
    using do_kill_measure [OF assms(1)] f(2) le_trans by blast
  ultimately show ?thesis
    using assms(2) k by (auto simp: child_stopped_def Let_def split: option.splits)
qed

lemma reap_loop_returns:
  assumes "finitely_interrupted ops m" "0 < pg"
  shows "reap_loop ops pg st \<noteq> None"
proof (induction "m (pw st)" arbitrary: st rule: less_induct)
  case less
  obtain r st1 where d: "do_wait ops (- pg) False st = (r, st1)" by force
  show ?case
  proof (cases "wait_goes_on (- pg) r")
    case True
    then have "reap_loop ops pg st1 \<noteq> None"
      using less do_wait_measure(2) [OF assms(1) d] by blast
    with True d show ?thesis by (subst reap_loop.simps) (auto split: sum.splits)
  next
    case False
    with d assms(2) show ?thesis by (subst reap_loop.simps) (auto split: sum.splits)
  qed
qed

lemma child_ended_returns:
  assumes "finitely_interrupted ops m" "0 < job_pid j"
  shows "child_ended ops j code st \<noteq> None"
proof -
  obtain e st1 where k: "do_kill ops (- job_pid j) SIGKILL st = (e, st1)" by force
  obtain r st2 where "reap_loop ops (job_pid j) st1 = Some (r, st2)"
    using reap_loop_returns [OF assms, of st1] by auto
  then have "\<exists>r st2. terminateAndReapProcessGroup ops (job_pid j) st = Some (r, st2)"
    using k by (simp add: terminateAndReapProcessGroup_def)
  then obtain r st2 where "terminateAndReapProcessGroup ops (job_pid j) st = Some (r, st2)" by blast
  then show ?thesis by (auto simp: child_ended_def split: sum.splits)
qed

lemma wait_loop_returns:
  assumes "finitely_interrupted ops m" "0 < job_pid j"
  shows "wait_loop ops j st \<noteq> None"
proof (induction "m (pw st)" arbitrary: st rule: less_induct)
  case less
  obtain r st1 where d: "do_wait ops (job_pid j) True st = (r, st1)" by force
  note ended = child_ended_returns [OF assms]
  show ?case
  proof (cases "wait_goes_on (job_pid j) r")
    case True
    then have dec: "m (pw st1) < m (pw st)" using do_wait_measure(2) [OF assms(1) d] by blast
    obtain e st2 where c: "child_stopped ops j st1 = (e, st2)" by force
    have "m (pw st2) < m (pw st)" using child_stopped_measure [OF assms(1) c] dec by simp
    with less dec have "wait_loop ops j st1 \<noteq> None" "wait_loop ops j st2 \<noteq> None"
      by blast+
    with True d c assms(2) show ?thesis
      by (subst wait_loop.simps) (auto split: sum.splits wait_status.splits option.splits)
  next
    case False
    with d ended assms(2) show ?thesis
      by (subst wait_loop.simps) (auto split: sum.splits wait_status.splits)
  qed
qed

text \<open>
  C23: a sandboxed run returns whenever the kernel interrupts its waiting only finitely often,
  whatever else the calls answer.
\<close>

theorem sandboxed_run_returns:
  assumes "finitely_interrupted ops m" and "positive_pids ops"
  shows "\<exists>r st'. runSandboxedProcess ops t command options st = Some (r, st')"
proof (cases command)
  case Nil
  then show ?thesis by (simp add: runSandboxedProcess_def)
next
  case (Cons name args)
  have child: "\<exists>r st'. run_child ops t name child j st = Some (r, st')" if "\<And>pid. job_pid (j pid) = pid"
    for child j st
  proof (cases "start ops t child (pw st)")
    case (Pair x w)
    let ?st1 = "act (Started t child x) (st\<lparr>pw := w\<rparr>)"
    show ?thesis
    proof (cases x)
      case (Inr pid)
      then have "0 < job_pid (j pid)"
        using Pair that assms(2) [unfolded positive_pids_def, rule_format, of t child "pw st" pid w] by simp
      then obtain fin r st2 where "wait_loop ops (j pid) ?st1 = Some ((fin, r), st2)"
        using wait_loop_returns [OF assms(1), of "j pid" ?st1] by auto
      then show ?thesis using Pair Inr by (simp add: run_child_def)
    qed (simp add: run_child_def Pair)
  qed
  show ?thesis
    using Cons child
    by (auto simp: runSandboxedProcess_def Let_def split: prod.splits sum.splits)
qed

end
