(* ===== verification/Supervisor_Properties.thy ===== *)
theory Supervisor_Properties
  imports Supervisor Process_Properties
begin

text \<open>
  The properties of the supervisor: what happens to the listeners, what credentials the command
  starts with, and when the result is the command's exit code.  The laws of the kernel they
  rest on are stated here: handles that are opened and closed, and calls that concern
  neither handles nor credentials.
\<close>

section \<open>Laws\<close>

text \<open>Calls that leave an observation of the world as it is.\<close>

definition cap_ops_keep :: "'w cap_ops \<Rightarrow> ('w \<Rightarrow> 'a) \<Rightarrow> bool" where
  "cap_ops_keep ops obs \<longleftrightarrow>
     (\<forall>t c w. obs (snd (bounding_drop ops t c w)) = obs w) \<and>
     (\<forall>t c w. obs (snd (ambient_is_set ops t c w)) = obs w) \<and>
     (\<forall>t c w. obs (snd (ambient_lower ops t c w)) = obs w) \<and>
     (\<forall>t w. obs (snd (capget ops t w)) = obs w) \<and>
     (\<forall>t data w. obs (snd (capset ops t data w)) = obs w) \<and>
     (\<forall>t w. obs (snd (set_no_new_privs ops t w)) = obs w)"

definition setup_ops_keep :: "'w sup_ops \<Rightarrow> ('w \<Rightarrow> 'a) \<Rightarrow> bool" where
  "setup_ops_keep ops obs \<longleftrightarrow>
     (\<forall>path w. obs (snd (stat_socket ops path w)) = obs w) \<and>
     (\<forall>fd w. obs (snd (get_flags ops fd w)) = obs w) \<and>
     (\<forall>fd flags w. obs (snd (set_flags ops fd flags w)) = obs w) \<and>
     (\<forall>w. obs (snd (set_subreaper ops w)) = obs w)"

text \<open>A call that opens a handle gives a fresh one, and closing it is the only way to lose it.\<close>

definition opens_handle :: "('w \<Rightarrow> nat set) \<Rightarrow> 'w \<Rightarrow> ('e, nat) result \<times> 'w \<Rightarrow> bool" where
  "opens_handle opens w r \<longleftrightarrow>
     (case fst r of
        Inl _ \<Rightarrow> opens (snd r) = opens w
      | Inr h \<Rightarrow> h \<notin> opens w \<and> opens (snd r) = insert h (opens w))"

definition handle_laws :: "'w sup_ops \<Rightarrow> ('w \<Rightarrow> nat set) \<Rightarrow> bool" where
  "handle_laws ops opens \<longleftrightarrow>
     (\<forall>w. opens_handle opens w (open_control ops w)) \<and>
     (\<forall>a w. opens_handle opens w (tcp_listen ops a w)) \<and>
     (\<forall>h w. opens (close_handle ops h w) = opens w - {h}) \<and>
     setup_ops_keep ops opens \<and> cap_ops_keep (caps ops) opens"

text \<open>Calls of the supervisor that concern no credentials.\<close>

definition creds_laws :: "'w sup_ops \<Rightarrow> ('w \<Rightarrow> thread \<Rightarrow> creds) \<Rightarrow> nat \<Rightarrow> bool" where
  "creds_laws ops view top_cap \<longleftrightarrow>
     cap_laws (caps ops) view top_cap \<and> setup_ops_keep ops view \<and>
     (\<forall>w. view (snd (open_control ops w)) = view w) \<and>
     (\<forall>a w. view (snd (tcp_listen ops a w)) = view w) \<and>
     (\<forall>h w. view (close_handle ops h w) = view w) \<and>
     (\<forall>w. view (snd (executable ops w)) = view w) \<and>
     (\<forall>name w. view (snd (look_path (procs ops) name w)) = view w) \<and>
     (\<forall>w. view (snd (stdin_ok (procs ops) w)) = view w) \<and>
     (\<forall>w. view (snd (get_foreground (procs ops) w)) = view w)"

section \<open>The capability calls and the handles\<close>

lemma drop_each_keeps:
  assumes "cap_ops_keep ops obs"
  shows "obs (snd (drop_each ops t kept capabilities w)) = obs w"
proof (induction capabilities arbitrary: w)
  case (Cons x xs)
  obtain e w1 where b: "bounding_drop ops t (cap_value x) w = (e, w1)" by force
  obtain v e2 w2 where a: "ambient_is_set ops t (cap_value x) w1 = ((v, e2), w2)" by (metis surj_pair)
  obtain e3 w3 where l: "ambient_lower ops t (cap_value x) w2 = (e3, w3)" by force
  have "obs w1 = obs w" "obs w2 = obs w" "obs w3 = obs w"
    using assms b a l unfolding cap_ops_keep_def by (metis snd_conv)+
  then show ?case using Cons b a l by (auto split: option.splits)
qed simp

lemma drop_bounding_from_keeps:
  assumes "cap_ops_keep ops obs"
  shows "obs (snd (drop_bounding_from ops t cs w)) = obs w"
proof (induction cs arbitrary: w)
  case (Cons c cs)
  obtain e w1 where b: "bounding_drop ops t c w = (e, w1)" by force
  then have "obs w1 = obs w" using assms unfolding cap_ops_keep_def by (metis snd_conv)
  then show ?case using Cons b by (auto split: option.splits)
qed simp

lemma dropDangerousCapabilities_keeps:
  assumes "cap_ops_keep ops obs"
  shows "obs (snd (dropDangerousCapabilities tx ops t names w)) = obs w"
proof (cases "parseUnsafeCapabilities tx names")
  case (Inr kept)
  let ?k = "cap_value ` set kept"
  obtain r1 w1 where d: "drop_each ops t ?k dangerousCapabilities w = (r1, w1)" by force
  obtain r2 w2 where g: "capget ops t w1 = (r2, w2)" by force
  obtain e w3 where c: "capset ops t (clear_each ?k dangerousCapabilities (projr r2)) w2 = (e, w3)" by force
  have "obs w1 = obs w" using drop_each_keeps [OF assms] d by (metis snd_conv)
  moreover have "obs w2 = obs w1" "obs w3 = obs w2"
    using assms g c unfolding cap_ops_keep_def by (metis snd_conv)+
  ultimately show ?thesis
    using Inr d g c by (auto simp: dropDangerousCapabilities_def Let_def split: sum.split option.split)
qed (simp add: dropDangerousCapabilities_def)

lemma dropSetupCapabilities_keeps:
  assumes "cap_ops_keep ops obs"
  shows "obs (snd (dropSetupCapabilities ops t w)) = obs w"
proof -
  obtain r1 w1 where d: "drop_bounding_from ops t [0..<64] w = (r1, w1)" by force
  obtain e2 w2 where c: "capset ops t (no_words, no_words) w1 = (e2, w2)" by force
  obtain e3 w3 where p: "set_no_new_privs ops t w2 = (e3, w3)" by force
  have "obs w1 = obs w" using drop_bounding_from_keeps [OF assms] d by (metis snd_conv)
  moreover have "obs w2 = obs w1" "obs w3 = obs w2"
    using assms c p unfolding cap_ops_keep_def by (metis snd_conv)+
  ultimately show ?thesis
    using d c p by (auto simp: dropSetupCapabilities_def split: sum.split option.split)
qed

lemma drop_capabilities_keeps:
  "cap_ops_keep (caps ops) obs \<Longrightarrow> obs (snd (drop_capabilities tx ops t options w)) = obs w"
  by (simp add: drop_capabilities_def dropDangerousCapabilities_keeps dropSetupCapabilities_keeps)

section \<open>Listeners\<close>

lemma validate_sockets_keeps:
  assumes "setup_ops_keep ops obs" shows "obs (snd (validate_sockets ops paths w)) = obs w"
proof (induction paths arbitrary: w)
  case (Cons p ps)
  have "obs (snd (stat_socket ops p w)) = obs w" using assms unfolding setup_ops_keep_def by blast
  then show ?case using Cons by (auto simp: validateProxySocket_def split: prod.splits sum.splits)
qed simp

lemma bringLoopbackUp_handles:
  assumes "handle_laws ops opens" shows "opens (snd (bringLoopbackUp ops w)) = opens w"
proof -
  obtain r w1 where o: "open_control ops w = (r, w1)" by force
  show ?thesis
  proof (cases r)
    case (Inl e)
    have "opens_handle opens w (r, w1)" using assms o unfolding handle_laws_def by metis
    with Inl o show ?thesis by (simp add: bringLoopbackUp_def opens_handle_def)
  next
    case (Inr fd)
    obtain r2 w2 where g: "get_flags ops fd w1 = (r2, w2)" by force
    obtain e3 w3 where s: "set_flags ops fd (projr r2 OR 1) w2 = (e3, w3)" by force
    have "opens_handle opens w (r, w1)" using assms o unfolding handle_laws_def by metis
    moreover have "opens w2 = opens w1" "opens w3 = opens w2"
      using assms g s unfolding handle_laws_def setup_ops_keep_def by (metis snd_conv)+
    moreover have "opens (close_handle ops fd w) = opens w - {fd}" for w
      using assms unfolding handle_laws_def by blast
    ultimately show ?thesis
      using Inr o g s
      by (auto simp: bringLoopbackUp_def opens_handle_def split: option.splits sum.splits)
  qed
qed

lemma closeBridgeListeners_handles:
  assumes "handle_laws ops opens"
  shows "opens (closeBridgeListeners ops servers w) = opens w - br_listener ` set servers"
proof -
  have "opens (close_handle ops h w) = opens w - {h}" for h w
    using assms unfolding handle_laws_def by blast
  then show ?thesis
    by (induction servers arbitrary: w) (auto simp: closeBridgeListeners_def)
qed

text \<open>The servers hold their listeners open, besides what was open before.\<close>

definition holds_listeners :: "('w \<Rightarrow> nat set) \<Rightarrow> 'w \<Rightarrow> bridge_server list \<Rightarrow> 'w \<Rightarrow> bool" where
  "holds_listeners opens w0 servers w \<longleftrightarrow>
     br_listener ` set servers \<inter> opens w0 = {} \<and> opens w = opens w0 \<union> br_listener ` set servers \<and>
     distinct (map br_listener servers)"

lemma listen_bridge_handles:
  assumes "handle_laws ops opens" "holds_listeners opens w0 servers w"
    "listen_bridge ops address socket failed servers w = (r, w')"
  shows "case r of Inl e \<Rightarrow> opens w' = opens w0
    | Inr servers' \<Rightarrow> holds_listeners opens w0 servers' w' \<and>
        map br_socketPath servers' = map br_socketPath servers @ (if socket = [] then [] else [socket])"
proof (cases "socket = []")
  case True
  then show ?thesis using assms(2,3) by (auto simp: listen_bridge_def)
next
  case False
  obtain x w1 where l: "tcp_listen ops address w = (x, w1)" by force
  then have "opens_handle opens w (x, w1)" using assms(1) unfolding handle_laws_def by metis
  then show ?thesis
    using assms(2,3) l False closeBridgeListeners_handles [OF assms(1)]
    by (auto simp: listen_bridge_def opens_handle_def holds_listeners_def disjoint_iff split: sum.splits)
qed

text \<open>
  C19: the setup of the supervisor leaks no handle.  If it fails, at whatever step, everything it
  opened is closed again; if it succeeds, the only new handles are the listeners of
  the bridges, one for each socket that was given, in the order HTTP, SOCKS.
\<close>

theorem supervisor_setup_handles:
  assumes "handle_laws ops opens" and "supervisor_setup tx ops t options w = (r, w')"
  shows "case r of
      Inl e \<Rightarrow> opens w' = opens w
    | Inr (servers, attributes) \<Rightarrow>
        holds_listeners opens w servers w' \<and>
        map br_socketPath servers = filter (\<lambda>s. s \<noteq> []) [so_HTTPSocket options, so_SOCKSocket options]"
proof -
  have keep: "setup_ops_keep ops opens" "cap_ops_keep (caps ops) opens"
    using assms(1) by (simp_all add: handle_laws_def)
  obtain r1 w1 where v: "validate_sockets ops [so_HTTPSocket options, so_SOCKSocket options] w = (r1, w1)"
    by (metis surj_pair)
  obtain r2 w2 where b: "bringLoopbackUp ops w1 = (r2, w2)" by force
  have o2: "opens w1 = opens w" "opens w2 = opens w"
    using validate_sockets_keeps [OF keep(1)] bringLoopbackUp_handles [OF assms(1)] v b
    by (metis snd_conv)+
  then have h0: "holds_listeners opens w [] w2" by (simp add: holds_listeners_def)
  obtain r3 w3 where l1: "listen_bridge ops HTTPAddress (so_HTTPSocket options) ListenInnerHTTP [] w2 = (r3, w3)"
    by force
  note h1 = listen_bridge_handles [OF assms(1) h0 l1]
  show ?thesis
  proof (cases "\<exists>u1 u2 servers1. r1 = Inr u1 \<and> r2 = Inr u2 \<and> r3 = Inr servers1")
    case False
    then show ?thesis
      using assms(2) v b l1 o2 h1 by (auto simp: supervisor_setup_def split: sum.splits)
  next
    case True
    then obtain u1 u2 servers1 where ok: "r1 = Inr u1" "r2 = Inr u2" "r3 = Inr servers1" by blast
    with h1 have h2: "holds_listeners opens w servers1 w3" by simp
    obtain r4 w4 where l2: "listen_bridge ops SOCKAddress (so_SOCKSocket options) ListenInnerSOCKS servers1 w3 = (r4, w4)"
      by force
    note h3 = listen_bridge_handles [OF assms(1) h2 l2]
    show ?thesis
    proof (cases r4)
      case (Inl e)
      then show ?thesis
        using assms(2) v b l1 l2 ok h3 by (auto simp: supervisor_setup_def simp del: validate_sockets.simps)
    next
      case (Inr servers)
      obtain e5 w5 where s: "set_subreaper ops w4 = (e5, w5)" by force
      obtain r6 w6 where d: "drop_capabilities tx ops t options w5 = (r6, w6)" by force
      have o: "opens w5 = opens w4" "opens w6 = opens w4"
        using keep(1) drop_capabilities_keeps [OF keep(2)] s d
        unfolding setup_ops_keep_def by (metis snd_conv)+
      have h4: "holds_listeners opens w servers w4"
        "map br_socketPath servers = filter (\<lambda>s. s \<noteq> []) [so_HTTPSocket options, so_SOCKSocket options]"
        using h1 h3 Inr ok by auto
      have closed: "opens (closeBridgeListeners ops servers x) = opens w" if "opens x = opens w4" for x
        using that h4(1) closeBridgeListeners_handles [OF assms(1)] by (auto simp: holds_listeners_def)
      have "supervisor_setup tx ops t options w =
        (case e5 of
           Some e \<Rightarrow> (Err (SetChildSubreaper e), closeBridgeListeners ops servers w5)
         | None \<Rightarrow>
        (case r6 of
           Inl e \<Rightarrow> (Err (SupervisorCapabilities e), closeBridgeListeners ops servers w6)
         | Inr _ \<Rightarrow>
        (case child_attributes tx options of
           Inl e \<Rightarrow> (Err (SupervisorCapabilities e), closeBridgeListeners ops servers w6)
         | Inr attributes \<Rightarrow> (Ok (servers, attributes), w6))))"
        using v b l1 l2 ok Inr s d
        by (auto simp: supervisor_setup_def simp del: validate_sockets.simps split: option.split sum.split)
      moreover have "holds_listeners opens w servers w6" using h4(1) o by (simp add: holds_listeners_def)
      ultimately show ?thesis
        using assms(2) h4(2) closed [OF o(1)] closed [OF o(2)] by (auto split: option.splits sum.splits)
    qed
  qed
qed

section \<open>Credentials\<close>

lemma validate_sockets_keeps_eq:
  "setup_ops_keep ops obs \<Longrightarrow> validate_sockets ops paths w = (r, w') \<Longrightarrow> obs w' = obs w"
  using validate_sockets_keeps by (metis snd_conv)

lemma bringLoopbackUp_keeps:
  assumes "creds_laws ops view top_cap" "bringLoopbackUp ops w = (r, w')"
  shows "view w' = view w"
proof -
  obtain r1 w1 where o: "open_control ops w = (r1, w1)" by force
  obtain r2 w2 where g: "get_flags ops (projr r1) w1 = (r2, w2)" by force
  obtain e3 w3 where s: "set_flags ops (projr r1) (projr r2 OR 1) w2 = (e3, w3)" by force
  have "view w1 = view w" "view w2 = view w1" "view w3 = view w2"
    using assms(1) o g s unfolding creds_laws_def setup_ops_keep_def by (metis snd_conv)+
  moreover have "view (close_handle ops h x) = view x" for h x
    using assms(1) unfolding creds_laws_def by blast
  ultimately show ?thesis
    using assms(2) o g s by (auto simp: bringLoopbackUp_def split: sum.splits option.splits)
qed

lemma closeBridgeListeners_keeps:
  assumes "creds_laws ops view top_cap" shows "view (closeBridgeListeners ops servers w) = view w"
proof -
  have "view (close_handle ops h x) = view x" for h x
    using assms unfolding creds_laws_def by blast
  then show ?thesis by (induction servers arbitrary: w) (simp_all add: closeBridgeListeners_def)
qed

lemma listen_bridge_keeps:
  assumes "creds_laws ops view top_cap" "listen_bridge ops address socket failed servers w = (r, w')"
  shows "view w' = view w"
proof -
  obtain x w1 where l: "tcp_listen ops address w = (x, w1)" by force
  then have "view w1 = view w" using assms(1) unfolding creds_laws_def by (metis snd_conv)
  then show ?thesis
    using assms(2) l closeBridgeListeners_keeps [OF assms(1)]
    by (auto simp: listen_bridge_def split: if_splits sum.splits)
qed

text \<open>The credentials of the thread that did the setup, by mode.\<close>

definition dropped_creds :: "text_lib \<Rightarrow> supervisor_options \<Rightarrow> creds \<Rightarrow> creds" where
  "dropped_creds tx options cr =
     (if so_PreservePermissions options
      then without_caps (cap_value ` set dangerousCapabilities -
             cap_value ` set (projr (parseUnsafeCapabilities tx (so_KeepUnsafeCapabilities options)))) cr
      else no_creds)"

lemma supervisor_setup_creds:
  assumes "creds_laws ops view top_cap"
    and "supervisor_setup tx ops t options w = (Ok (servers, attributes), w')"
  shows "view w' = (view w)(t := dropped_creds tx options (view w t))"
    and "child_attributes tx options = Ok attributes"
proof -
  have laws: "cap_laws (caps ops) view top_cap" "setup_ops_keep ops view"
    using assms(1) by (simp_all add: creds_laws_def)
  obtain u1 w1 where v: "validate_sockets ops [so_HTTPSocket options, so_SOCKSocket options] w = (Inr u1, w1)"
    using assms(2) by (auto simp: supervisor_setup_def simp del: validate_sockets.simps split: sum.splits prod.splits)
  obtain u2 w2 where b: "bringLoopbackUp ops w1 = (Inr u2, w2)"
    using assms(2) v by (auto simp: supervisor_setup_def simp del: validate_sockets.simps split: sum.splits prod.splits)
  obtain s1 w3 where l1: "listen_bridge ops HTTPAddress (so_HTTPSocket options) ListenInnerHTTP [] w2 = (Inr s1, w3)"
    using assms(2) v b by (auto simp: supervisor_setup_def simp del: validate_sockets.simps split: sum.splits prod.splits)
  obtain s2 w4 where l2: "listen_bridge ops SOCKAddress (so_SOCKSocket options) ListenInnerSOCKS s1 w3 = (Inr s2, w4)"
    using assms(2) v b l1 by (auto simp: supervisor_setup_def simp del: validate_sockets.simps split: sum.splits prod.splits)
  obtain w5 where s: "set_subreaper ops w4 = (None, w5)"
    using assms(2) v b l1 l2 by (auto simp: supervisor_setup_def simp del: validate_sockets.simps split: option.splits prod.splits)
  obtain u6 w6 where d: "drop_capabilities tx ops t options w5 = (Inr u6, w6)"
    using assms(2) v b l1 l2 s by (auto simp: supervisor_setup_def simp del: validate_sockets.simps split: sum.splits prod.splits)
  have rest: "child_attributes tx options = Ok attributes \<and> w' = w6"
    using assms(2) v b l1 l2 s d
    by (auto simp: supervisor_setup_def simp del: validate_sockets.simps split: sum.splits)
  then show "child_attributes tx options = Ok attributes" by simp
  have "view w5 = view w4" using laws(2) s unfolding setup_ops_keep_def by (metis snd_conv)
  then have w5: "view w5 = view w"
    using validate_sockets_keeps_eq [OF laws(2) v] bringLoopbackUp_keeps [OF assms(1) b]
      listen_bridge_keeps [OF assms(1) l1] listen_bridge_keeps [OF assms(1) l2] by simp
  show "view w' = (view w)(t := dropped_creds tx options (view w t))"
  proof (cases "so_PreservePermissions options")
    case True
    then have "dropDangerousCapabilities tx (caps ops) t (so_KeepUnsafeCapabilities options) w5 = (Ok u6, w6)"
      using d by (simp add: drop_capabilities_def)
    from dropDangerousCapabilities_Ok [OF laws(1) this] show ?thesis
      using True rest w5 by (auto simp: dropped_creds_def)
  next
    case False
    then have "dropSetupCapabilities (caps ops) t w5 = (Ok u6, w6)"
      using d by (simp add: drop_capabilities_def)
    from dropSetupCapabilities_Ok [OF laws(1) this] show ?thesis
      using False rest w5 by (simp add: dropped_creds_def)
  qed
qed

section \<open>The command\<close>

lemma ambient_process_attributes:
  "AmbientCaps (process_attributes ops options manage) =
     (case ro_Sys options of None \<Rightarrow> [] | Some a \<Rightarrow> AmbientCaps a)"
  by (auto simp: process_attributes_def cloneSysProcAttr_def no_attributes_def Let_def split: option.splits)

lemma isolated_command_keeps:
  assumes "creds_laws ops view top_cap" "isolated_command ops options w = (r, w')"
  shows "view w' = view w"
proof -
  have "view (snd (executable ops w)) = view w" using assms(1) unfolding creds_laws_def by blast
  then show ?thesis
    using assms(2) by (auto simp: isolated_command_def split: if_splits sum.splits prod.splits)
qed

lemma terminalForeground_keeps:
  assumes "creds_laws ops view top_cap"
  shows "view (pw (snd (terminalForeground (procs ops) st))) = view (pw st)"
proof -
  obtain ok w1 where s: "stdin_ok (procs ops) (pw st) = (ok, w1)" by force
  obtain g w2 where g: "get_foreground (procs ops) w1 = (g, w2)" by force
  have "view w1 = view (pw st)" "view w2 = view w1"
    using assms s g unfolding creds_laws_def by (metis snd_conv)+
  then show ?thesis using s g by (auto simp: terminalForeground_def split: sum.splits)
qed

text \<open>
  The command starts with the credentials the kernel keeps for the thread \<open>u\<close> that starts it: the
  dropped ones if that is the thread that made the setup, else those from before the setup.
\<close>

lemma command_starts_with:
  assumes "creds_laws ops view top_cap" and "positive_pids (procs ops)"
    and "RunSupervisor tx ops t u options before after st = Some (r, st')"
    and "acts st = []" and "Began pid \<in> set (life pid (acts st'))"
  shows "\<exists>child w0 w1 attributes. Started u child (Ok pid) \<in> set (acts st') \<and>
    start (procs ops) u child w0 = (Ok pid, w1) \<and>
    view w0 u = (if u = t then dropped_creds tx options (view (pw st) t) else view (pw st) u) \<and>
    child_attributes tx options = Ok attributes \<and>
    AmbientCaps (cmd_sys child) = (case attributes of None \<Rightarrow> [] | Some a \<Rightarrow> AmbientCaps a)"
proof -
  obtain servers attributes w where ready:
    "supervisor_setup tx ops t options (pw st) = (Ok (servers, attributes), w)"
    using assms(3-5) by (auto simp: RunSupervisor_def split: sum.splits prod.splits)
  then obtain r1 where cmd:
    "command_goroutine ops u options attributes (st\<lparr>pw := w\<rparr>) = Some (r1, st')"
    using assms(3) by (auto simp: RunSupervisor_def split: option.splits prod.splits)
  obtain command w1 where ic: "isolated_command ops options w = (Ok command, w1)"
    using cmd assms(4,5) by (auto simp: command_goroutine_def split: sum.splits prod.splits)
  let ?opts = "\<lparr>ro_Environment = so_Environment options, ro_Directory = so_Directory options,
    ro_Sys = attributes, JoinParentProcessGroup = False,
    ro_ManageForeground = so_ManageForeground options, ReapProcessGroup = True\<rparr>"
  obtain r2 where run: "runSandboxedProcess (procs ops) u command ?opts (st\<lparr>pw := w1\<rparr>) = Some (r2, st')"
    using cmd ic by (auto simp: command_goroutine_def split: option.splits prod.splits)
  have view1: "view w1 u = (if u = t then dropped_creds tx options (view (pw st) t) else view (pw st) u)"
    using isolated_command_keeps [OF assms(1) ic] supervisor_setup_creds(1) [OF assms(1) ready] by simp
  have look: "view (snd (look_path (procs ops) name x)) = view x" for name x
    using assms(1) unfolding creds_laws_def by blast
  from run assms(2) show ?thesis
  proof (cases rule: run_trace)
    case (no_start e pre)
    then show ?thesis using assms(4,5) by simp
  next
    case (started tr child p j fin tr0 tr1 tr2)
    then have "p = pid" using run_parts_Began [OF started(2)] assms(4,5) by simp
    moreover have "Started u child (Ok p) \<in> set (acts st')"
      using started(1,2) by (simp add: run_parts_def)
    moreover have "view (pw (snd (terminalForeground (procs ops)
        (st\<lparr>pw := w1, pw := snd (look_path (procs ops) (hd command) (pw (st\<lparr>pw := w1\<rparr>)))\<rparr>)))) = view w1"
      using terminalForeground_keeps [OF assms(1)] look by simp
    moreover have "AmbientCaps (cmd_sys child) = (case attributes of None \<Rightarrow> [] | Some a \<Rightarrow> AmbientCaps a)"
      using started(2) by (auto simp: run_parts_def the_child_def ambient_process_attributes)
    ultimately show ?thesis using started(3) view1 supervisor_setup_creds(2) [OF assms(1) ready] by metis
  qed
qed

text \<open>
  What a thread that executes a program can have in any of its sets afterwards, at most: what it
  has in one of them, and the ambient capabilities raised for the program (capabilities(7)).
\<close>

definition may_gain :: "creds \<Rightarrow> nat list \<Rightarrow> nat set" where
  "may_gain cr ambient =
     cr_bounding cr \<union> cr_permitted cr \<union> cr_effective cr \<union> cr_inheritable cr \<union> cr_ambient cr \<union> set ambient"

lemma may_gain_dropped:
  assumes "child_attributes tx options = Ok attributes"
  shows "may_gain (dropped_creds tx options cr) (case attributes of None \<Rightarrow> [] | Some a \<Rightarrow> AmbientCaps a) \<inter>
    cap_value ` set dangerousCapabilities \<subseteq>
    (if so_PreservePermissions options
     then cap_value ` set (projr (parseUnsafeCapabilities tx (so_KeepUnsafeCapabilities options))) else {})"
proof (cases "so_PreservePermissions options")
  case True
  then obtain kept where k: "parseUnsafeCapabilities tx (so_KeepUnsafeCapabilities options) = Ok kept"
    "attributes = Some (no_attributes\<lparr>AmbientCaps := map cap_value kept\<rparr>)"
    using assms by (auto simp: child_attributes_def unsafeCapabilityValues_def rbind_Inr_iff)
  with True show ?thesis by (auto simp: may_gain_def dropped_creds_def without_caps_def)
next
  case False
  then show ?thesis
    using assms by (auto simp: child_attributes_def may_gain_def dropped_creds_def no_creds_def)
qed

text \<open>
  C18: if the goroutine that starts the command runs on the thread that made the setup, the
  command cannot have or regain any dangerous capability, other than those the user asked to
  keep; in rootless mode it has no capability at all, and \<open>no_new_privs\<close> is set.
\<close>

theorem command_without_dangerous_capabilities:
  assumes "creds_laws ops view top_cap" and "positive_pids (procs ops)"
    and "RunSupervisor tx ops t t options before after st = Some (r, st')"
    and "acts st = []" and "Began pid \<in> set (life pid (acts st'))"
  shows "\<exists>child w0 w1. Started t child (Ok pid) \<in> set (acts st') \<and>
    start (procs ops) t child w0 = (Ok pid, w1) \<and>
    may_gain (view w0 t) (AmbientCaps (cmd_sys child)) \<inter> cap_value ` set dangerousCapabilities \<subseteq>
      (if so_PreservePermissions options
       then cap_value ` set (projr (parseUnsafeCapabilities tx (so_KeepUnsafeCapabilities options))) else {}) \<and>
    (so_PreservePermissions options \<or> view w0 t = no_creds \<and> AmbientCaps (cmd_sys child) = [])"
proof -
  obtain child w0 w1 attributes where c: "Started t child (Ok pid) \<in> set (acts st')"
    "start (procs ops) t child w0 = (Ok pid, w1)" "view w0 t = dropped_creds tx options (view (pw st) t)"
    "child_attributes tx options = Ok attributes"
    "AmbientCaps (cmd_sys child) = (case attributes of None \<Rightarrow> [] | Some a \<Rightarrow> AmbientCaps a)"
    using command_starts_with [OF assms] by auto
  moreover have "so_PreservePermissions options \<or> view w0 t = no_creds \<and> AmbientCaps (cmd_sys child) = []"
    using c(3-5) by (auto simp: dropped_creds_def child_attributes_def)
  ultimately show ?thesis using may_gain_dropped [OF c(4)] by metis
qed

text \<open>
  nothing in the code makes the two threads the same.  If the goroutine that starts the command
  runs on another thread than the setup, the command starts with exactly the credentials that
  thread had before the setup: the capabilities were dropped on the wrong thread.
\<close>

theorem command_on_another_thread:
  assumes "creds_laws ops view top_cap" and "positive_pids (procs ops)" and "u \<noteq> t"
    and "RunSupervisor tx ops t u options before after st = Some (r, st')"
    and "acts st = []" and "Began pid \<in> set (life pid (acts st'))"
  shows "\<exists>child w0 w1. Started u child (Ok pid) \<in> set (acts st') \<and>
    start (procs ops) u child w0 = (Ok pid, w1) \<and> view w0 u = view (pw st) u"
  using command_starts_with [OF assms(1,2,4-6)] assms(3) by auto

section \<open>The result\<close>

text \<open>The bridges as the group wants them: each returns nil, after the context has ended.\<close>

fun bridges_fine :: "bool \<Rightarrow> group_event list \<Rightarrow> bool" where
  "bridges_fine ended [] = True"
| "bridges_fine ended (BridgeReturned err # es) \<longleftrightarrow> err = None \<and> ended \<and> bridges_fine ended es"
| "bridges_fine ended (_ # es) = bridges_fine True es"

lemma group_error_stays: "gs_error s \<noteq> None \<Longrightarrow> gs_error (foldl (\<lambda>s e. group_step e s) s es) \<noteq> None"
proof (induction es arbitrary: s)
  case (Cons e es)
  have "gs_error (group_step e s) \<noteq> None"
    using Cons.prems by (cases e) (auto simp: Let_def split: option.splits)
  with Cons.IH show ?case by simp
qed simp

lemma group_error:
  "gs_error s = None \<Longrightarrow>
   gs_error (foldl (\<lambda>s e. group_step e s) s es) = None \<longleftrightarrow> bridges_fine (gs_done s) es"
proof (induction es arbitrary: s)
  case (Cons e es)
  show ?case
  proof (cases e)
    case (BridgeReturned err)
    let ?s = "group_step e s"
    show ?thesis
    proof (cases "bridge_result (gs_done s) err")
      case None
      then have "err = None" "gs_done s" by (auto simp: bridge_result_def split: option.splits if_splits)
      with Cons BridgeReturned None show ?thesis by (simp add: Let_def)
    next
      case (Some x)
      then have "gs_error ?s \<noteq> None" "err \<noteq> None \<or> \<not> gs_done s"
        using BridgeReturned by (auto simp: bridge_result_def Let_def split: option.splits if_splits)
      with group_error_stays [OF this(1), of es] BridgeReturned show ?thesis by auto
    qed
  qed (use Cons in simp_all)
qed simp

lemma group_child:
  "\<forall>r. CommandReturned r \<notin> set es \<Longrightarrow> gs_child (foldl (\<lambda>s e. group_step e s) s es) = gs_child s"
proof (induction es arbitrary: s)
  case (Cons e es)
  have "gs_child (group_step e s) = gs_child s"
    using Cons.prems by (cases e) (auto simp: Let_def split: option.splits)
  with Cons show ?case by simp
qed simp

lemma bridges_fine_append:
  "bridges_fine ended (es @ es') \<longleftrightarrow> bridges_fine ended es \<and>
     bridges_fine (ended \<or> (\<exists>e \<in> set es. \<forall>err. e \<noteq> BridgeReturned err)) es'"
  by (induction ended es rule: bridges_fine.induct) auto

lemma bridges_fine_ended: "bridges_fine True es \<longleftrightarrow> (\<forall>err. BridgeReturned err \<in> set es \<longrightarrow> err = None)"
  by (induction "True" es rule: bridges_fine.induct) auto

text \<open>
  C20: the supervisor returns an exit code only if the setup succeeded, the command returned that
  code, and no bridge failed: none returned an error, and none returned before the command
  unless the caller's context had ended.
\<close>

theorem supervisor_exit_code:
  assumes "RunSupervisor tx ops t u options before after st = Some (Ok n, st')"
    and "\<forall>r. CommandReturned r \<notin> set (before @ after)"
  shows "\<exists>servers attributes w. supervisor_setup tx ops t options (pw st) = (Ok (servers, attributes), w) \<and>
    command_goroutine ops u options attributes (st\<lparr>pw := w\<rparr>) = Some (Ok n, st') \<and>
    (\<forall>err. BridgeReturned err \<in> set (before @ after) \<longrightarrow> err = None) \<and>
    (\<forall>err. BridgeReturned err \<in> set before \<longrightarrow> CallerDone \<in> set before)"
proof -
  obtain servers attributes w where ready:
    "supervisor_setup tx ops t options (pw st) = (Ok (servers, attributes), w)"
    using assms(1) by (auto simp: RunSupervisor_def split: sum.splits prod.splits)
  then obtain r where cmd: "command_goroutine ops u options attributes (st\<lparr>pw := w\<rparr>) = Some (r, st')"
    and res: "group_result (foldl (\<lambda>s e. group_step e s) (group_start (length servers))
      (before @ CommandReturned r # after)) = Some (Ok n)"
    using assms(1) by (auto simp: RunSupervisor_def split: option.splits prod.splits)
  let ?final = "foldl (\<lambda>s e. group_step e s) (group_start (length servers)) (before @ CommandReturned r # after)"
  have "gs_child ?final = Some r" using assms(2) by (simp add: group_child)
  with res have r: "r = Ok n" "gs_error ?final = None"
    by (auto simp: group_result_def split: if_splits sum.splits option.splits)
  then have "bridges_fine False (before @ CommandReturned r # after)"
    using group_error [of "group_start (length servers)" "before @ CommandReturned r # after"]
    by (simp add: group_start_def)
  then have fine: "bridges_fine False before" "\<forall>err. BridgeReturned err \<in> set after \<longrightarrow> err = None"
    by (simp_all add: bridges_fine_append bridges_fine_ended)
  have "(\<forall>err. BridgeReturned err \<in> set es \<longrightarrow> err = None \<and> CallerDone \<in> set es)"
    if "bridges_fine False es" "\<forall>r. CommandReturned r \<notin> set es" for es
    using that
  proof (cases es)
    case (Cons e es')
    then show ?thesis using that by (cases e) (auto simp: bridges_fine_ended)
  qed simp
  from this [OF fine(1)] assms(2) fine(2) ready cmd r(1) show ?thesis by auto
qed

end
