(* ===== verification/Kernel_Examples.thy ===== *)
theory Kernel_Examples
  imports Supervisor_Properties Rules
begin

text \<open>
  A concrete kernel at which the properties of the namespace components are applied: threads with
  capability sets that know the capabilities up to 40, a script of results for \<open>wait4\<close>, and the
  open handles.  It is shown to obey the laws.
\<close>

unbundle bit_operations_syntax

section \<open>Threads\<close>

record demo_thread =
  dt_bounding :: "nat list"
  dt_ambient :: "nat list"
  dt_data :: cap_data
  dt_no_new_privs :: bool

record kernel =
  kn_threads :: "demo_thread list"
  kn_waits :: "(errno, wait_status) result list"
  kn_handles :: "nat list"

definition known :: "cap_data \<Rightarrow> cap_data" where
  "known data = (fst data, snd data\<lparr>Effective := take_bit 9 (Effective (snd data)),
     Permitted := take_bit 9 (Permitted (snd data)), Inheritable := take_bit 9 (Inheritable (snd data))\<rparr>)"

definition ambient_now :: "demo_thread \<Rightarrow> nat list" where
  "ambient_now th = filter (\<lambda>c. c \<le> 40 \<and> bit (Permitted (data_word (known (dt_data th)) (c div 32))) (c mod 32) \<and>
     bit (Inheritable (data_word (known (dt_data th)) (c div 32))) (c mod 32)) (dt_ambient th)"

definition thread_creds :: "demo_thread \<Rightarrow> creds" where
  "thread_creds th = \<lparr>cr_bounding = set (filter (\<lambda>c. c \<le> 40) (dt_bounding th)),
     cr_ambient = set (ambient_now th),
     cr_effective = word_caps Effective (known (dt_data th)),
     cr_permitted = word_caps Permitted (known (dt_data th)),
     cr_inheritable = word_caps Inheritable (known (dt_data th)),
     cr_no_new_privs = dt_no_new_privs th\<rparr>"

definition demo_view :: "kernel \<Rightarrow> thread \<Rightarrow> creds" where
  "demo_view w t = (if t < length (kn_threads w) then thread_creds (kn_threads w ! t) else no_creds)"

text \<open>A call on a thread that does not exist fails with \<open>ESRCH\<close>.\<close>

definition on_thread :: "thread \<Rightarrow> (demo_thread \<Rightarrow> demo_thread) \<Rightarrow> kernel \<Rightarrow> errno option \<times> kernel" where
  "on_thread t f w =
     (if t < length (kn_threads w) then (None, w\<lparr>kn_threads := (kn_threads w)[t := f (kn_threads w ! t)]\<rparr>)
      else (Some ESRCH, w))"

definition demo_caps :: "kernel cap_ops" where
  "demo_caps = \<lparr>
     bounding_drop = (\<lambda>t c w. if 40 < c then (Some EINVAL, w)
       else on_thread t (\<lambda>th. th\<lparr>dt_bounding := removeAll c (dt_bounding th)\<rparr>) w),
     ambient_is_set = (\<lambda>t c w. ((if 40 < c then (0, Some EINVAL)
       else if length (kn_threads w) \<le> t then (0, Some ESRCH)
       else (if c \<in> set (ambient_now (kn_threads w ! t)) then 1 else 0, None)), w)),
     ambient_lower = (\<lambda>t c w. on_thread t (\<lambda>th. th\<lparr>dt_ambient := removeAll c (dt_ambient th)\<rparr>) w),
     capget = (\<lambda>t w. (if length (kn_threads w) \<le> t then Err ESRCH
       else Ok (known (dt_data (kn_threads w ! t))), w)),
     capset = (\<lambda>t data w. on_thread t (\<lambda>th. th\<lparr>dt_data := data, dt_ambient := ambient_now th\<rparr>) w),
     set_no_new_privs = (\<lambda>t w. on_thread t (\<lambda>th. th\<lparr>dt_no_new_privs := True\<rparr>) w),
     set_dumpable = (\<lambda>d w. (None, w))\<rparr>"

definition demo_procs :: "kernel proc_ops" where
  "demo_procs = \<lparr>
     look_path = (\<lambda>name w. (Ok (''/bin/'' @ name), w)),
     stdin_ok = (\<lambda>w. (False, w)),
     stdin_fd = 0,
     get_foreground = (\<lambda>w. (Ok 5, w)),
     set_foreground = (\<lambda>g w. (None, w)),
     getpgrp = (\<lambda>w. 5),
     getpid = (\<lambda>w. 5),
     start = (\<lambda>t child w. (Ok 7, w)),
     kill = (\<lambda>target sig w. (None, w)),
     wait4 = (\<lambda>p all w. case kn_waits w of [] \<Rightarrow> (Err ECHILD, w) | r # rs \<Rightarrow> (r, w\<lparr>kn_waits := rs\<rparr>)),
     release = (\<lambda>p w. (None, w))\<rparr>"

definition fresh_handle :: "kernel \<Rightarrow> nat" where
  "fresh_handle w = Suc (sum_list (kn_handles w))"

definition demo_sup :: "kernel sup_ops" where
  "demo_sup = \<lparr>
     caps = demo_caps,
     procs = demo_procs,
     stat_socket = (\<lambda>path w. (Ok True, w)),
     open_control = (\<lambda>w. (Ok (fresh_handle w), w\<lparr>kn_handles := fresh_handle w # kn_handles w\<rparr>)),
     new_ifreq = (\<lambda>name. None),
     get_flags = (\<lambda>fd w. (Ok 8, w)),
     set_flags = (\<lambda>fd flags w. (None, w)),
     tcp_listen = (\<lambda>a w. if a = SOCKAddress \<and> kn_waits w = [] then (Err ''in use'', w)
       else (Ok (fresh_handle w), w\<lparr>kn_handles := fresh_handle w # kn_handles w\<rparr>)),
     close_handle = (\<lambda>h w. w\<lparr>kn_handles := removeAll h (kn_handles w)\<rparr>),
     set_subreaper = (\<lambda>w. (None, w)),
     executable = (\<lambda>w. (Ok ''/usr/bin/airjail'', w))\<rparr>"

section \<open>It obeys the laws\<close>

lemma known_field:
  assumes "f \<in> {Effective, Permitted, Inheritable}"
  shows "word_caps f (known data) = word_caps f data \<inter> {..40}"
proof -
  have "bit (f (data_word (known data) (c div 32))) (c mod 32) \<longleftrightarrow>
      bit (f (data_word data (c div 32))) (c mod 32) \<and> c \<le> 40" if "c < 64" for c
  proof (cases "c < 32")
    case True
    then show ?thesis using assms by (auto simp: known_def data_word_def)
  next
    case False
    with that have "c div 32 = 1" "c mod 32 = c - 32" by (simp_all add: le_mod_geq le_div_geq)
    then show ?thesis
      using assms False by (auto simp: known_def data_word_def bit_take_bit_iff)
  qed
  then show ?thesis by (auto simp: word_caps_def)
qed

lemma known_caps [simp]:
  "word_caps Effective (known data) = word_caps Effective data \<inter> {..40}"
  "word_caps Permitted (known data) = word_caps Permitted data \<inter> {..40}"
  "word_caps Inheritable (known data) = word_caps Inheritable data \<inter> {..40}"
  by (simp_all add: known_field)

lemma set_ambient_now:
  "set (ambient_now th) = {c \<in> set (dt_ambient th). c \<le> 40} \<inter> word_caps Permitted (dt_data th) \<inter>
     word_caps Inheritable (dt_data th)"
proof -
  have "c \<in> word_caps f (known (dt_data th)) \<longleftrightarrow>
      bit (f (data_word (known (dt_data th)) (c div 32))) (c mod 32)" if "c \<le> 40" for c f
    using that by (simp add: word_caps_def)
  then have "set (ambient_now th) = {c \<in> set (dt_ambient th). c \<le> 40 \<and>
      c \<in> word_caps Permitted (known (dt_data th)) \<and> c \<in> word_caps Inheritable (known (dt_data th))}"
    by (auto simp: ambient_now_def simp del: known_caps)
  then show ?thesis by auto
qed

lemma on_thread_changes:
  "(\<And>th. thread_creds (g th) = f (thread_creds th)) \<Longrightarrow> changes demo_view t f w (on_thread t g w)"
  by (auto simp: changes_def on_thread_def demo_view_def fun_eq_iff nth_list_update)

lemma on_thread_einval [simp]: "fst (on_thread t g w) \<noteq> Some EINVAL"
  by (simp add: on_thread_def)

lemma demo_cap_laws: "cap_laws demo_caps demo_view 40"
proof -
  have "cr_ambient (thread_creds th) \<subseteq> cr_permitted (thread_creds th) \<inter> cr_inheritable (thread_creds th) \<and>
      cr_bounding (thread_creds th) \<subseteq> {..40} \<and> cr_permitted (thread_creds th) \<subseteq> {..40} \<and>
      cr_effective (thread_creds th) \<subseteq> {..40} \<and> cr_inheritable (thread_creds th) \<subseteq> {..40}" for th
    by (auto simp: thread_creds_def set_ambient_now)
  then have bounds: "cr_ambient (demo_view w t) \<subseteq> cr_permitted (demo_view w t) \<inter> cr_inheritable (demo_view w t) \<and>
      cr_bounding (demo_view w t) \<subseteq> {..40} \<and> cr_permitted (demo_view w t) \<subseteq> {..40} \<and>
      cr_effective (demo_view w t) \<subseteq> {..40} \<and> cr_inheritable (demo_view w t) \<subseteq> {..40}" for w t
    by (simp add: demo_view_def no_creds_def)
  have "changes demo_view t (\<lambda>cr. cr\<lparr>cr_bounding := cr_bounding cr - {c}\<rparr>) w
      (on_thread t (\<lambda>th. th\<lparr>dt_bounding := removeAll c (dt_bounding th)\<rparr>) w)" for t c w
    by (rule on_thread_changes) (auto simp: thread_creds_def ambient_now_def intro!: creds.equality)
  then have drop: "changes demo_view t (\<lambda>cr. cr\<lparr>cr_bounding := cr_bounding cr - {c}\<rparr>) w (bounding_drop demo_caps t c w) \<and>
      (fst (bounding_drop demo_caps t c w) = Some EINVAL \<longrightarrow> 40 < c)" for t c w
    by (auto simp: demo_caps_def) (simp add: changes_def)
  have lower: "changes demo_view t (\<lambda>cr. cr\<lparr>cr_ambient := cr_ambient cr - {c}\<rparr>) w (ambient_lower demo_caps t c w)" for t c w
    unfolding demo_caps_def cap_ops.simps
    by (rule on_thread_changes) (auto simp: thread_creds_def set_ambient_now intro!: creds.equality)
  have set: "changes demo_view t
      (\<lambda>cr. cr\<lparr>cr_effective := word_caps Effective data \<inter> {..40},
              cr_permitted := word_caps Permitted data \<inter> {..40},
              cr_inheritable := word_caps Inheritable data \<inter> {..40},
              cr_ambient := cr_ambient cr \<inter> word_caps Permitted data \<inter> word_caps Inheritable data\<rparr>)
      w (capset demo_caps t data w)" for t data w
    unfolding demo_caps_def cap_ops.simps
    by (rule on_thread_changes) (auto simp: thread_creds_def set_ambient_now intro!: creds.equality)
  have nnp: "changes demo_view t (\<lambda>cr. cr\<lparr>cr_no_new_privs := True\<rparr>) w (set_no_new_privs demo_caps t w)" for t w
    unfolding demo_caps_def cap_ops.simps
    by (rule on_thread_changes) (simp add: thread_creds_def ambient_now_def)
  have is_set: "ambient_is_set demo_caps t c w = ((v, e), w') \<longrightarrow> demo_view w' = demo_view w \<and>
      (e = None \<longrightarrow> (v = 1 \<longleftrightarrow> c \<in> cr_ambient (demo_view w t))) \<and> (e = Some EINVAL \<longrightarrow> v \<noteq> 1 \<and> 40 < c)"
    for t c w v e w'
    by (auto simp: demo_caps_def demo_view_def thread_creds_def)
  have get: "capget demo_caps t w = (r, w') \<longrightarrow> demo_view w' = demo_view w \<and>
      (\<forall>data. r = Ok data \<longrightarrow> word_caps Effective data = cr_effective (demo_view w t) \<and>
         word_caps Permitted data = cr_permitted (demo_view w t) \<and>
         word_caps Inheritable data = cr_inheritable (demo_view w t))" for t w r w'
  proof (intro impI)
    let ?r = "if length (kn_threads w) \<le> t then Err ESRCH else Ok (known (dt_data (kn_threads w ! t)))"
    assume "capget demo_caps t w = (r, w')"
    moreover have "capget demo_caps t w = (?r, w)" by (simp add: demo_caps_def)
    ultimately have eq: "(r, w') = (?r, w)" by (rule subst)
    have "w' = w" "r = ?r" using eq [THEN arg_cong [where f = snd]] eq [THEN arg_cong [where f = fst]]
      unfolding fst_conv snd_conv .
    then show "demo_view w' = demo_view w \<and>
      (\<forall>data. r = Ok data \<longrightarrow> word_caps Effective data = cr_effective (demo_view w t) \<and>
         word_caps Permitted data = cr_permitted (demo_view w t) \<and>
         word_caps Inheritable data = cr_inheritable (demo_view w t))"
      by (simp add: demo_view_def thread_creds_def del: split_paired_All)
  qed
  have dump: "demo_view (snd (set_dumpable demo_caps d w)) = demo_view w" for d w
    by (simp add: demo_caps_def)
  show ?thesis
    unfolding cap_laws_def
    by (intro conjI allI;
        (rule drop [THEN conjunct1] | rule drop [THEN conjunct2] | rule lower | rule set | rule nnp
         | rule is_set | rule get | rule dump
         | rule bounds [THEN conjunct1] | simp add: bounds))
qed

lemma demo_creds_laws: "creds_laws demo_sup demo_view 40"
  unfolding creds_laws_def setup_ops_keep_def
  using demo_cap_laws by (auto simp: demo_sup_def demo_procs_def demo_view_def)

lemma demo_handle_laws: "handle_laws demo_sup (\<lambda>w. set (kn_handles w))"
proof -
  have "fresh_handle w \<notin> set (kn_handles w)" for w
    using member_le_sum_list [of "fresh_handle w" "kn_handles w"] by (auto simp: fresh_handle_def)
  then show ?thesis
    unfolding handle_laws_def setup_ops_keep_def cap_ops_keep_def opens_handle_def
    by (auto simp: demo_sup_def demo_caps_def on_thread_def)
qed

lemma demo_positive_pids: "positive_pids demo_procs"
  by (simp add: positive_pids_def demo_procs_def)

lemma demo_finitely_interrupted: "finitely_interrupted demo_procs (\<lambda>w. length (kn_waits w))"
  unfolding finitely_interrupted_def
  by (auto simp: demo_procs_def split: list.splits)

section \<open>Runs\<close>

text \<open>
  Every thread starts with \<open>CAP_SETPCAP\<close> and \<open>CAP_NET_ADMIN\<close>, as after the start in a fresh user
  namespace.  The command stops once, is continued, exits with 3 and leaves one orphan.
\<close>

definition demo_words :: cap_words where
  "demo_words = \<lparr>Effective = 4352, Permitted = 4352, Inheritable = 4352\<rparr>"

definition demo_kernel :: kernel where
  "demo_kernel = \<lparr>kn_threads = replicate 2 \<lparr>dt_bounding = [8, 12, 21], dt_ambient = [8, 12],
       dt_data = (demo_words, no_words), dt_no_new_privs = False\<rparr>,
     kn_waits = [Ok (Stopped 20), Err EINTR, Ok Continued, Ok (Exited 3), Ok (Signaled 9), Err ECHILD],
     kn_handles = [0, 1, 2]\<rparr>"

definition demo_proc :: "kernel proc" where
  "demo_proc = \<lparr>pw = demo_kernel, acts = []\<rparr>"

definition demo_run_options :: run_options where
  "demo_run_options = \<lparr>ro_Environment = [''A=b''], ro_Directory = ''/'', ro_Sys = None,
     JoinParentProcessGroup = False, ro_ManageForeground = True, ReapProcessGroup = True\<rparr>"

definition demo_options :: supervisor_options where
  "demo_options = \<lparr>so_Command = [''sh''], so_Environment = [], so_Directory = ''/'',
     so_HTTPSocket = ''/run/http.sock'', so_SOCKSocket = [], so_PreservePermissions = False,
     so_RestrictUnixSockets = True, so_ManageForeground = False, so_KeepUnsafeCapabilities = [],
     so_Logger = None\<rparr>"

definition demo_result :: "((proc_error, nat) result \<times> kernel proc) option" where
  "demo_result = runSandboxedProcess demo_procs 0 [''sh''] demo_run_options demo_proc"

definition demo_child :: exec_cmd where
  "demo_child = \<lparr>cmd_path = ''/bin/sh'', cmd_args = [''sh''], cmd_env = [''A=b''], cmd_dir = ''/'',
     cmd_sys = no_attributes\<lparr>Pdeathsig := 9, Setpgid := True\<rparr>\<rparr>"

definition demo_acts :: "proc_action list" where
  "demo_acts = [Started 0 demo_child (Ok 7), Waited 7 (Ok (Stopped 20)), Killed 5 19, Killed (-7) 18,
     Waited 7 (Err EINTR), Waited 7 (Ok Continued), Waited 7 (Ok (Exited 3)), Killed (-7) 9,
     Waited (-7) (Ok (Signaled 9)), Waited (-7) (Err ECHILD), Released 7, SignalsStopped]"

lemma demo_run: "map_option (\<lambda>(r, st). (r, acts st)) demo_result = Some (Ok 3, demo_acts)"
  by code_simp

definition demo_supervised ::
  "thread \<Rightarrow> ((sup_error, nat) result \<times> kernel proc) option" where
  "demo_supervised u = RunSupervisor ascii_lib demo_sup 0 u demo_options [] [BridgeReturned None] demo_proc"

lemma demo_supervised_0:
  "map_option (\<lambda>(r, st). (r, life 7 (acts st))) (demo_supervised 0) = Some (Ok 3, [Began 7, Ended 3])"
  by code_simp

lemma demo_supervised_1:
  "map_option (\<lambda>(r, st). (r, life 7 (acts st))) (demo_supervised 1) = Some (Ok 3, [Began 7, Ended 3])"
  by code_simp

section \<open>The properties on these runs\<close>

lemma demo_result_ends:
  "\<exists>st'. demo_result = Some (Ok 3, st') \<and> acts st' = demo_acts"
  using demo_run by auto

theorem sandboxed_exit_code_witness:
  "\<exists>st' pid tr k. demo_result = Some (Ok 3, st') \<and> acts st' = tr \<and> life pid tr = [Began pid, Ended 3] \<and>
     job_events 5 (- pid) pid tr = concat (replicate k [ChildStopped, StopAirjail, ContinueChild])"
proof -
  obtain st' where st': "demo_result = Some (Ok 3, st')" using demo_result_ends by blast
  have "getpid demo_procs w = 5" for w by (simp add: demo_procs_def)
  from sandboxed_exit_code [OF st' [unfolded demo_result_def] demo_positive_pids this] st'
  show ?thesis by (auto simp: demo_proc_def demo_run_options_def)
qed

theorem sandboxed_process_cleaned_up_witness:
  "\<exists>st'. demo_result = Some (Ok 3, st') \<and> Killed (-7) SIGKILL \<in> set (acts st') \<and>
     Waited (-7) (Err ECHILD) \<in> set (acts st') \<and> last (acts st') = SignalsStopped"
proof -
  obtain st' where st': "demo_result = Some (Ok 3, st')" "acts st' = demo_acts"
    using demo_result_ends by blast
  have "Began 7 \<in> set (life 7 (acts st'))" unfolding st'(2) by code_simp
  from sandboxed_process_cleaned_up [OF st'(1) [unfolded demo_result_def] demo_positive_pids _ this] st'(1)
  show ?thesis by (auto simp: demo_proc_def demo_run_options_def)
qed

theorem sandboxed_run_returns_witness:
  "\<exists>r st'. runSandboxedProcess demo_procs 0 [''sh''] demo_run_options demo_proc = Some (r, st')"
  by (rule sandboxed_run_returns [OF demo_finitely_interrupted demo_positive_pids])

lemma demo_setup:
  "\<exists>attributes w'. supervisor_setup ascii_lib demo_sup 0 demo_options demo_kernel =
     (Ok ([\<lparr>br_listener = 4, br_socketPath = ''/run/http.sock''\<rparr>], attributes), w')"
proof -
  have "fst (supervisor_setup ascii_lib demo_sup 0 demo_options demo_kernel) =
      Ok ([\<lparr>br_listener = 4, br_socketPath = ''/run/http.sock''\<rparr>], None)"
    by code_simp
  then show ?thesis by (metis surj_pair fst_conv)
qed

theorem supervisor_setup_handles_witness:
  "\<exists>servers attributes w'. supervisor_setup ascii_lib demo_sup 0 demo_options demo_kernel =
     (Ok (servers, attributes), w') \<and> set (kn_handles w') = {0, 1, 2} \<union> br_listener ` set servers"
proof -
  obtain attributes w' where s: "supervisor_setup ascii_lib demo_sup 0 demo_options demo_kernel =
     (Ok ([\<lparr>br_listener = 4, br_socketPath = ''/run/http.sock''\<rparr>], attributes), w')"
    using demo_setup by blast
  from supervisor_setup_handles [OF demo_handle_laws s] s show ?thesis
    by (auto simp: holds_listeners_def demo_kernel_def)
qed

lemma demo_supervised_ends:
  assumes "u < 2"
  shows "\<exists>st'. demo_supervised u = Some (Ok 3, st') \<and> Began 7 \<in> set (life 7 (acts st'))"
proof -
  have "u = 0 \<or> u = 1" using assms by auto
  with demo_supervised_0 demo_supervised_1
  have "map_option (\<lambda>(r, st). (r, life 7 (acts st))) (demo_supervised u) = Some (Ok 3, [Began 7, Ended 3])"
    by auto
  then show ?thesis by auto
qed

theorem command_without_dangerous_capabilities_witness:
  "\<exists>st' child w0 w1. demo_supervised 0 = Some (Ok 3, st') \<and> Started 0 child (Ok 7) \<in> set (acts st') \<and>
     start demo_procs 0 child w0 = (Ok 7, w1) \<and> demo_view w0 0 = no_creds"
proof -
  obtain st' where st': "demo_supervised 0 = Some (Ok 3, st')" "Began 7 \<in> set (life 7 (acts st'))"
    using demo_supervised_ends [of 0] by auto
  have "positive_pids (procs demo_sup)" "acts demo_proc = []"
    by (simp_all add: demo_sup_def demo_positive_pids demo_proc_def)
  from command_without_dangerous_capabilities [OF demo_creds_laws this(1) st'(1) [unfolded demo_supervised_def] this(2) st'(2)] st'(1)
  show ?thesis by (auto simp: demo_options_def demo_sup_def)
qed

theorem command_on_another_thread_witness:
  "\<exists>st' child w0 w1. demo_supervised 1 = Some (Ok 3, st') \<and> Started 1 child (Ok 7) \<in> set (acts st') \<and>
     start demo_procs 1 child w0 = (Ok 7, w1) \<and>
     CAP_NET_ADMIN \<in> cr_permitted (demo_view w0 1) \<and> CAP_NET_ADMIN \<in> cr_ambient (demo_view w0 1)"
proof -
  obtain st' where st': "demo_supervised 1 = Some (Ok 3, st')" "Began 7 \<in> set (life 7 (acts st'))"
    using demo_supervised_ends [of 1] by auto
  have a: "positive_pids (procs demo_sup)" "(1 :: nat) \<noteq> 0" "acts demo_proc = []"
    by (simp_all add: demo_sup_def demo_positive_pids demo_proc_def)
  have "list_all (\<lambda>f. bit (f demo_words) 12) [Effective, Permitted, Inheritable]" by code_simp
  then have "CAP_NET_ADMIN \<in> cr_permitted (demo_view demo_kernel 1)"
    "CAP_NET_ADMIN \<in> cr_ambient (demo_view demo_kernel 1)"
    by (simp_all add: demo_view_def demo_kernel_def thread_creds_def set_ambient_now word_caps_def
        CAP_NET_ADMIN_def data_word_def known_def)
  moreover obtain child w0 w1 where "Started 1 child (Ok 7) \<in> set (acts st')"
    "start (procs demo_sup) 1 child w0 = (Ok 7, w1)" "demo_view w0 1 = demo_view (pw demo_proc) 1"
    using command_on_another_thread [OF demo_creds_laws a(1,2) st'(1) [unfolded demo_supervised_def] a(3) st'(2)]
    by blast
  moreover have "procs demo_sup = demo_procs" "pw demo_proc = demo_kernel"
    by (simp_all add: demo_sup_def demo_proc_def)
  ultimately show ?thesis using st'(1) by metis
qed

theorem supervisor_exit_code_witness:
  "\<exists>st' servers attributes w. supervisor_setup ascii_lib demo_sup 0 demo_options demo_kernel =
     (Ok (servers, attributes), w) \<and>
     command_goroutine demo_sup 0 demo_options attributes (demo_proc\<lparr>pw := w\<rparr>) = Some (Ok 3, st')"
proof -
  obtain st' where st': "demo_supervised 0 = Some (Ok 3, st')"
    using demo_supervised_ends [of 0] by auto
  have "\<forall>r. CommandReturned r \<notin> set ([] @ [BridgeReturned None])" by simp
  from supervisor_exit_code [OF st' [unfolded demo_supervised_def] this]
  show ?thesis by (auto simp: demo_proc_def)
qed

end
