(* ===== verification/Launch.thy ===== *)
theory Launch
  imports Supervisor
begin

text \<open>
  Starting the supervisor: \<open>Run\<close> and \<open>namespaceProcessAttributes\<close> of
  internal/namespace/namespace_linux.go build its command line in the outer process, and
  \<open>runSupervisor\<close> of main.go reads that command line in the new process.  Parsing of flags is
  done by github.com/spf13/pflag, which is a parameter with the laws the code relies on.
\<close>

unbundle bit_operations_syntax

section \<open>The outer side\<close>

definition SupervisorCommand :: string where "SupervisorCommand = ''__netns-supervisor''"
definition HTTPSocketOption :: string where "HTTPSocketOption = ''http-socket''"
definition SOCKSSocketOption :: string where "SOCKSSocketOption = ''socks-socket''"
definition PreservePermissionsOption :: string where "PreservePermissionsOption = ''preserve-permissions''"
definition RestrictSocketsOption :: string where "RestrictSocketsOption = ''restrict-unix-sockets''"
definition KeepUnsafeCapability :: string where "KeepUnsafeCapability = ''keep-unsafe-capability''"
definition ManageForegroundOption :: string where "ManageForegroundOption = ''manage-foreground''"
definition LogLevelOption :: string where "LogLevelOption = ''log-level''"

record parent_options =
  po_Executable :: string
  po_Command :: "string list"
  po_Environment :: "string list"
  po_Directory :: string
  po_HTTPSocket :: string
  po_SOCKSocket :: string
  po_Mode :: mode
  po_RestrictUnixSockets :: bool
  po_KeepUnsafeCapabilities :: "string list"
  po_Logger :: "logger option"

definition flag :: "string \<Rightarrow> string" where "flag name = ''--'' @ name"

definition supervisor_arguments :: "parent_options \<Rightarrow> bool \<Rightarrow> string list \<Rightarrow> string list" where
  "supervisor_arguments options foreground keptCapabilities =
     [po_Executable options, SupervisorCommand] @
     (if po_HTTPSocket options \<noteq> [] then [flag HTTPSocketOption, po_HTTPSocket options] else []) @
     (if po_SOCKSocket options \<noteq> [] then [flag SOCKSSocketOption, po_SOCKSocket options] else []) @
     (if po_Mode options = PermissionPreservingMode then [flag PreservePermissionsOption] else []) @
     (if po_RestrictUnixSockets options then [flag RestrictSocketsOption] else []) @
     (if foreground then [flag ManageForegroundOption] else []) @
     concat (map (\<lambda>capability. [flag KeepUnsafeCapability, capability]) keptCapabilities) @
     [flag LogLevelOption, LevelName (po_Logger options)] @
     [''--''] @ po_Command options"

text \<open>\<open>uid\<close> and \<open>gid\<close> are \<open>os.Getuid()\<close> and \<open>os.Getgid()\<close>.\<close>

definition CLONE_NEWUSER :: "32 word" where "CLONE_NEWUSER = 0x10000000"
definition CLONE_NEWNET :: "32 word" where "CLONE_NEWNET = 0x40000000"

definition namespaceProcessAttributes :: "int \<Rightarrow> int \<Rightarrow> mode \<Rightarrow> sys_proc_attr" where
  "namespaceProcessAttributes uid gid m =
     (if m = PermissionPreservingMode
      then no_attributes\<lparr>Cloneflags := CLONE_NEWNET, Pdeathsig := SIGKILL\<rparr>
      else no_attributes\<lparr>Cloneflags := CLONE_NEWUSER OR CLONE_NEWNET,
             UidMappings := [(uid, uid, 1)], GidMappings := [(gid, gid, 1)],
             GidMappingsEnableSetgroups := False,
             AmbientCaps := [CAP_NET_ADMIN, CAP_SETPCAP], Pdeathsig := SIGKILL\<rparr>)"

datatype launch_error =
    ResolveCapabilities cap_error
  | PreservingSupervisor proc_error
  | RootlessSupervisor proc_error

text \<open>
  \<open>Run\<close>, on thread \<open>t\<close>; the warnings of the resolution are the third component of the result.
\<close>

definition Run ::
  "text_lib \<Rightarrow> 'w cap_ops \<Rightarrow> 'w proc_ops \<Rightarrow> int \<Rightarrow> int \<Rightarrow> thread \<Rightarrow> parent_options \<Rightarrow> 'w proc \<Rightarrow>
   ((launch_error, nat) result \<times> cap_warning list \<times> 'w proc) option" where
  "Run tx cops ops uid gid t options st =
     (case resolveUnsafeCapabilities tx cops t (po_KeepUnsafeCapabilities options) (po_Mode options) (pw st) of
        (Inl e, w) \<Rightarrow> Some (Err (ResolveCapabilities e), [], st\<lparr>pw := w\<rparr>)
      | (Inr (keptCapabilities, warnings), w) \<Rightarrow>
          (case terminalForeground ops (st\<lparr>pw := w\<rparr>) of
             ((terminal, foregroundProcessGroup), st) \<Rightarrow>
               let foreground = ownsTerminalForeground terminal foregroundProcessGroup (getpgrp ops (pw st));
                   arguments = supervisor_arguments options foreground keptCapabilities
               in (case runSandboxedProcess ops t arguments
                      \<lparr>ro_Environment = po_Environment options, ro_Directory = po_Directory options,
                       ro_Sys = Some (namespaceProcessAttributes uid gid (po_Mode options)),
                       JoinParentProcessGroup = True, ro_ManageForeground = False,
                       ReapProcessGroup = False\<rparr> st of
                     None \<Rightarrow> None
                   | Some (r, st) \<Rightarrow>
                       Some (rmap_err (if po_Mode options = PermissionPreservingMode
                               then PreservingSupervisor else RootlessSupervisor) r, warnings, st))))"

section \<open>The inner side\<close>

text \<open>The values of the supervisor's flags.\<close>

record supervisor_flags =
  fl_httpSocket :: string
  fl_socksSocket :: string
  fl_logLevel :: string
  fl_preservePermissions :: bool
  fl_restrictUnixSockets :: bool
  fl_manageForeground :: bool
  fl_keepUnsafeCapabilities :: "string list"

definition supervisor_defaults :: supervisor_flags where
  "supervisor_defaults = \<lparr>fl_httpSocket = [], fl_socksSocket = [], fl_logLevel = ''warning'',
     fl_preservePermissions = False, fl_restrictUnixSockets = False, fl_manageForeground = False,
     fl_keepUnsafeCapabilities = []\<rparr>"

datatype main_error =
    ParseSupervisorFlags string
  | SetupSupervisorLogger string
  | SupervisorNotDumpable cap_error
  | ChildCommandRequired
  | SupervisorWorkingDirectory string

text \<open>
  \<open>runSupervisor\<close> up to the call of \<open>RunSupervisor\<close>: the options it passes on.  \<open>pflag_parse\<close> continues
  from the given flag values and returns them with the remaining arguments; \<open>file_term\<close> is what the
  logger finds out about stderr; \<open>environ\<close> and \<open>getwd\<close> are the process's environment and
  directory.
\<close>

definition supervisor_start ::
  "text_lib \<Rightarrow> (supervisor_flags \<Rightarrow> string list \<Rightarrow> (string, supervisor_flags \<times> string list) result) \<Rightarrow>
   bool option \<Rightarrow> 'w cap_ops \<Rightarrow> string list \<Rightarrow> ('w \<Rightarrow> (string, string) result \<times> 'w) \<Rightarrow>
   string list \<Rightarrow> 'w \<Rightarrow> (main_error, supervisor_options) result \<times> 'w" where
  "supervisor_start tx pflag_parse file_term cops environ getwd args w =
     (case pflag_parse supervisor_defaults args of
        Inl e \<Rightarrow> (Err (ParseSupervisorFlags e), w)
      | Inr (flags, command) \<Rightarrow>
          (case new_logger tx True file_term (fl_logLevel flags) ''supervisor'' of
             Inl e \<Rightarrow> (Err (SetupSupervisorLogger e), w)
           | Inr lg \<Rightarrow>
               (case SetNonDumpable cops w of
                  (Inl e, w) \<Rightarrow> (Err (SupervisorNotDumpable e), w)
                | (Inr _, w) \<Rightarrow>
                    if command = [] then (Err ChildCommandRequired, w)
                    else
                      (case getwd w of
                         (Inl e, w) \<Rightarrow> (Err (SupervisorWorkingDirectory e), w)
                       | (Inr workingDirectory, w) \<Rightarrow>
                           (Ok \<lparr>so_Command = command, so_Environment = environ,
                                so_Directory = workingDirectory,
                                so_HTTPSocket = fl_httpSocket flags,
                                so_SOCKSocket = fl_socksSocket flags,
                                so_PreservePermissions = fl_preservePermissions flags,
                                so_RestrictUnixSockets = fl_restrictUnixSockets flags,
                                so_ManageForeground = fl_manageForeground flags,
                                so_KeepUnsafeCapabilities = fl_keepUnsafeCapabilities flags,
                                so_Logger = lg\<rparr>, w)))))"

datatype supervisor_exit = StartFailed main_error | SupervisorFailed sup_error

definition runSupervisor ::
  "text_lib \<Rightarrow> (supervisor_flags \<Rightarrow> string list \<Rightarrow> (string, supervisor_flags \<times> string list) result) \<Rightarrow>
   bool option \<Rightarrow> 'w sup_ops \<Rightarrow> string list \<Rightarrow> ('w \<Rightarrow> (string, string) result \<times> 'w) \<Rightarrow>
   thread \<Rightarrow> thread \<Rightarrow> group_event list \<Rightarrow> group_event list \<Rightarrow> string list \<Rightarrow> 'w proc \<Rightarrow>
   ((supervisor_exit, nat) result \<times> 'w proc) option" where
  "runSupervisor tx pflag_parse file_term ops environ getwd t u before after args st =
     (case supervisor_start tx pflag_parse file_term (caps ops) environ getwd args (pw st) of
        (Inl e, w) \<Rightarrow> Some (Err (StartFailed e), st\<lparr>pw := w\<rparr>)
      | (Inr options, w) \<Rightarrow>
          (case RunSupervisor tx ops t u options before after (st\<lparr>pw := w\<rparr>) of
             None \<Rightarrow> None
           | Some (r, st) \<Rightarrow> Some (rmap_err SupervisorFailed r, st)))"

section \<open>The command line carries the options\<close>

text \<open>
  What the code relies on pflag for: a string flag takes the next argument, a boolean flag alone is
  true, a repeated array flag collects its arguments in order, and \<open>--\<close> ends the flags.
\<close>

definition pflag_laws ::
  "(supervisor_flags \<Rightarrow> string list \<Rightarrow> (string, supervisor_flags \<times> string list) result) \<Rightarrow> bool" where
  "pflag_laws parse \<longleftrightarrow> (\<forall>f v rest.
     parse f (''--'' # rest) = Ok (f, rest) \<and>
     parse f (flag HTTPSocketOption # v # rest) = parse (f\<lparr>fl_httpSocket := v\<rparr>) rest \<and>
     parse f (flag SOCKSSocketOption # v # rest) = parse (f\<lparr>fl_socksSocket := v\<rparr>) rest \<and>
     parse f (flag LogLevelOption # v # rest) = parse (f\<lparr>fl_logLevel := v\<rparr>) rest \<and>
     parse f (flag PreservePermissionsOption # rest) = parse (f\<lparr>fl_preservePermissions := True\<rparr>) rest \<and>
     parse f (flag RestrictSocketsOption # rest) = parse (f\<lparr>fl_restrictUnixSockets := True\<rparr>) rest \<and>
     parse f (flag ManageForegroundOption # rest) = parse (f\<lparr>fl_manageForeground := True\<rparr>) rest \<and>
     parse f (flag KeepUnsafeCapability # v # rest) =
       parse (f\<lparr>fl_keepUnsafeCapabilities := fl_keepUnsafeCapabilities f @ [v]\<rparr>) rest)"

lemma pflag_keep:
  assumes "pflag_laws parse"
  shows "parse f (concat (map (\<lambda>c. [flag KeepUnsafeCapability, c]) cs) @ rest) =
    parse (f\<lparr>fl_keepUnsafeCapabilities := fl_keepUnsafeCapabilities f @ cs\<rparr>) rest"
proof (induction cs arbitrary: f)
  case (Cons c cs)
  have "parse f (flag KeepUnsafeCapability # c # xs) =
      parse (f\<lparr>fl_keepUnsafeCapabilities := fl_keepUnsafeCapabilities f @ [c]\<rparr>) xs" for xs
    using assms by (simp add: pflag_laws_def)
  with Cons show ?case by simp
qed simp

lemma supervisor_arguments_parse:
  assumes "pflag_laws parse"
  shows "parse supervisor_defaults (drop 2 (supervisor_arguments options foreground kept)) =
    Ok (\<lparr>fl_httpSocket = po_HTTPSocket options, fl_socksSocket = po_SOCKSocket options,
         fl_logLevel = LevelName (po_Logger options),
         fl_preservePermissions = (po_Mode options = PermissionPreservingMode),
         fl_restrictUnixSockets = po_RestrictUnixSockets options, fl_manageForeground = foreground,
         fl_keepUnsafeCapabilities = kept\<rparr>, po_Command options)"
proof -
  have law: "parse f (''--'' # rest) = Ok (f, rest)"
    "parse f (flag HTTPSocketOption # v # rest) = parse (f\<lparr>fl_httpSocket := v\<rparr>) rest"
    "parse f (flag SOCKSSocketOption # v # rest) = parse (f\<lparr>fl_socksSocket := v\<rparr>) rest"
    "parse f (flag LogLevelOption # v # rest) = parse (f\<lparr>fl_logLevel := v\<rparr>) rest"
    "parse f (flag PreservePermissionsOption # rest) = parse (f\<lparr>fl_preservePermissions := True\<rparr>) rest"
    "parse f (flag RestrictSocketsOption # rest) = parse (f\<lparr>fl_restrictUnixSockets := True\<rparr>) rest"
    "parse f (flag ManageForegroundOption # rest) = parse (f\<lparr>fl_manageForeground := True\<rparr>) rest"
    for f v rest
    using assms by (simp_all add: pflag_laws_def)
  show ?thesis
    by (cases "po_HTTPSocket options = []"; cases "po_SOCKSocket options = []";
        cases "po_Mode options"; cases "po_RestrictUnixSockets options"; cases foreground)
      (simp_all add: supervisor_arguments_def law pflag_keep [OF assms] supervisor_defaults_def)
qed

end
