(* ===== verification/Launch_Properties.thy ===== *)
theory Launch_Properties
  imports Launch Kernel_Examples
begin

text \<open>
  What the outer process asks for reaches the supervisor: the command line built by \<open>Run\<close> is
  read back by \<open>runSupervisor\<close> as the same options, and the capabilities a user may keep are
  named on it so that both processes mean the same set.
\<close>

lemma resolve_parse:
  assumes "cap_laws cops view top_cap"
    and "resolveUnsafeCapabilities tx cops t requested m w = (Ok (kept, warnings), w')"
  shows "\<exists>capabilities. parseUnsafeCapabilities tx requested = Ok capabilities \<and>
    parseUnsafeCapabilities tx kept =
      Ok (if m = PermissionPreservingMode
          then filter (\<lambda>c. cap_value c \<in> cr_permitted (view w t)) capabilities else [])"
proof -
  obtain capabilities data where p: "parseUnsafeCapabilities tx requested = Ok capabilities"
    and g: "capget cops t w = (Ok data, w')"
    and k: "kept = fst (selectUnsafeCapabilities capabilities m data)"
    using assms(2) by (auto simp: resolveUnsafeCapabilities_def split: sum.splits prod.splits)
  have "capabilityPermitted data (cap_value c) \<longleftrightarrow> cap_value c \<in> cr_permitted (view w t)"
    if "c \<in> set capabilities" for c
    using that parseUnsafeCapabilities_Ok(2) [OF p] dangerous_values(2) cap_capget(3) [OF assms(1) g]
    by (auto simp: capabilityPermitted_iff)
  then have f: "filter (\<lambda>c. capabilityPermitted data (cap_value c)) capabilities =
      filter (\<lambda>c. cap_value c \<in> cr_permitted (view w t)) capabilities"
    by (simp cong: filter_cong)
  let ?f = "filter (\<lambda>c. cap_value c \<in> cr_permitted (view w t)) capabilities"
  have "set ?f \<subseteq> set dangerousCapabilities" "distinct (map cap_value ?f)"
    using parseUnsafeCapabilities_Ok(1,2) [OF p] by (auto simp: distinct_map_filter)
  then have "parseUnsafeCapabilities tx (map cap_name ?f) = Ok ?f"
    by (rule parseUnsafeCapabilities_names)
  moreover have "parseUnsafeCapabilities tx [] = Ok []" by (simp add: parseUnsafeCapabilities_def)
  ultimately show ?thesis
    using p k f by (auto simp: selectUnsafeCapabilities_kept)
qed

text \<open>
  the supervisor gets the options of the outer process through its command line: the command
  word for word, the sockets, the mode, the socket restriction, the foreground decision and the
  log level; and the capabilities it keeps are exactly those that were asked for, that the caller
  has, and only in the permission-preserving mode.
\<close>

theorem supervisor_gets_options:
  assumes "pflag_laws parse" and "cap_laws cops view top_cap"
    and "resolveUnsafeCapabilities tx cops t (po_KeepUnsafeCapabilities options) (po_Mode options) w0 =
      (Ok (kept, warnings), w1)"
    and "po_Command options \<noteq> []" and "SetNonDumpable cops w = (Ok (), w2)" and "getwd w2 = (Ok dir, w3)"
  shows "\<exists>lg capabilities.
    supervisor_start tx parse file_term cops env getwd
      (drop 2 (supervisor_arguments options foreground kept)) w =
      (Ok \<lparr>so_Command = po_Command options, so_Environment = env, so_Directory = dir,
           so_HTTPSocket = po_HTTPSocket options, so_SOCKSocket = po_SOCKSocket options,
           so_PreservePermissions = (po_Mode options = PermissionPreservingMode),
           so_RestrictUnixSockets = po_RestrictUnixSockets options,
           so_ManageForeground = foreground, so_KeepUnsafeCapabilities = kept, so_Logger = lg\<rparr>, w3) \<and>
    LevelName lg = LevelName (po_Logger options) \<and>
    parseUnsafeCapabilities tx (po_KeepUnsafeCapabilities options) = Ok capabilities \<and>
    parseUnsafeCapabilities tx kept =
      Ok (if po_Mode options = PermissionPreservingMode
          then filter (\<lambda>c. cap_value c \<in> cr_permitted (view w0 t)) capabilities else [])"
proof -
  obtain lv where lv: "LevelName (po_Logger options) = level_string lv"
    by (cases "po_Logger options") (auto simp: LevelName_def simp del: level_string.simps)
  let ?lg = "WithPrefix (Some \<lparr>colored = (case file_term of None \<Rightarrow> False | Some t \<Rightarrow> t), lg_level = lv,
    lg_prefix = [], has_writer = True\<rparr>) ''supervisor''"
  have "new_logger tx True file_term (level_string lv) ''supervisor'' = Ok ?lg"
    by (simp add: new_logger_def)
  moreover have "LevelName ?lg = level_string lv" by (simp add: WithPrefix_def LevelName_def)
  ultimately show ?thesis
    using resolve_parse [OF assms(2,3)] supervisor_arguments_parse [OF assms(1), of options foreground kept] assms(4-6) lv
    by (auto simp: supervisor_start_def)
qed

section \<open>An example\<close>

fun demo_pflag ::
  "supervisor_flags \<Rightarrow> string list \<Rightarrow> (string, supervisor_flags \<times> string list) result" where
  "demo_pflag f [] = Ok (f, [])"
| "demo_pflag f (a # rest) =
     (if a = ''--'' then Ok (f, rest)
      else if a = flag PreservePermissionsOption then demo_pflag (f\<lparr>fl_preservePermissions := True\<rparr>) rest
      else if a = flag RestrictSocketsOption then demo_pflag (f\<lparr>fl_restrictUnixSockets := True\<rparr>) rest
      else if a = flag ManageForegroundOption then demo_pflag (f\<lparr>fl_manageForeground := True\<rparr>) rest
      else
        (case rest of
           [] \<Rightarrow> Err a
         | v # rest \<Rightarrow>
             if a = flag HTTPSocketOption then demo_pflag (f\<lparr>fl_httpSocket := v\<rparr>) rest
             else if a = flag SOCKSSocketOption then demo_pflag (f\<lparr>fl_socksSocket := v\<rparr>) rest
             else if a = flag LogLevelOption then demo_pflag (f\<lparr>fl_logLevel := v\<rparr>) rest
             else if a = flag KeepUnsafeCapability
             then demo_pflag (f\<lparr>fl_keepUnsafeCapabilities := fl_keepUnsafeCapabilities f @ [v]\<rparr>) rest
             else Err a))"

lemma demo_pflag_laws: "pflag_laws demo_pflag"
proof -
  have "distinct [flag HTTPSocketOption, flag SOCKSSocketOption, flag LogLevelOption,
      flag PreservePermissionsOption, flag RestrictSocketsOption, flag ManageForegroundOption,
      flag KeepUnsafeCapability, ''--'']"
    by code_simp
  then have d: "flag HTTPSocketOption \<noteq> ''--''" "flag SOCKSSocketOption \<noteq> ''--''" "flag LogLevelOption \<noteq> ''--''"
      "flag PreservePermissionsOption \<noteq> ''--''" "flag RestrictSocketsOption \<noteq> ''--''"
      "flag ManageForegroundOption \<noteq> ''--''" "flag KeepUnsafeCapability \<noteq> ''--''"
      "distinct [flag HTTPSocketOption, flag SOCKSSocketOption, flag LogLevelOption,
        flag PreservePermissionsOption, flag RestrictSocketsOption, flag ManageForegroundOption,
        flag KeepUnsafeCapability]"
    by simp_all
  show ?thesis
    unfolding pflag_laws_def
    by (intro allI conjI; subst demo_pflag.simps(2); use d in auto)
qed

definition demo_parent :: parent_options where
  "demo_parent = \<lparr>po_Executable = ''/usr/bin/airjail'', po_Command = [''sh'', ''--help''],
     po_Environment = [], po_Directory = ''/'', po_HTTPSocket = ''/run/http.sock'', po_SOCKSocket = [],
     po_Mode = PermissionPreservingMode, po_RestrictUnixSockets = True,
     po_KeepUnsafeCapabilities = [''net_admin'', ''CAP_BPF''], po_Logger = None\<rparr>"

lemma demo_resolve:
  "resolveUnsafeCapabilities ascii_lib demo_caps 0 (po_KeepUnsafeCapabilities demo_parent) (po_Mode demo_parent)
     demo_kernel = (Ok ([''CAP_NET_ADMIN''], [NotPermitted ''CAP_BPF'']), demo_kernel)"
  by code_simp

theorem supervisor_gets_options_witness:
  "\<exists>so. supervisor_start ascii_lib demo_pflag None demo_caps [''A=b''] (\<lambda>w. (Ok ''/'', w))
      (drop 2 (supervisor_arguments demo_parent False [''CAP_NET_ADMIN''])) demo_kernel = (Ok so, demo_kernel) \<and>
     so_Command so = [''sh'', ''--help''] \<and> so_PreservePermissions so \<and>
     so_KeepUnsafeCapabilities so = [''CAP_NET_ADMIN''] \<and> LevelName (so_Logger so) = ''silent''"
proof -
  have "po_Command demo_parent \<noteq> []" "SetNonDumpable demo_caps demo_kernel = (Ok (), demo_kernel)"
    "(\<lambda>w. (Ok ''/'', w)) demo_kernel = (Ok ''/'', demo_kernel)"
    by (simp_all add: demo_parent_def SetNonDumpable_def demo_caps_def)
  from supervisor_gets_options [where getwd = "\<lambda>w. (Ok ''/'', w)", OF demo_pflag_laws demo_cap_laws demo_resolve this,
      of None "[''A=b'']" False]
  show ?thesis by (auto simp: demo_parent_def LevelName_def)
qed

end
