(* ===== verification/Forwarder.thy ===== *)
theory Forwarder
  imports Prelude
begin

text \<open>
  internal/namespace/forwarder.go: the bridge from a TCP listener inside the namespace to a Unix
  socket outside.  The accept loop, the watcher of the context and one goroutine per connection
  take their steps in any order.  Unlike the sets of the proxies, the forwarder has no flag that
  says it is closing: \<open>closeAll\<close> closes what is registered at that moment and no more.
\<close>

section \<open>The state\<close>

text \<open>
  \<open>fw_waitGroup\<close> counts the goroutines.  A goroutine of client \<open>c\<close> is dialing, has dialed the outer
  connection \<open>o'\<close> but not yet registered, or relays.  \<open>fw_seen\<close> and \<open>fw_closed\<close> are the connections
  that were ever open and those that were closed.
\<close>

datatype forward_phase = ForwardAccepting | ForwardDraining bool | ForwardReturned "(string, unit) result"

record 'c forwarder =
  fw_connections :: "'c set"
  fw_waitGroup :: int
  fw_phase :: forward_phase
  fw_cancelled :: bool
  fw_watcher :: bool
  fw_dialing :: "'c set"
  fw_dialed :: "('c \<times> 'c) set"
  fw_relaying :: "('c \<times> 'c) set"
  fw_seen :: "'c set"
  fw_closed :: "'c set"

definition newForwarder :: "'c forwarder" where
  "newForwarder = \<lparr>fw_connections = {}, fw_waitGroup = 0, fw_phase = ForwardAccepting,
     fw_cancelled = False, fw_watcher = True, fw_dialing = {}, fw_dialed = {}, fw_relaying = {},
     fw_seen = {}, fw_closed = {}\<rparr>"

section \<open>The operations\<close>

definition forwarder_add :: "'c list \<Rightarrow> 'c forwarder \<Rightarrow> 'c forwarder" where
  "forwarder_add connections f = f\<lparr>fw_connections := fw_connections f \<union> set connections\<rparr>"

definition forwarder_remove :: "'c list \<Rightarrow> 'c forwarder \<Rightarrow> 'c forwarder" where
  "forwarder_remove connections f = f\<lparr>fw_connections := fw_connections f - set connections\<rparr>"

definition forwarder_closeAll :: "'c forwarder \<Rightarrow> 'c forwarder" where
  "forwarder_closeAll f = f\<lparr>fw_closed := fw_closed f \<union> fw_connections f\<rparr>"

text \<open>\<open>forward\<close>: the start, a failed dial, a successful dial, the registration, and the deferred calls.\<close>

definition forward_start :: "'c \<Rightarrow> 'c forwarder \<Rightarrow> 'c forwarder" where
  "forward_start c f = f\<lparr>fw_waitGroup := fw_waitGroup f + 1, fw_dialing := insert c (fw_dialing f),
     fw_seen := insert c (fw_seen f)\<rparr>"

definition forward_dial_fails :: "'c \<Rightarrow> 'c forwarder \<Rightarrow> 'c forwarder" where
  "forward_dial_fails c f = f\<lparr>fw_dialing := fw_dialing f - {c}, fw_closed := insert c (fw_closed f),
     fw_waitGroup := fw_waitGroup f - 1\<rparr>"

definition forward_dials :: "'c \<Rightarrow> 'c \<Rightarrow> 'c forwarder \<Rightarrow> 'c forwarder" where
  "forward_dials c out f = f\<lparr>fw_dialing := fw_dialing f - {c}, fw_dialed := insert (c, out) (fw_dialed f),
     fw_seen := insert out (fw_seen f)\<rparr>"

definition forward_registers :: "'c \<Rightarrow> 'c \<Rightarrow> 'c forwarder \<Rightarrow> 'c forwarder" where
  "forward_registers c out f =
     (forwarder_add [c, out] f)\<lparr>fw_dialed := fw_dialed f - {(c, out)},
        fw_relaying := insert (c, out) (fw_relaying f)\<rparr>"

definition forward_ends :: "'c \<Rightarrow> 'c \<Rightarrow> 'c forwarder \<Rightarrow> 'c forwarder" where
  "forward_ends c out f =
     (forwarder_remove [c, out] f)\<lparr>fw_relaying := fw_relaying f - {(c, out)},
        fw_closed := fw_closed f \<union> {c, out}, fw_waitGroup := fw_waitGroup f - 1\<rparr>"

text \<open>
  \<open>Serve\<close> and everything beside it.  \<open>is_closed\<close>: the error of \<open>Accept\<close> is \<open>net.ErrClosed\<close>.  The
  result is decided after the wait.
\<close>

inductive forwarder_step :: "'c forwarder \<Rightarrow> 'c forwarder \<Rightarrow> bool" where
  fw_accept: "fw_phase f = ForwardAccepting \<Longrightarrow> c \<notin> fw_seen f \<Longrightarrow> forwarder_step f (forward_start c f)"
| fw_dial_failed: "c \<in> fw_dialing f \<Longrightarrow> forwarder_step f (forward_dial_fails c f)"
| fw_dial_ok: "c \<in> fw_dialing f \<Longrightarrow> out \<notin> fw_seen f \<Longrightarrow> forwarder_step f (forward_dials c out f)"
| fw_register: "(c, out) \<in> fw_dialed f \<Longrightarrow> forwarder_step f (forward_registers c out f)"
| fw_end: "(c, out) \<in> fw_relaying f \<Longrightarrow> forwarder_step f (forward_ends c out f)"
| fw_accept_failed: "fw_phase f = ForwardAccepting \<Longrightarrow>
    forwarder_step f ((forwarder_closeAll f)\<lparr>fw_phase := ForwardDraining is_closed\<rparr>)"
| fw_drained: "fw_phase f = ForwardDraining is_closed \<Longrightarrow> fw_waitGroup f = 0 \<Longrightarrow>
    forwarder_step f (f\<lparr>fw_phase := ForwardReturned
      (if fw_cancelled f \<or> is_closed then Ok () else Err ''accept bridge connection''),
      fw_watcher := False\<rparr>)"
| fw_cancel: "forwarder_step f (f\<lparr>fw_cancelled := True\<rparr>)"
| fw_watch: "fw_watcher f \<Longrightarrow> fw_cancelled f \<Longrightarrow>
    forwarder_step f ((forwarder_closeAll f)\<lparr>fw_watcher := False\<rparr>)"

inductive forwarder_reachable :: "'c forwarder \<Rightarrow> bool" where
  fw_init: "forwarder_reachable newForwarder"
| fw_next: "forwarder_reachable f \<Longrightarrow> forwarder_step f f' \<Longrightarrow> forwarder_reachable f'"

section \<open>The invariant\<close>

text \<open>The connections of the goroutines, which never share one.\<close>

definition fw_pairs :: "'c forwarder \<Rightarrow> ('c \<times> 'c) set" where
  "fw_pairs f = fw_dialed f \<union> fw_relaying f"

definition fw_open :: "'c forwarder \<Rightarrow> 'c set" where
  "fw_open f = fw_dialing f \<union> fst ` fw_pairs f \<union> snd ` fw_pairs f"

definition fw_inv :: "'c forwarder \<Rightarrow> bool" where
  "fw_inv f \<longleftrightarrow>
     finite (fw_dialing f) \<and> finite (fw_dialed f) \<and> finite (fw_relaying f) \<and>
     fw_dialed f \<inter> fw_relaying f = {} \<and>
     fw_waitGroup f = int (card (fw_dialing f) + card (fw_dialed f) + card (fw_relaying f)) \<and>
     fw_seen f \<subseteq> fw_closed f \<union> fw_open f \<and> fw_open f \<subseteq> fw_seen f \<and>
     (\<forall>r. fw_phase f = ForwardReturned r \<longrightarrow> fw_waitGroup f = 0)"

lemmas forward_defs = forward_start_def forward_dial_fails_def forward_dials_def forward_registers_def
  forward_ends_def forwarder_add_def forwarder_remove_def forwarder_closeAll_def

lemma card_positive: "finite A \<Longrightarrow> x \<in> A \<Longrightarrow> 0 < card A"
  by (auto simp: card_gt_0_iff)

lemma card_remove: "finite A \<Longrightarrow> x \<in> A \<Longrightarrow> int (card (A - {x})) = int (card A) - 1"
  using card_positive [of A x] by simp

lemma fw_step_inv: "forwarder_step f f' \<Longrightarrow> fw_inv f \<Longrightarrow> fw_inv f'"
proof (induction rule: forwarder_step.induct)
  case (fw_accept f c)
  then have "c \<notin> fw_dialing f" by (auto simp: fw_inv_def fw_open_def)
  with fw_accept show ?case
    by (auto simp: fw_inv_def forward_defs fw_open_def fw_pairs_def)
next
  case (fw_dial_failed c f)
  then show ?case
    using card_remove [of "fw_dialing f" c] card_positive [of "fw_dialing f" c]
    by (auto simp: fw_inv_def forward_defs fw_open_def fw_pairs_def)
next
  case (fw_dial_ok c f out)
  then have "(c, out) \<notin> fw_dialed f" "(c, out) \<notin> fw_relaying f"
    by (auto simp: fw_inv_def fw_open_def fw_pairs_def)
  with fw_dial_ok show ?case
    using card_remove [of "fw_dialing f" c] card_positive [of "fw_dialing f" c]
    by (auto simp: fw_inv_def forward_defs fw_open_def fw_pairs_def)
next
  case (fw_register c out f)
  then have "(c, out) \<notin> fw_relaying f" by (auto simp: fw_inv_def)
  moreover have "fw_pairs (forward_registers c out f) = fw_pairs f"
    using fw_register.hyps by (auto simp: fw_pairs_def forward_defs)
  then have "fw_open (forward_registers c out f) = fw_open f"
    by (simp add: fw_open_def) (simp add: forward_defs)
  ultimately show ?case
    using fw_register card_remove [of "fw_dialed f" "(c, out)"] card_positive [of "fw_dialed f" "(c, out)"]
    by (auto simp: fw_inv_def forward_defs)
next
  case (fw_end c out f)
  let ?f = "forward_ends c out f"
  have "fw_pairs f = insert (c, out) (fw_pairs ?f)" "fw_dialing ?f = fw_dialing f"
    using fw_end by (auto simp: fw_pairs_def forward_defs fw_inv_def)
  then have "fw_open f = fw_open ?f \<union> {c, out}" by (auto simp: fw_open_def)
  moreover have "fw_seen ?f = fw_seen f" "fw_closed ?f = fw_closed f \<union> {c, out}"
    by (simp_all add: forward_defs)
  ultimately have "fw_seen ?f \<subseteq> fw_closed ?f \<union> fw_open ?f" "fw_open ?f \<subseteq> fw_seen ?f"
    using fw_end.prems unfolding fw_inv_def by auto
  then show ?case
    using fw_end card_remove [of "fw_relaying f" "(c, out)"] card_positive [of "fw_relaying f" "(c, out)"]
    by (auto simp: fw_inv_def) (auto simp: forward_defs)
qed (auto simp: fw_inv_def forward_defs fw_open_def fw_pairs_def)

lemma fw_reachable_inv: "forwarder_reachable f \<Longrightarrow> fw_inv f"
proof (induction rule: forwarder_reachable.induct)
  case fw_init
  then show ?case by (simp add: fw_inv_def newForwarder_def fw_open_def fw_pairs_def)
qed (simp add: fw_step_inv)

section \<open>Properties\<close>

text \<open>
  C29: the forwarder leaks no connection.  At any time every connection it ever had is closed or
  belongs to a running goroutine, and when \<open>Serve\<close> has returned no goroutine runs and every
  connection is closed.
\<close>

theorem forwarder_leaks_nothing:
  assumes "forwarder_reachable f"
  shows "fw_seen f \<subseteq> fw_closed f \<union> fw_open f \<and>
    (\<forall>r. fw_phase f = ForwardReturned r \<longrightarrow> fw_open f = {} \<and> fw_seen f \<subseteq> fw_closed f)"
proof -
  have inv: "fw_inv f" using fw_reachable_inv [OF assms] .
  have "fw_open f = {}" if "fw_phase f = ForwardReturned r" for r
  proof -
    from inv that have fin: "finite (fw_dialing f)" "finite (fw_dialed f)" "finite (fw_relaying f)"
      and "int (card (fw_dialing f) + card (fw_dialed f) + card (fw_relaying f)) = 0"
      by (auto simp: fw_inv_def)
    then have "card (fw_dialing f) = 0" "card (fw_dialed f) = 0" "card (fw_relaying f) = 0" by linarith+
    with fin show ?thesis by (simp add: fw_open_def fw_pairs_def)
  qed
  with inv show ?thesis by (auto simp: fw_inv_def)
qed

text \<open>One client whose dial fails, then the end of the listener.\<close>

theorem forwarder_leaks_nothing_witness:
  "\<exists>f :: nat forwarder. fw_phase f = ForwardReturned (Ok ()) \<and> fw_seen f = {1} \<and> fw_seen f \<subseteq> fw_closed f"
proof -
  let ?f1 = "forward_start (1 :: nat) newForwarder" let ?f2 = "forward_dial_fails 1 ?f1"
  let ?f3 = "(forwarder_closeAll ?f2)\<lparr>fw_phase := ForwardDraining True\<rparr>"
  let ?f4 = "?f3\<lparr>fw_phase := ForwardReturned (Ok ()), fw_watcher := False\<rparr>"
  have "forwarder_step newForwarder ?f1" by (rule fw_accept) (simp_all add: newForwarder_def)
  moreover have "forwarder_step ?f1 ?f2" by (rule fw_dial_failed) (simp add: forward_start_def)
  moreover have "forwarder_step ?f2 ?f3"
    by (rule fw_accept_failed) (simp add: forward_defs newForwarder_def)
  moreover have "forwarder_step ?f3 ?f4"
    using fw_drained [of ?f3 True] by (simp add: forward_defs newForwarder_def)
  ultimately have "forwarder_reachable ?f4" by (meson fw_init fw_next)
  from forwarder_leaks_nothing [OF this] show ?thesis
    by (intro exI [of _ ?f4]) (simp add: forward_defs newForwarder_def)
qed

text \<open>
  C2: a connection that is registered after \<open>closeAll\<close> is not closed by it.  When \<open>Accept\<close> has
  failed and the loop drains, a pair of connections can be relayed that nobody closes: there
  is a reachable state in which \<open>Serve\<close> waits for it, the context has not ended, and both are open.
\<close>

theorem forwarder_registers_late:
  "\<exists>f :: nat forwarder. forwarder_reachable f \<and> fw_phase f = ForwardDraining False \<and> \<not> fw_cancelled f \<and>
     fw_waitGroup f \<noteq> 0 \<and> fw_relaying f = {(1, 2)} \<and> fw_connections f = {1, 2} \<and> fw_closed f = {}"
proof -
  let ?f1 = "forward_start (1 :: nat) newForwarder" let ?f2 = "forward_dials 1 2 ?f1"
  let ?f3 = "(forwarder_closeAll ?f2)\<lparr>fw_phase := ForwardDraining False\<rparr>"
  let ?f4 = "forward_registers 1 2 ?f3"
  have "forwarder_step newForwarder ?f1" by (rule fw_accept) (simp_all add: newForwarder_def)
  moreover have "forwarder_step ?f1 ?f2" by (rule fw_dial_ok) (simp_all add: forward_start_def newForwarder_def)
  moreover have "forwarder_step ?f2 ?f3"
    by (rule fw_accept_failed) (simp add: forward_defs newForwarder_def)
  moreover have "forwarder_step ?f3 ?f4" by (rule fw_register) (simp add: forward_defs newForwarder_def)
  ultimately have "forwarder_reachable ?f4" by (meson fw_init fw_next)
  then show ?thesis by (intro exI [of _ ?f4]) (simp add: forward_defs newForwarder_def insert_commute)
qed

end
