(* ===== verification/Seccomp.thy ===== *)
theory Seccomp
  imports Supervisor
begin

text \<open>
  internal/namespace/seccomp_linux.go and seccomp_arch_linux.go: the filter that keeps a command
  from creating Unix and vsock sockets, the guard for the native architecture, and
  \<open>ExecRestricted\<close>, which installs both and replaces the process.  The library that turns a
  policy into a program (github.com/elastic/go-seccomp-bpf), the assembler (golang.org/x/net/bpf)
  and the kernel are parameters; \<open>policy_laws\<close> and \<open>bpf_laws\<close> state their documented semantics.
\<close>

section \<open>The socket filter\<close>

datatype seccomp_action = ActionAllow | ActionErrno

record condition =
  cn_argument :: nat
  cn_value :: "64 word"

record name_with_conditions =
  nc_name :: string
  nc_conditions :: "condition list"

record syscall_group =
  sg_action :: seccomp_action
  sg_names :: "string list"
  sg_conditions :: "name_with_conditions list"

record seccomp_filter =
  sf_NoNewPrivs :: bool
  sf_TSync :: bool
  sf_default :: seccomp_action
  sf_groups :: "syscall_group list"

definition AF_UNIX :: "64 word" where "AF_UNIX = 1"
definition AF_VSOCK :: "64 word" where "AF_VSOCK = 40"

definition restrictedSocketFilter :: "string \<Rightarrow> seccomp_filter" where
  "restrictedSocketFilter goarch =
     \<lparr>sf_NoNewPrivs = False, sf_TSync = True, sf_default = ActionAllow,
      sf_groups =
        [\<lparr>sg_action = ActionErrno,
          sg_names = [''io_uring_setup''] @ (if goarch = ''386'' then [''socketcall''] else []),
          sg_conditions =
            concat (map (\<lambda>syscallName.
              map (\<lambda>family. \<lparr>nc_name = syscallName,
                   nc_conditions = [\<lparr>cn_argument = 0, cn_value = family\<rparr>]\<rparr>)
                [AF_UNIX, AF_VSOCK])
              [''socket'', ''socketpair''])\<rparr>]\<rparr>"

text \<open>
  The documented meaning of a policy: the first group that lists the call, or lists it with
  conditions that all hold of its 64-bit arguments, decides; otherwise the default does.
\<close>

definition condition_holds :: "64 word list \<Rightarrow> condition \<Rightarrow> bool" where
  "condition_holds arguments c \<longleftrightarrow> cn_argument c < length arguments \<and> arguments ! cn_argument c = cn_value c"

definition group_matches :: "string \<Rightarrow> 64 word list \<Rightarrow> syscall_group \<Rightarrow> bool" where
  "group_matches name arguments g \<longleftrightarrow> name \<in> set (sg_names g) \<or>
     (\<exists>n \<in> set (sg_conditions g). nc_name n = name \<and> list_all (condition_holds arguments) (nc_conditions n))"

definition policy_laws :: "(seccomp_filter \<Rightarrow> string \<Rightarrow> 64 word list \<Rightarrow> seccomp_action) \<Rightarrow> bool" where
  "policy_laws decide \<longleftrightarrow> (\<forall>f name arguments. decide f name arguments =
     (case find (group_matches name arguments) (sf_groups f) of
        Some g \<Rightarrow> sg_action g
      | None \<Rightarrow> sf_default f))"

section \<open>The architecture guard\<close>

definition seccompArchitectureOffset :: nat where "seccompArchitectureOffset = 4"

text \<open>The instructions the guard uses: a load from the call's data, a conditional skip, a return.\<close>

datatype bpf_instruction =
    LoadAbsolute nat nat
  | JumpIfEqual "32 word" nat nat
  | RetConstant "32 word"

definition SECCOMP_RET_KILL_PROCESS :: "32 word" where "SECCOMP_RET_KILL_PROCESS = 0x80000000"
definition SECCOMP_RET_ALLOW :: "32 word" where "SECCOMP_RET_ALLOW = 0x7fff0000"

definition nativeArchitectureGuard :: "32 word \<Rightarrow> bpf_instruction list" where
  "nativeArchitectureGuard nativeArchitecture =
     [LoadAbsolute seccompArchitectureOffset 4,
      JumpIfEqual nativeArchitecture 1 0,
      RetConstant SECCOMP_RET_KILL_PROCESS,
      RetConstant SECCOMP_RET_ALLOW]"

text \<open>Classic BPF: \<open>load off size\<close> reads the data of the call, \<open>a\<close> is the accumulator.\<close>

definition bpf_laws ::
  "(bpf_instruction list \<Rightarrow> (nat \<Rightarrow> nat \<Rightarrow> 32 word) \<Rightarrow> 32 word \<Rightarrow> 32 word) \<Rightarrow> bool" where
  "bpf_laws exec \<longleftrightarrow> (\<forall>p load a off size v skipTrue skipFalse.
     exec (LoadAbsolute off size # p) load a = exec p load (load off size) \<and>
     exec (JumpIfEqual v skipTrue skipFalse # p) load a =
       exec (drop (if a = v then skipTrue else skipFalse) p) load a \<and>
     exec (RetConstant v # p) load a = v)"

record raw_instruction =
  ri_Op :: "16 word"
  ri_Jt :: "8 word"
  ri_Jf :: "8 word"
  ri_K :: "32 word"

text \<open>The kernel's form of a program: its length and its filters.\<close>

record sock_filter =
  Code :: "16 word"
  Jt :: "8 word"
  Jf :: "8 word"
  K :: "32 word"

record sock_fprog =
  Len :: "16 word"
  Filter :: "sock_filter list"

record 'w seccomp_ops =
  arch_info :: "(string, 32 word) result"
  bpf_assemble :: "bpf_instruction list \<Rightarrow> (string, raw_instruction list) result"
  seccomp_set_mode :: "sock_fprog \<Rightarrow> 'w \<Rightarrow> errno option \<times> 'w"
  seccomp_no_new_privs :: "'w \<Rightarrow> string option \<times> 'w"
  load_filter :: "seccomp_filter \<Rightarrow> 'w \<Rightarrow> string option \<times> 'w"
  find_executable :: "string \<Rightarrow> 'w \<Rightarrow> (string, string) result \<times> 'w"
  environ :: "'w \<Rightarrow> string list"
  execve :: "string \<Rightarrow> string list \<Rightarrow> string list \<Rightarrow> 'w \<Rightarrow> errno option \<times> 'w"

datatype guard_error =
    IdentifyArchitecture string
  | AssembleGuard string
  | InvalidInstructionCount nat
  | LoadGuard errno

datatype exec_error =
    RestrictedCommandRequired
  | LookUpRestricted string string
  | SetNoNewPrivsForSockets string
  | RestrictLocalSocketsGuard guard_error
  | RestrictLocalSocketsFilter string
  | ExecuteRestricted string errno

text \<open>What the calls did, in order.\<close>

datatype seccomp_act =
    NoNewPrivsSet
  | GuardLoaded sock_fprog
  | FilterLoaded seccomp_filter
  | Executed string "string list" "string list"

record 'w seccomp_state =
  sw :: 'w
  sacts :: "seccomp_act list"

definition sact :: "seccomp_act \<Rightarrow> 'e option \<times> 'w \<Rightarrow> 'w seccomp_state \<Rightarrow> 'e option \<times> 'w seccomp_state" where
  "sact a r st = (case r of (err, w) \<Rightarrow>
     (err, st\<lparr>sw := w, sacts := (if err = None then sacts st @ [a] else sacts st)\<rparr>))"

definition guard_program :: "raw_instruction list \<Rightarrow> sock_fprog" where
  "guard_program rawInstructions =
     (let filters = map (\<lambda>i. \<lparr>Code = ri_Op i, Jt = ri_Jt i, Jf = ri_Jf i, K = ri_K i\<rparr>) rawInstructions
      in \<lparr>Len = of_nat (length filters), Filter = filters\<rparr>)"

definition loadNativeArchitectureGuard ::
  "'w seccomp_ops \<Rightarrow> 'w seccomp_state \<Rightarrow> (guard_error, unit) result \<times> 'w seccomp_state" where
  "loadNativeArchitectureGuard ops st =
     (case arch_info ops of
        Inl e \<Rightarrow> (Err (IdentifyArchitecture e), st)
      | Inr architecture \<Rightarrow>
          (case bpf_assemble ops (nativeArchitectureGuard architecture) of
             Inl e \<Rightarrow> (Err (AssembleGuard e), st)
           | Inr rawInstructions \<Rightarrow>
               if length rawInstructions = 0 \<or> 65535 < length rawInstructions
               then (Err (InvalidInstructionCount (length rawInstructions)), st)
               else
                 let program = guard_program rawInstructions
                 in (case sact (GuardLoaded program) (seccomp_set_mode ops program (sw st)) st of
                       (Some errno, st) \<Rightarrow> (Err (LoadGuard errno), st)
                     | (None, st) \<Rightarrow> (Ok (), st))))"

text \<open>
  The barriers and the execution behind them.  \<open>execve\<close> returns only when it fails; \<open>Ok ()\<close> stands
  for the replaced process.
\<close>

definition exec_behind_barriers ::
  "'w seccomp_ops \<Rightarrow> string \<Rightarrow> string \<Rightarrow> string \<Rightarrow> string list \<Rightarrow> 'w seccomp_state \<Rightarrow>
   (exec_error, unit) result \<times> 'w seccomp_state" where
  "exec_behind_barriers ops goarch name path command st =
     (case sact NoNewPrivsSet (seccomp_no_new_privs ops (sw st)) st of
        (Some e, st) \<Rightarrow> (Err (SetNoNewPrivsForSockets e), st)
      | (None, st) \<Rightarrow>
     (case loadNativeArchitectureGuard ops st of
        (Inl e, st) \<Rightarrow> (Err (RestrictLocalSocketsGuard e), st)
      | (Inr _, st) \<Rightarrow>
     (case sact (FilterLoaded (restrictedSocketFilter goarch))
             (load_filter ops (restrictedSocketFilter goarch) (sw st)) st of
        (Some e, st) \<Rightarrow> (Err (RestrictLocalSocketsFilter e), st)
      | (None, st) \<Rightarrow>
     (case sact (Executed path command (environ ops (sw st)))
             (execve ops path command (environ ops (sw st)) (sw st)) st of
        (Some e, st) \<Rightarrow> (Err (ExecuteRestricted name e), st)
      | (None, st) \<Rightarrow> (Ok (), st)))))"

definition ExecRestricted ::
  "'w seccomp_ops \<Rightarrow> string \<Rightarrow> string list \<Rightarrow> 'w seccomp_state \<Rightarrow>
   (exec_error, unit) result \<times> 'w seccomp_state" where
  "ExecRestricted ops goarch args st =
     (let command = (case args of [] \<Rightarrow> [] | a # rest \<Rightarrow> if a = ''--'' then rest else a # rest) in
      case command of
        [] \<Rightarrow> (Err RestrictedCommandRequired, st)
      | name # _ \<Rightarrow>
          (case find_executable ops name (sw st) of
             (Inl e, w) \<Rightarrow> (Err (LookUpRestricted name e), st\<lparr>sw := w\<rparr>)
           | (Inr path, w) \<Rightarrow> exec_behind_barriers ops goarch name path command (st\<lparr>sw := w\<rparr>)))"

section \<open>What the filter refuses\<close>

lemma socket_filter_refuses:
  assumes "policy_laws decide"
  shows "decide (restrictedSocketFilter goarch) name arguments = ActionErrno \<longleftrightarrow>
    name = ''io_uring_setup'' \<or> goarch = ''386'' \<and> name = ''socketcall'' \<or>
    name \<in> {''socket'', ''socketpair''} \<and> (\<exists>family rest. arguments = family # rest \<and> family \<in> {AF_UNIX, AF_VSOCK})"
proof -
  have "decide (restrictedSocketFilter goarch) name arguments = ActionErrno \<longleftrightarrow>
      group_matches name arguments (hd (sf_groups (restrictedSocketFilter goarch)))"
    using assms unfolding policy_laws_def by (simp add: restrictedSocketFilter_def)
  also have "\<dots> \<longleftrightarrow> name = ''io_uring_setup'' \<or> goarch = ''386'' \<and> name = ''socketcall'' \<or>
      name \<in> {''socket'', ''socketpair''} \<and> (\<exists>family rest. arguments = family # rest \<and> family \<in> {AF_UNIX, AF_VSOCK})"
    unfolding group_matches_def restrictedSocketFilter_def condition_holds_def
    by (cases arguments; simp; metis)
  finally show ?thesis .
qed

definition demo_decide :: "seccomp_filter \<Rightarrow> string \<Rightarrow> 64 word list \<Rightarrow> seccomp_action" where
  "demo_decide f name arguments =
     (case find (group_matches name arguments) (sf_groups f) of
        Some g \<Rightarrow> sg_action g
      | None \<Rightarrow> sf_default f)"

lemma demo_decide_laws: "policy_laws demo_decide"
  by (simp add: policy_laws_def demo_decide_def)

text \<open>
  C1: by the documented meaning of a policy, the filter refuses a call exactly if it is
  \<open>io_uring_setup\<close>, the multiplexer \<open>socketcall\<close> on 386, or creates a socket whose family argument,
  as a 64-bit value, is that of Unix or vsock sockets.
\<close>

theorem socket_filter_blocks:
  assumes "policy_laws decide"
  shows "decide (restrictedSocketFilter goarch) name arguments = ActionErrno \<longleftrightarrow>
    name = ''io_uring_setup'' \<or> goarch = ''386'' \<and> name = ''socketcall'' \<or>
    name \<in> {''socket'', ''socketpair''} \<and> (\<exists>family rest. arguments = family # rest \<and> family \<in> {AF_UNIX, AF_VSOCK})"
  by (rule socket_filter_refuses [OF assms])

theorem socket_filter_blocks_witness:
  "demo_decide (restrictedSocketFilter ''amd64'') ''socket'' [AF_UNIX, 1, 0] = ActionErrno \<and>
   demo_decide (restrictedSocketFilter ''amd64'') ''socket'' [2, 1, 0] \<noteq> ActionErrno"
  using socket_filter_blocks [OF demo_decide_laws, of "''amd64''" "''socket''" "[2, 1, 0]"]
    socket_filter_blocks [OF demo_decide_laws, of "''amd64''" "''socket''" "[AF_UNIX, 1, 0]"]
  by (simp add: AF_UNIX_def AF_VSOCK_def)

text \<open>
  the kernel's family argument is a 32-bit integer, the filter compares all 64 bits of the
  register.  A call with any other value whose lower half is the family of Unix sockets is allowed.
\<close>

theorem socket_filter_upper_half:
  assumes "policy_laws decide" and "(ucast family :: 32 word) = ucast AF_UNIX" and "family \<noteq> AF_UNIX"
  shows "decide (restrictedSocketFilter goarch) ''socket'' (family # rest) = ActionAllow"
proof -
  have "(ucast AF_VSOCK :: 32 word) \<noteq> ucast AF_UNIX" by (simp add: AF_UNIX_def AF_VSOCK_def)
  then have "family \<noteq> AF_VSOCK" using assms(2) by auto
  then have "decide (restrictedSocketFilter goarch) ''socket'' (family # rest) \<noteq> ActionErrno"
    using socket_filter_refuses [OF assms(1), of goarch "''socket''" "family # rest"] assms(3) by simp
  then show ?thesis by (cases "decide (restrictedSocketFilter goarch) ''socket'' (family # rest)") auto
qed

theorem socket_filter_upper_half_witness:
  "demo_decide (restrictedSocketFilter ''amd64'') ''socket'' [0x100000001, 1, 0] = ActionAllow"
  by (rule socket_filter_upper_half [OF demo_decide_laws]) (simp_all add: AF_UNIX_def)

section \<open>The guard\<close>

lemma guard_runs:
  assumes "bpf_laws exec"
  shows "exec (nativeArchitectureGuard native) load a =
    (if load 4 4 = native then SECCOMP_RET_ALLOW else SECCOMP_RET_KILL_PROCESS)"
  using assms unfolding bpf_laws_def
  by (simp add: nativeArchitectureGuard_def seccompArchitectureOffset_def)

lemma guard_program_length:
  "length raws \<le> 65535 \<Longrightarrow> unat (Len (guard_program raws)) = length (Filter (guard_program raws))"
  by (simp add: guard_program_def Let_def unat_of_nat)

lemma sact_None: "sact a r st = (None, st') \<Longrightarrow> sacts st' = sacts st @ [a]"
  by (auto simp: sact_def split: prod.splits)

lemma sact_Some: "sact a r st = (Some e, st') \<Longrightarrow> sacts st' = sacts st"
  by (auto simp: sact_def split: prod.splits)

lemma loadNativeArchitectureGuard_acts:
  assumes "loadNativeArchitectureGuard ops st = (r, st')"
  shows "case r of
      Inl e \<Rightarrow> sacts st' = sacts st
    | Inr _ \<Rightarrow> \<exists>native raws. arch_info ops = Ok native \<and>
        bpf_assemble ops (nativeArchitectureGuard native) = Ok raws \<and> raws \<noteq> [] \<and> length raws \<le> 65535 \<and>
        sacts st' = sacts st @ [GuardLoaded (guard_program raws)]"
  using assms
  by (auto simp: loadNativeArchitectureGuard_def Let_def
      split: sum.splits if_splits prod.splits option.splits dest: sact_None sact_Some)

lemma exec_behind_barriers_acts:
  assumes "exec_behind_barriers ops goarch name path command st = (r, st')" and "sacts st = []"
    and "Executed path' command' env \<in> set (sacts st')"
  shows "\<exists>native raws. arch_info ops = Ok native \<and>
    bpf_assemble ops (nativeArchitectureGuard native) = Ok raws \<and> length raws \<le> 65535 \<and>
    sacts st' = [NoNewPrivsSet, GuardLoaded (guard_program raws),
      FilterLoaded (restrictedSocketFilter goarch), Executed path command env] \<and>
    path' = path \<and> command' = command"
proof -
  note run = assms(1) [unfolded exec_behind_barriers_def]
  obtain e1 st1 where n: "sact NoNewPrivsSet (seccomp_no_new_privs ops (sw st)) st = (e1, st1)"
    by (cases "sact NoNewPrivsSet (seccomp_no_new_privs ops (sw st)) st")
  have e1: "e1 = None"
  proof (rule ccontr)
    assume "e1 \<noteq> None"
    then obtain e where e: "e1 = Some e" by blast
    then have "st' = st1" using run n by simp
    with sact_Some [OF n [unfolded e]] assms(2,3) show False by simp
  qed
  have a1: "sacts st1 = [NoNewPrivsSet]" using sact_None [OF n [unfolded e1]] assms(2) by simp
  obtain g st2 where l: "loadNativeArchitectureGuard ops st1 = (g, st2)"
    by (cases "loadNativeArchitectureGuard ops st1")
  note acts2 = loadNativeArchitectureGuard_acts [OF l]
  obtain u where g: "g = Ok u"
  proof (cases g)
    case (Inl e)
    then have "st' = st2" using run n e1 l by simp
    with acts2 Inl a1 assms(3) show ?thesis by simp
  qed
  from acts2 g a1 obtain native raws where raws: "arch_info ops = Ok native"
    "bpf_assemble ops (nativeArchitectureGuard native) = Ok raws" "length raws \<le> 65535"
    and a2: "sacts st2 = [NoNewPrivsSet, GuardLoaded (guard_program raws)]"
    by auto
  let ?filter = "restrictedSocketFilter goarch"
  obtain e3 st3 where s: "sact (FilterLoaded ?filter) (load_filter ops ?filter (sw st2)) st2 = (e3, st3)"
    by (cases "sact (FilterLoaded ?filter) (load_filter ops ?filter (sw st2)) st2")
  have e3: "e3 = None"
  proof (rule ccontr)
    assume "e3 \<noteq> None"
    then obtain e where e: "e3 = Some e" by blast
    then have "st' = st3" using run n e1 l g s by simp
    with sact_Some [OF s [unfolded e]] a2 assms(3) show False by simp
  qed
  have a3: "sacts st3 = [NoNewPrivsSet, GuardLoaded (guard_program raws), FilterLoaded ?filter]"
    using sact_None [OF s [unfolded e3]] a2 by simp
  let ?env = "environ ops (sw st3)"
  obtain e4 st4 where x: "sact (Executed path command ?env) (execve ops path command ?env (sw st3)) st3 = (e4, st4)"
    by (cases "sact (Executed path command ?env) (execve ops path command ?env (sw st3)) st3")
  have st4: "st' = st4"
    using run n e1 l g s e3 x by (cases e4) simp_all
  have "e4 = None"
  proof (rule ccontr)
    assume "e4 \<noteq> None"
    then obtain e where e: "e4 = Some e" by blast
    from sact_Some [OF x [unfolded e]] a3 st4 assms(3) show False by simp
  qed
  then have "sacts st' = sacts st3 @ [Executed path command ?env]" using sact_None x st4 by blast
  with assms(3) a3 raws show ?thesis by auto
qed

text \<open>
  C28: \<open>ExecRestricted\<close> executes the command only behind all three barriers.  If the command runs at
  all, \<open>no_new_privs\<close> was set, then the architecture guard was loaded as the complete assembled
  program (at most 65535 instructions, so its length is exact), then the socket filter; and what
  runs is the command word for word, without the separator in front of it.
\<close>

theorem restricted_exec_barriers:
  assumes "ExecRestricted ops goarch args st = (r, st')" and "sacts st = []"
    and "Executed path command env \<in> set (sacts st')"
  shows "\<exists>native raws. arch_info ops = Ok native \<and>
    bpf_assemble ops (nativeArchitectureGuard native) = Ok raws \<and>
    unat (Len (guard_program raws)) = length (Filter (guard_program raws)) \<and>
    sacts st' = [NoNewPrivsSet, GuardLoaded (guard_program raws),
      FilterLoaded (restrictedSocketFilter goarch), Executed path command env] \<and>
    command = (if hd args = ''--'' then tl args else args)"
proof -
  define cmd where "cmd = (case args of [] \<Rightarrow> [] | a # rest \<Rightarrow> if a = ''--'' then rest else a # rest)"
  obtain name more where c: "cmd = name # more"
    using assms by (cases cmd) (auto simp: ExecRestricted_def cmd_def [symmetric])
  obtain p w where f: "find_executable ops name (sw st) = (p, w)" by force
  then obtain path' where p: "p = Ok path'"
    using assms c by (cases p) (auto simp: ExecRestricted_def cmd_def [symmetric])
  then have "exec_behind_barriers ops goarch name path' cmd (st\<lparr>sw := w\<rparr>) = (r, st')"
    using assms(1) c f by (simp add: ExecRestricted_def cmd_def [symmetric])
  from exec_behind_barriers_acts [OF this _ assms(3)] assms(2) obtain native raws where
    raws: "arch_info ops = Ok native" "bpf_assemble ops (nativeArchitectureGuard native) = Ok raws"
      "length raws \<le> 65535" "command = cmd"
      "sacts st' = [NoNewPrivsSet, GuardLoaded (guard_program raws),
        FilterLoaded (restrictedSocketFilter goarch), Executed path command env]"
    by auto
  moreover have "cmd = (if hd args = ''--'' then tl args else args)"
    using c by (auto simp: cmd_def split: list.splits)
  ultimately show ?thesis using guard_program_length [OF raws(3)] by blast
qed

text \<open>
  C31: under the semantics of classic BPF the guard lets exactly the calls of the native
  architecture through and kills the process on any other.
\<close>

theorem guard_kills_foreign_calls:
  assumes "bpf_laws exec"
  shows "exec (nativeArchitectureGuard native) load a =
    (if load 4 4 = native then SECCOMP_RET_ALLOW else SECCOMP_RET_KILL_PROCESS)"
  by (rule guard_runs [OF assms])

section \<open>An example\<close>

function demo_bpf :: "bpf_instruction list \<Rightarrow> (nat \<Rightarrow> nat \<Rightarrow> 32 word) \<Rightarrow> 32 word \<Rightarrow> 32 word" where
  "demo_bpf [] load a = 0"
| "demo_bpf (LoadAbsolute off n # p) load a = demo_bpf p load (load off n)"
| "demo_bpf (JumpIfEqual v t f # p) load a = demo_bpf (drop (if a = v then t else f) p) load a"
| "demo_bpf (RetConstant v # p) load a = v"
  by pat_completeness auto

termination by (relation "measure (\<lambda>(p, _, _). length p)") auto

theorem guard_kills_foreign_calls_witness:
  "demo_bpf (nativeArchitectureGuard 5) (\<lambda>_ _. 6) 0 = SECCOMP_RET_KILL_PROCESS"
proof -
  have "bpf_laws demo_bpf" by (simp add: bpf_laws_def)
  from guard_kills_foreign_calls [OF this, of 5 "\<lambda>_ _. 6" 0] show ?thesis by simp
qed

definition demo_seccomp :: "nat seccomp_ops" where
  "demo_seccomp = \<lparr>arch_info = Ok 5,
     bpf_assemble = (\<lambda>p. Ok (map (\<lambda>_. \<lparr>ri_Op = 1, ri_Jt = 0, ri_Jf = 0, ri_K = 0\<rparr>) p)),
     seccomp_set_mode = (\<lambda>p w. (None, w + 1)), seccomp_no_new_privs = (\<lambda>w. (None, w + 1)),
     load_filter = (\<lambda>f w. (None, w + 1)), find_executable = (\<lambda>name w. (Ok (''/bin/'' @ name), w)),
     environ = (\<lambda>w. []), execve = (\<lambda>p c e w. (None, w + 1))\<rparr>"

theorem restricted_exec_barriers_witness:
  "\<exists>st'. ExecRestricted demo_seccomp ''amd64'' [''--'', ''sh'', ''-c''] \<lparr>sw = 0, sacts = []\<rparr> = (Ok (), st') \<and>
     length (sacts st') = 4"
proof -
  have "fst (ExecRestricted demo_seccomp ''amd64'' [''--'', ''sh'', ''-c''] \<lparr>sw = 0, sacts = []\<rparr>) = Ok () \<and>
      last (sacts (snd (ExecRestricted demo_seccomp ''amd64'' [''--'', ''sh'', ''-c''] \<lparr>sw = 0, sacts = []\<rparr>))) =
      Executed ''/bin/sh'' [''sh'', ''-c''] [] \<and>
      sacts (snd (ExecRestricted demo_seccomp ''amd64'' [''--'', ''sh'', ''-c''] \<lparr>sw = 0, sacts = []\<rparr>)) \<noteq> []"
    by code_simp
  then obtain st' where st': "ExecRestricted demo_seccomp ''amd64'' [''--'', ''sh'', ''-c''] \<lparr>sw = 0, sacts = []\<rparr> = (Ok (), st')"
    "Executed ''/bin/sh'' [''sh'', ''-c''] [] \<in> set (sacts st')"
    by (metis last_in_set prod.collapse)
  from restricted_exec_barriers [OF st'(1) _ st'(2)] st'(1) show ?thesis by auto
qed

end
