(* ===== verification/Paths.thy ===== *)
theory Paths
  imports Go_Lib
begin

text \<open>
  Package path/filepath as the code uses it: \<open>filepath.Clean\<close> and \<open>filepath.Join\<close> on Unix.
  \<open>Clean\<close> walks over the elements of the path and keeps those of the result on a stack.
\<close>

section \<open>Clean and Join\<close>

fun clean_steps :: "bool \<Rightarrow> string list \<Rightarrow> string list \<Rightarrow> string list" where
  "clean_steps rooted stack [] = rev stack"
| "clean_steps rooted stack (e # es) =
     (if e = [] \<or> e = ''.'' then clean_steps rooted stack es
      else if e = ''..'' then
        (case stack of
           [] \<Rightarrow> clean_steps rooted (if rooted then [] else [e]) es
         | d # ds \<Rightarrow> clean_steps rooted (if d = ''..'' then e # stack else ds) es)
      else clean_steps rooted (e # stack) es)"

definition render_path :: "bool \<Rightarrow> string list \<Rightarrow> string" where
  "render_path rooted es =
     (if rooted then CHR ''/'' # JoinWith CHR ''/'' es
      else if es = [] then ''.'' else JoinWith CHR ''/'' es)"

definition is_rooted :: "string \<Rightarrow> bool" where "is_rooted path \<longleftrightarrow> HasPrefix path ''/''"

definition Clean :: "string \<Rightarrow> string" where
  "Clean path = render_path (is_rooted path) (clean_steps (is_rooted path) [] (SplitByte path CHR ''/''))"

text \<open>\<open>filepath.Join\<close> of two elements: leading empty elements do not count.\<close>

definition JoinPath :: "string \<Rightarrow> string \<Rightarrow> string" where
  "JoinPath a b =
     (if a \<noteq> [] then Clean (a @ ''/'' @ b) else if b \<noteq> [] then Clean b else [])"

section \<open>Normal paths\<close>

text \<open>An element that names an entry of a directory.\<close>

definition name_element :: "string \<Rightarrow> bool" where
  "name_element e \<longleftrightarrow> e \<noteq> [] \<and> e \<noteq> ''.'' \<and> e \<noteq> ''..'' \<and> CHR ''/'' \<notin> set e"

text \<open>The results of \<open>Clean\<close>: dotdots only at the start, and only in a relative path.\<close>

definition normal_elements :: "bool \<Rightarrow> string list \<Rightarrow> bool" where
  "normal_elements rooted es \<longleftrightarrow>
     (\<exists>n names. es = replicate n ''..'' @ names \<and> list_all name_element names \<and> (rooted \<longrightarrow> n = 0))"

lemma clean_steps_names:
  "list_all name_element names \<Longrightarrow>
   clean_steps rooted stack (names @ es) = clean_steps rooted (rev names @ stack) es"
  by (induction names arbitrary: stack) (auto simp: name_element_def)

lemma clean_steps_snoc:
  "name_element e \<Longrightarrow> clean_steps rooted stack (es @ [e]) = clean_steps rooted stack es @ [e]"
  by (induction rooted stack es rule: clean_steps.induct)
    (auto simp: name_element_def split: list.splits)

lemma clean_steps_dotdots:
  "set stack \<subseteq> {''..''} \<Longrightarrow>
   clean_steps False stack (replicate n ''..'' @ es) = clean_steps False (replicate n ''..'' @ stack) es"
proof (induction n arbitrary: stack)
  case (Suc n)
  have "clean_steps False stack (''..'' # replicate n ''..'' @ es) =
      clean_steps False (''..'' # stack) (replicate n ''..'' @ es)"
    using Suc.prems by (cases stack) auto
  also have "\<dots> = clean_steps False (replicate n ''..'' @ ''..'' # stack) es"
    using Suc by simp
  finally show ?case by (simp add: replicate_app_Cons_same)
qed simp

lemma clean_steps_normal:
  assumes "normal_elements rooted es"
  shows "clean_steps rooted [] es = es"
proof -
  obtain n names where es: "es = replicate n ''..'' @ names" and names: "list_all name_element names"
    and r: "rooted \<longrightarrow> n = 0"
    using assms unfolding normal_elements_def by blast
  have "clean_steps rooted [] (replicate n ''..'' @ names) = clean_steps rooted (replicate n ''..'') names"
    using r clean_steps_dotdots [of "[]" n names] by (cases rooted) auto
  also have "\<dots> = rev (rev names @ replicate n ''..'')"
    using clean_steps_names [OF names, of rooted "replicate n ''..''" "[]"] by simp
  finally show ?thesis using es by simp
qed

text \<open>The stack of the walk is a reversed normal path.\<close>

definition pop_element :: "bool \<Rightarrow> string list \<Rightarrow> string list" where
  "pop_element rooted stack =
     (case stack of
        [] \<Rightarrow> if rooted then [] else [''..'']
      | d # ds \<Rightarrow> if d = ''..'' then ''..'' # stack else ds)"

lemma normal_push:
  assumes "normal_elements rooted (rev stack)" and "name_element e"
  shows "normal_elements rooted (rev (e # stack))"
proof -
  obtain n names where "rev stack = replicate n ''..'' @ names" "list_all name_element names" "rooted \<longrightarrow> n = 0"
    using assms(1) unfolding normal_elements_def by blast
  with assms(2) show ?thesis unfolding normal_elements_def
    by (intro exI [of _ n] exI [of _ "names @ [e]"]) simp
qed

lemma normal_pop:
  assumes "normal_elements rooted (rev stack)"
  shows "normal_elements rooted (rev (pop_element rooted stack))"
proof -
  obtain n names where st: "rev stack = replicate n ''..'' @ names" and names: "list_all name_element names"
    and r: "rooted \<longrightarrow> n = 0"
    using assms unfolding normal_elements_def by blast
  have up: "normal_elements False (replicate k ''..'')" for k
    unfolding normal_elements_def by (intro exI [of _ k] exI [of _ "[]"]) simp
  show ?thesis
  proof (cases names rule: rev_cases)
    case Nil
    with st have "stack = replicate n ''..''" by (metis append_Nil2 rev_replicate rev_rev_ident)
    then have "pop_element rooted stack = (if rooted then [] else replicate (Suc n) ''..'')"
      using r by (cases n) (auto simp: pop_element_def)
    then show ?thesis using assms up [of "Suc n"] r st Nil
      by (cases rooted) (simp_all add: replicate_append_same)
  next
    case (snoc ns m)
    with st have "stack = m # rev (replicate n ''..'' @ ns)" by (metis append_assoc rev.simps(2) rev_rev_ident rev_swap)
    moreover have "m \<noteq> ''..''" "list_all name_element ns" using names snoc by (auto simp: name_element_def)
    ultimately show ?thesis unfolding normal_elements_def pop_element_def
      using r by (intro exI [of _ n] exI [of _ ns]) simp
  qed
qed

lemma clean_steps_result:
  assumes "normal_elements rooted (rev stack)" and "\<forall>e \<in> set es. CHR ''/'' \<notin> set e"
  shows "normal_elements rooted (clean_steps rooted stack es)"
  using assms
proof (induction es arbitrary: stack)
  case (Cons e es)
  have step: "clean_steps rooted stack (e # es) =
      clean_steps rooted (if e = [] \<or> e = ''.'' then stack else if e = ''..'' then pop_element rooted stack
        else e # stack) es"
    by (auto simp: pop_element_def split: list.splits)
  have "name_element e" if "e \<noteq> []" "e \<noteq> ''.''" "e \<noteq> ''..''"
    using Cons.prems(2) that by (simp add: name_element_def)
  then show ?case
    unfolding step by (intro Cons.IH) (use Cons.prems normal_push normal_pop in auto)
qed simp

lemma normal_nil: "normal_elements rooted []"
  unfolding normal_elements_def by (intro exI [of _ 0] exI [of _ "[]"]) simp

section \<open>Appending a name\<close>

lemma JoinWith_snoc: "xs \<noteq> [] \<Longrightarrow> JoinWith c (xs @ [x]) = JoinWith c xs @ c # x"
  by (simp add: JoinWith_append)

lemma SplitByte_none: "c \<notin> set s \<Longrightarrow> SplitByte s c = [s]"
  by (induction s) auto

lemma SplitByte_JoinWith:
  "xs \<noteq> [] \<Longrightarrow> \<forall>x \<in> set xs. c \<notin> set x \<Longrightarrow> SplitByte (JoinWith c xs) c = xs"
  by (induction c xs rule: JoinWith.induct) (auto simp: SplitByte_none SplitByte_append)

text \<open>A name joined to a path is appended to the cleaned path.\<close>

definition append_name :: "string \<Rightarrow> string \<Rightarrow> string" where
  "append_name dir name =
     (if dir = ''/'' then ''/'' @ name else if dir = ''.'' then name else dir @ ''/'' @ name)"

lemma normal_no_slash: "normal_elements rooted es \<Longrightarrow> e \<in> set es \<Longrightarrow> e \<noteq> [] \<and> e \<noteq> ''.'' \<and> CHR ''/'' \<notin> set e"
proof -
  assume "normal_elements rooted es" and e: "e \<in> set es"
  then obtain n names where "es = replicate n ''..'' @ names" "list_all name_element names"
    unfolding normal_elements_def by blast
  with e have "e = ''..'' \<or> name_element e" by (auto simp: list_all_iff)
  then show ?thesis by (auto simp: name_element_def)
qed

lemma split_normal:
  assumes "normal_elements rooted es" and "es \<noteq> []"
  shows "SplitByte (JoinWith CHR ''/'' es) CHR ''/'' = es"
  using assms(2) by (rule SplitByte_JoinWith) (use normal_no_slash [OF assms(1)] in simp)

lemma normal_join:
  assumes "normal_elements rooted es" and "es \<noteq> []"
  shows "JoinWith CHR ''/'' es \<noteq> []" and "JoinWith CHR ''/'' es \<noteq> ''.''" and "JoinWith CHR ''/'' es \<noteq> ''/''"
    and "\<not> HasPrefix (JoinWith CHR ''/'' es) ''/''"
proof -
  let ?j = "JoinWith CHR ''/'' es"
  have split: "SplitByte ?j CHR ''/'' = es" by (rule split_normal [OF assms])
  have no: "[] \<notin> set es" "''.'' \<notin> set es" using normal_no_slash [OF assms(1)] by blast+
  show "?j \<noteq> []" using split no(1) by auto
  show "?j \<noteq> ''.''" using split no(2) by auto
  show "\<not> HasPrefix ?j ''/''" using split no(1) by (auto simp: HasPrefix_iff)
  then show "?j \<noteq> ''/''" by (auto simp: HasPrefix_def)
qed

lemma render_snoc:
  assumes "normal_elements rooted es"
  shows "render_path rooted (es @ [e]) = append_name (render_path rooted es) e"
proof (cases "es = []")
  case False
  with normal_join [OF assms] show ?thesis
    by (simp add: render_path_def append_name_def JoinWith_snoc)
qed (simp add: render_path_def append_name_def)

lemma Clean_elements:
  "normal_elements rooted (clean_steps rooted [] (SplitByte p CHR ''/''))"
  by (rule clean_steps_result) (use normal_nil SplitByte_no_sep in auto)

lemma Clean_append:
  assumes "p \<noteq> []" and "name_element e"
  shows "Clean (p @ ''/'' @ e) = append_name (Clean p) e"
proof -
  have "is_rooted (p @ ''/'' @ e) = is_rooted p"
    using assms(1) by (cases p) (simp_all add: is_rooted_def HasPrefix_def)
  moreover have "SplitByte (p @ ''/'' @ e) CHR ''/'' = SplitByte p CHR ''/'' @ [e]"
    using assms(2) by (simp add: SplitByte_append SplitByte_none name_element_def)
  ultimately show ?thesis
    by (simp add: Clean_def clean_steps_snoc [OF assms(2)] render_snoc [OF Clean_elements])
qed

lemma Clean_render:
  assumes "normal_elements rooted es"
  shows "Clean (render_path rooted es) = render_path rooted es"
proof (cases "es = []")
  case True
  moreover have "Clean (render_path False []) = render_path False []"
    "Clean (render_path True []) = render_path True []" by code_simp+
  ultimately show ?thesis by (cases rooted) simp_all
next
  case False
  note j = split_normal [OF assms False] normal_join [OF assms False]
  show ?thesis
  proof (cases rooted)
    case True
    have "is_rooted (render_path rooted es)" using True by (simp add: render_path_def is_rooted_def HasPrefix_def)
    moreover have "SplitByte (render_path rooted es) CHR ''/'' = [] # es"
      using True j by (simp add: render_path_def)
    moreover have "clean_steps True [] ([] # es) = es" using clean_steps_normal [OF assms] True by simp
    ultimately show ?thesis using True by (simp add: Clean_def)
  next
    case False': False
    then have "render_path rooted es = JoinWith CHR ''/'' es" using False by (simp add: render_path_def)
    with False' j clean_steps_normal [OF assms] show ?thesis by (simp add: Clean_def is_rooted_def)
  qed
qed

lemma Clean_Clean [simp]: "Clean (Clean p) = Clean p"
  unfolding Clean_def [of p] by (rule Clean_render [OF Clean_elements])

lemma JoinPath_name:
  "name_element e \<Longrightarrow> a \<noteq> [] \<Longrightarrow> JoinPath a e = append_name (Clean a) e"
  by (simp add: JoinPath_def Clean_append [simplified])

text \<open>Below a cleaned path that ends with a name, names are just appended.\<close>

lemma Clean_below:
  assumes "Clean p = p" and "p \<noteq> ''/''" and "p \<noteq> ''.''" and "p \<noteq> []" and "name_element e"
  shows "Clean (p @ ''/'' @ e) = p @ ''/'' @ e" and "JoinPath p e = p @ ''/'' @ e"
  using Clean_append [OF assms(4,5)] JoinPath_name [OF assms(5,4)] assms(1-3)
  by (simp_all add: append_name_def)

end
