(* ===== verification/Runtime_Dir.thy ===== *)
theory Runtime_Dir
  imports Paths
begin

text \<open>
  internal/application/runtime.go: the private directory of one invocation, which holds the two
  proxy sockets.  The file system is outside the repository: its system calls are the fields of
  \<open>fs_ops\<close>, with what they are documented to do in \<open>fs_laws\<close>.  \<open>os.MkdirTemp\<close> belongs to Go's
  standard library and is translated.
\<close>

unbundle bit_operations_syntax

section \<open>The file system\<close>

text \<open>\<open>fs.FileMode\<close>: the type bits above and the nine permission bits below.\<close>

definition ModeDir :: "32 word" where "ModeDir = 0x80000000"
definition ModeSymlink :: "32 word" where "ModeSymlink = 0x08000000"

text \<open>Permissions, which the source writes in octal.\<close>

abbreviation o777 :: "32 word" where "o777 \<equiv> 0x1FF"
abbreviation o700 :: "32 word" where "o700 \<equiv> 0x1C0"
abbreviation o077 :: "32 word" where "o077 \<equiv> 0x3F"

definition Perm :: "32 word \<Rightarrow> 32 word" where "Perm m = m AND o777"
definition IsDir :: "32 word \<Rightarrow> bool" where "IsDir m \<longleftrightarrow> m AND ModeDir \<noteq> 0"

text \<open>What \<open>Lstat\<close> reports; \<open>fi_uid\<close> is the field \<open>Uid\<close> of the \<open>syscall.Stat_t\<close>, when there is one.\<close>

record file_info =
  fi_mode :: "32 word"
  fi_uid :: "32 word option"

datatype mkdir_result = Created | Exists | MkdirFailed string

record 'w fs_ops =
  fs_Mkdir :: "string \<Rightarrow> 32 word \<Rightarrow> 'w \<Rightarrow> mkdir_result \<times> 'w"
  fs_Lstat :: "string \<Rightarrow> 'w \<Rightarrow> (string, file_info) result \<times> 'w"
  fs_Chmod :: "string \<Rightarrow> 32 word \<Rightarrow> 'w \<Rightarrow> string option \<times> 'w"
  fs_RemoveAll :: "string \<Rightarrow> 'w \<Rightarrow> string option \<times> 'w"
  fs_random :: "'w \<Rightarrow> 32 word \<times> 'w"

section \<open>os.MkdirTemp\<close>

text \<open>\<open>prefix\<close> is the directory and the pattern; there are 10000 tries.\<close>

fun mkdir_temp :: "'w fs_ops \<Rightarrow> string \<Rightarrow> nat \<Rightarrow> 'w \<Rightarrow> (string, string) result \<times> 'w" where
  "mkdir_temp ops prefix 0 w = (Err ''file exists'', w)"
| "mkdir_temp ops prefix (Suc n) w =
     (case fs_random ops w of
        (x, w) \<Rightarrow>
          let name = prefix @ Itoa (unat x) in
          (case fs_Mkdir ops name o700 w of
             (Created, w) \<Rightarrow> (Ok name, w)
           | (Exists, w) \<Rightarrow> mkdir_temp ops prefix n w
           | (MkdirFailed e, w) \<Rightarrow> (Err e, w)))"

definition MkdirTemp :: "'w fs_ops \<Rightarrow> string \<Rightarrow> string \<Rightarrow> 'w \<Rightarrow> (string, string) result \<times> 'w" where
  "MkdirTemp ops dir pattern w =
     mkdir_temp ops (if HasSuffix dir ''/'' then dir @ pattern else dir @ ''/'' @ pattern) 10000 w"

section \<open>The session directory\<close>

record runtimeDir =
  Directory :: string
  HTTPSocket :: string
  SOCKSocket :: string

datatype runtime_error =
    CreateRuntime string
  | InspectRuntime string
  | NotRealDirectory
  | OwnershipUnavailable
  | WrongOwner "32 word" int
  | NotPrivate "32 word"
  | CreateSession string
  | SessionPermissions string
  | SocketPathTooLong
  | RemoveSession string

definition ensurePrivateDirectory ::
  "'w fs_ops \<Rightarrow> string \<Rightarrow> int \<Rightarrow> 'w \<Rightarrow> (runtime_error, unit) result \<times> 'w" where
  "ensurePrivateDirectory ops path uid w =
     (case fs_Mkdir ops path o700 w of
        (Created, w) \<Rightarrow> (Ok (), w)
      | (MkdirFailed e, w) \<Rightarrow> (Err (CreateRuntime e), w)
      | (Exists, w) \<Rightarrow>
          (case fs_Lstat ops path w of
             (Inl e, w) \<Rightarrow> (Err (InspectRuntime e), w)
           | (Inr info, w) \<Rightarrow>
               (if \<not> IsDir (fi_mode info) \<or> fi_mode info AND ModeSymlink \<noteq> 0 then Err NotRealDirectory
                else case fi_uid info of
                  None \<Rightarrow> Err OwnershipUnavailable
                | Some owner \<Rightarrow>
                    if uint owner \<noteq> uid then Err (WrongOwner owner uid)
                    else if Perm (fi_mode info) AND o077 \<noteq> 0 then Err (NotPrivate (Perm (fi_mode info)))
                    else Ok (), w)))"

text \<open>\<open>fmt.Sprintf("airjail-%d", uid)\<close>.\<close>

definition Sprint_int :: "int \<Rightarrow> string" where
  "Sprint_int i = (if i < 0 then ''-'' @ Itoa (nat (- i)) else Itoa (nat i))"

definition runtime_base :: "int \<Rightarrow> string \<Rightarrow> string" where
  "runtime_base uid runtimeDirectory =
     (if runtimeDirectory = [] then JoinPath ''/tmp'' (''airjail-'' @ Sprint_int uid)
      else JoinPath runtimeDirectory ''airjail'')"

definition maxUnixSocketPath :: nat where "maxUnixSocketPath = 107"

definition createRuntimeDir ::
  "'w fs_ops \<Rightarrow> int \<Rightarrow> string \<Rightarrow> 'w \<Rightarrow> (runtime_error, runtimeDir) result \<times> 'w" where
  "createRuntimeDir ops uid runtimeDirectory w =
     (let base = runtime_base uid runtimeDirectory in
      case ensurePrivateDirectory ops base uid w of
        (Inl e, w) \<Rightarrow> (Err e, w)
      | (Inr _, w) \<Rightarrow>
          (case MkdirTemp ops base ''session-'' w of
             (Inl e, w) \<Rightarrow> (Err (CreateSession e), w)
           | (Inr directory, w) \<Rightarrow>
               (case fs_Chmod ops directory o700 w of
                  (Some e, w) \<Rightarrow> (Err (SessionPermissions e), snd (fs_RemoveAll ops directory w))
                | (None, w) \<Rightarrow>
                    let runDir = \<lparr>Directory = directory, HTTPSocket = JoinPath directory ''http.sock'',
                                  SOCKSocket = JoinPath directory ''socks.sock''\<rparr>
                    in if maxUnixSocketPath < length (HTTPSocket runDir) \<or>
                          maxUnixSocketPath < length (SOCKSocket runDir)
                       then (Err SocketPathTooLong, snd (fs_RemoveAll ops directory w))
                       else (Ok runDir, w))))"

definition runtime_Close :: "'w fs_ops \<Rightarrow> runtimeDir \<Rightarrow> 'w \<Rightarrow> (runtime_error, unit) result \<times> 'w" where
  "runtime_Close ops sess w =
     (case fs_RemoveAll ops (Directory sess) w of
        (Some e, w) \<Rightarrow> (Err (RemoveSession e), w)
      | (None, w) \<Rightarrow> (Ok (), w))"

section \<open>What the system calls do\<close>

text \<open>
  \<open>view\<close> is what is at each path.  A created directory belongs to the caller and has no permission
  beyond the requested ones; \<open>RemoveAll\<close> removes the path and what is below it, when it succeeds,
  and changes nothing else in any case.
\<close>

definition below :: "string \<Rightarrow> string \<Rightarrow> bool" where
  "below dir path \<longleftrightarrow> path = dir \<or> HasPrefix path (dir @ ''/'')"

definition new_directory :: "int \<Rightarrow> 32 word \<Rightarrow> file_info \<Rightarrow> bool" where
  "new_directory uid perm i \<longleftrightarrow> IsDir (fi_mode i) \<and> fi_mode i AND ModeSymlink = 0 \<and>
     map_option uint (fi_uid i) = Some uid \<and> Perm (fi_mode i) AND NOT perm = 0"

definition mkdir_law :: "'w fs_ops \<Rightarrow> ('w \<Rightarrow> string \<Rightarrow> file_info option) \<Rightarrow> int \<Rightarrow> bool" where
  "mkdir_law ops view uid \<longleftrightarrow> (\<forall>p m w. case fs_Mkdir ops p m w of (r, w') \<Rightarrow>
     if r = Created
     then view w p = None \<and> (\<exists>i. view w' = (view w)(p \<mapsto> i) \<and> new_directory uid m i)
     else view w' = view w)"

definition lstat_law :: "'w fs_ops \<Rightarrow> ('w \<Rightarrow> string \<Rightarrow> file_info option) \<Rightarrow> bool" where
  "lstat_law ops view \<longleftrightarrow> (\<forall>p w. case fs_Lstat ops p w of (r, w') \<Rightarrow>
     view w' = view w \<and> (\<forall>i. r = Ok i \<longrightarrow> view w p = Some i))"

definition chmod_law :: "'w fs_ops \<Rightarrow> ('w \<Rightarrow> string \<Rightarrow> file_info option) \<Rightarrow> bool" where
  "chmod_law ops view \<longleftrightarrow> (\<forall>p m w i. view w p = Some i \<longrightarrow>
     view (snd (fs_Chmod ops p m w)) \<in>
       {view w, (view w)(p \<mapsto> i\<lparr>fi_mode := (fi_mode i AND NOT o777) OR (m AND o777)\<rparr>)})"

definition remove_law :: "'w fs_ops \<Rightarrow> ('w \<Rightarrow> string \<Rightarrow> file_info option) \<Rightarrow> bool" where
  "remove_law ops view \<longleftrightarrow> (\<forall>p w q. case fs_RemoveAll ops p w of (r, w') \<Rightarrow>
     if below p q then r = None \<longrightarrow> view w' q = None else view w' q = view w q)"

definition fs_laws :: "'w fs_ops \<Rightarrow> ('w \<Rightarrow> string \<Rightarrow> file_info option) \<Rightarrow> int \<Rightarrow> bool" where
  "fs_laws ops view uid \<longleftrightarrow>
     mkdir_law ops view uid \<and> lstat_law ops view \<and> chmod_law ops view \<and> remove_law ops view \<and>
     (\<forall>w. view (snd (fs_random ops w)) = view w)"

text \<open>What is below a missing path is missing too.\<close>

definition tree :: "(string \<Rightarrow> file_info option) \<Rightarrow> bool" where
  "tree v \<longleftrightarrow> (\<forall>p q. v p = None \<longrightarrow> below p q \<longrightarrow> v q = None)"

text \<open>A directory of the user that nobody else can look into.\<close>

abbreviation private_directory :: "int \<Rightarrow> file_info \<Rightarrow> bool" where
  "private_directory uid \<equiv> new_directory uid o700"

lemma below_refl [simp]: "below p p"
  by (simp add: below_def)

lemma not_below_prefix: "\<not> below (base @ x # xs) base"
  by (auto simp: below_def HasPrefix_iff)

section \<open>One call\<close>

lemma fs_mkdir:
  assumes "fs_laws ops view uid" and "fs_Mkdir ops p m w = (r, w')"
  shows "if r = Created
     then view w p = None \<and> (\<exists>i. view w' = (view w)(p \<mapsto> i) \<and> new_directory uid m i)
     else view w' = view w"
  using assms(1) [unfolded fs_laws_def mkdir_law_def, THEN conjunct1, rule_format, where p = p and m = m and w = w] assms(2) by simp

lemma fs_lstat:
  assumes "fs_laws ops view uid" and "fs_Lstat ops p w = (r, w')"
  shows "view w' = view w \<and> (\<forall>i. r = Ok i \<longrightarrow> view w p = Some i)"
  using assms(1) [unfolded fs_laws_def lstat_law_def, THEN conjunct2, THEN conjunct1, rule_format, where p = p and w = w] assms(2)
  by simp

lemma fs_removed:
  assumes "fs_laws ops view uid" and "fs_RemoveAll ops p w = (r, w')"
  shows "if below p q then r = None \<longrightarrow> view w' q = None else view w' q = view w q"
  using assms(1) [unfolded fs_laws_def remove_law_def, THEN conjunct2, THEN conjunct2, THEN conjunct2,
      THEN conjunct1, rule_format, where p = p and w = w and q = q] assms(2)
  by simp

lemma fs_random:
  assumes "fs_laws ops view uid"
  shows "view (snd (fs_random ops w)) = view w"
  using assms by (simp add: fs_laws_def)

lemma and_or_and: "(x AND a OR c) AND m = x AND (a AND m) OR (c AND m)" for x :: "32 word"
  by (simp only: bit.conj_disj_distrib2 and.assoc)

lemma outside_private: "(x AND o777) AND NOT o700 = (x AND o777) AND o077"
  by (simp add: and.assoc)

lemma chmod_private:
  assumes "new_directory uid m i"
  shows "private_directory uid (i\<lparr>fi_mode := (fi_mode i AND NOT o777) OR (o700 AND o777)\<rparr>)"
proof -
  have "(x AND NOT o777 OR o700 AND o777) AND ModeDir = x AND ModeDir"
    "(x AND NOT o777 OR o700 AND o777) AND ModeSymlink = x AND ModeSymlink"
    "Perm (x AND NOT o777 OR o700 AND o777) AND NOT o700 = 0" for x
    unfolding Perm_def ModeDir_def ModeSymlink_def by (simp_all only: and_or_and and.assoc) simp_all
  with assms show ?thesis by (simp add: new_directory_def IsDir_def)
qed

lemma fs_chmod:
  assumes "fs_laws ops view uid" and "fs_Chmod ops p o700 w = (r, w')" and "view w p = Some i"
    and "private_directory uid i"
  shows "\<exists>i. view w' = (view w)(p \<mapsto> i) \<and> private_directory uid i"
proof -
  let ?i = "i\<lparr>fi_mode := (fi_mode i AND NOT o777) OR (o700 AND o777)\<rparr>"
  have "chmod_law ops view" using assms(1) by (simp add: fs_laws_def)
  from this [unfolded chmod_law_def, rule_format, OF assms(3), where m = o700] assms(2)
  have "view w' = view w \<or> view w' = (view w)(p \<mapsto> ?i)" by simp
  moreover have "(view w)(p \<mapsto> i) = view w" using assms(3) by (rule fun_upd_idem)
  ultimately show ?thesis using assms(4) chmod_private [OF assms(4)] by metis
qed

lemma mkdir_temp_private:
  assumes "fs_laws ops view uid"
  shows "mkdir_temp ops prefix n w = (r, w') \<Longrightarrow>
   (case r of
      Inl e \<Rightarrow> view w' = view w
    | Inr name \<Rightarrow> (\<exists>x :: 32 word. name = prefix @ Itoa (unat x)) \<and> view w name = None \<and>
        (\<exists>i. view w' = (view w)(name \<mapsto> i) \<and> private_directory uid i))"
proof (induction n arbitrary: w)
  case (Suc n)
  obtain x w1 where x: "fs_random ops w = (x, w1)" by (metis surj_pair)
  have v1: "view w1 = view w" using fs_random [OF assms, of w] x by simp
  let ?name = "prefix @ Itoa (unat x)"
  obtain m w2 where m: "fs_Mkdir ops ?name o700 w1 = (m, w2)" by (metis surj_pair)
  show ?case
  proof (cases m)
    case Created
    with Suc.prems x m have r: "r = Ok ?name" "w' = w2" by auto
    have "view w ?name = None \<and> (\<exists>i. view w' = (view w)(?name \<mapsto> i) \<and> private_directory uid i)"
      using fs_mkdir [OF assms m] v1 Created r by simp
    then show ?thesis unfolding r(1) sum.case by blast
  next
    case Exists
    then have "view w2 = view w" using fs_mkdir [OF assms m] v1 by simp
    moreover have "mkdir_temp ops prefix n w2 = (r, w')" using Suc.prems x m Exists by simp
    ultimately show ?thesis using Suc.IH [of w2] by (simp only:)
  next
    case (MkdirFailed e)
    then have "view w2 = view w" using fs_mkdir [OF assms m] v1 by simp
    with Suc.prems x m MkdirFailed show ?thesis by auto
  qed
qed auto

lemma ensure_private:
  assumes "fs_laws ops view uid" and "ensurePrivateDirectory ops path uid w = (r, w')"
  shows "(\<forall>q. q \<noteq> path \<longrightarrow> view w' q = view w q) \<and>
    (r = Ok () \<longrightarrow> (\<exists>i. view w' path = Some i \<and> private_directory uid i))"
proof -
  obtain m w1 where m: "fs_Mkdir ops path o700 w = (m, w1)" by (metis surj_pair)
  show ?thesis
  proof (cases m)
    case Created
    then have "r = Ok ()" "w' = w1" using assms(2) m by (simp_all add: ensurePrivateDirectory_def)
    then show ?thesis using fs_mkdir [OF assms(1) m] Created by auto
  next
    case (MkdirFailed e)
    then have "w' = w1" "r \<noteq> Ok ()" using assms(2) m by (auto simp: ensurePrivateDirectory_def)
    then show ?thesis using fs_mkdir [OF assms(1) m] MkdirFailed by simp
  next
    case Exists
    then have v1: "view w1 = view w" using fs_mkdir [OF assms(1) m] by simp
    obtain s w2 where l: "fs_Lstat ops path w1 = (s, w2)" by (metis surj_pair)
    note stat = fs_lstat [OF assms(1) l]
    have w2: "w' = w2" using assms(2) m Exists l by (auto simp: ensurePrivateDirectory_def split: sum.splits)
    have "\<exists>i. view w' path = Some i \<and> private_directory uid i" if ok: "r = Ok ()"
    proof -
      have en: "ensurePrivateDirectory ops path uid w =
          (case s of
             Inl e \<Rightarrow> (Err (InspectRuntime e), w2)
           | Inr info \<Rightarrow>
               (if \<not> IsDir (fi_mode info) \<or> fi_mode info AND ModeSymlink \<noteq> 0 then Err NotRealDirectory
                else case fi_uid info of
                  None \<Rightarrow> Err OwnershipUnavailable
                | Some owner \<Rightarrow>
                    if uint owner \<noteq> uid then Err (WrongOwner owner uid)
                    else if Perm (fi_mode info) AND o077 \<noteq> 0 then Err (NotPrivate (Perm (fi_mode info)))
                    else Ok (), w2))"
        using m Exists l by (simp add: ensurePrivateDirectory_def)
      obtain i where i: "s = Ok i" using assms(2) ok en by (cases s) auto
      obtain owner where "fi_uid i = Some owner" using assms(2) ok en i
        by (cases "fi_uid i") (simp_all split: if_splits)
      with assms(2) ok en i have "s = Ok i" "IsDir (fi_mode i)" "fi_mode i AND ModeSymlink = 0"
        "fi_uid i = Some owner" "uint owner = uid" "Perm (fi_mode i) AND o077 = 0"
        by (simp_all split: if_splits)
      then have "private_directory uid i"
        by (simp only: new_directory_def Perm_def outside_private) simp
      with \<open>s = Ok i\<close> stat w2 show ?thesis by auto
    qed
    then show ?thesis using stat v1 w2 by simp
  qed
qed

section \<open>The paths\<close>

lemma name_element_prefix: "2 < length e \<Longrightarrow> CHR ''/'' \<notin> set e \<Longrightarrow> name_element e"
  by (auto simp: name_element_def)

lemma Itoa_no_slash [simp]: "CHR ''/'' \<notin> set (Itoa n)"
  by (rule digit_not_in [OF Itoa_digits]) (simp add: is_digit_def byte_def)

lemma Sprint_int_clean: "CHR ''/'' \<notin> set (Sprint_int i)" "Sprint_int i \<noteq> []"
  by (simp_all add: Sprint_int_def)

lemma append_name_ends: "\<exists>t. append_name dir name = t @ name"
  by (simp add: append_name_def)

lemma runtime_base_ends:
  "\<exists>t name. runtime_base uid xdg = t @ name \<and> 2 < length name \<and> CHR ''/'' \<notin> set name \<and>
     runtime_base uid xdg = append_name (Clean (if xdg = [] then ''/tmp'' else xdg)) name"
proof -
  have "runtime_base uid xdg = append_name (Clean (if xdg = [] then ''/tmp'' else xdg))
      (if xdg = [] then ''airjail-'' @ Sprint_int uid else ''airjail'')"
    using JoinPath_name [OF name_element_prefix] Sprint_int_clean [of uid] by (simp add: runtime_base_def)
  moreover have "2 < length (if xdg = [] then ''airjail-'' @ Sprint_int uid else ''airjail'')"
    "CHR ''/'' \<notin> set (if xdg = [] then ''airjail-'' @ Sprint_int uid else ''airjail'')"
    using Sprint_int_clean [of uid] by simp_all
  ultimately show ?thesis using append_name_ends by metis
qed

lemma runtime_base_clean:
  shows "Clean (runtime_base uid xdg) = runtime_base uid xdg" and "2 < length (runtime_base uid xdg)"
    and "\<not> HasSuffix (runtime_base uid xdg) ''/''"
proof -
  obtain t name where b: "runtime_base uid xdg = t @ name" "2 < length name" "CHR ''/'' \<notin> set name"
    using runtime_base_ends by metis
  show "Clean (runtime_base uid xdg) = runtime_base uid xdg"
    by (simp add: runtime_base_def JoinPath_def Sprint_int_clean)
  show "2 < length (runtime_base uid xdg)" using b by simp
  show "\<not> HasSuffix (runtime_base uid xdg) ''/''"
  proof
    assume "HasSuffix (runtime_base uid xdg) ''/''"
    then obtain u where "t @ name = u @ ''/''" using b(1) by (auto simp: HasSuffix_iff)
    then have "last (t @ name) = CHR ''/''" by simp
    with b(2,3) show False by (cases name rule: rev_cases) auto
  qed
qed

text \<open>The session directory and the sockets are named directly below the base.\<close>

lemma Clean_below_long:
  assumes "Clean p = p" and "2 < length p" and "name_element e"
  shows "Clean (p @ ''/'' @ e) = p @ ''/'' @ e" and "JoinPath p e = p @ ''/'' @ e"
proof -
  have "p \<noteq> ''/''" "p \<noteq> ''.''" "p \<noteq> []" using assms(2) by auto
  then show "Clean (p @ ''/'' @ e) = p @ ''/'' @ e" "JoinPath p e = p @ ''/'' @ e"
    using Clean_below [OF assms(1) _ _ _ assms(3)] by simp_all
qed

lemma session_names:
  fixes x :: "32 word"
  assumes "directory = runtime_base uid xdg @ ''/session-'' @ Itoa (unat x)"
  shows "JoinPath directory ''http.sock'' = directory @ ''/http.sock''"
    and "JoinPath directory ''socks.sock'' = directory @ ''/socks.sock''"
proof -
  have n: "name_element (''session-'' @ Itoa (unat x))" by (rule name_element_prefix) simp_all
  note b = runtime_base_clean(1,2) [of uid xdg]
  have "Clean directory = directory" using Clean_below_long(1) [OF b n] assms by simp
  moreover have "2 < length directory" using assms b(2) by simp
  moreover have "name_element ''http.sock''" "name_element ''socks.sock''" by code_simp+
  ultimately show "JoinPath directory ''http.sock'' = directory @ ''/http.sock''"
    "JoinPath directory ''socks.sock'' = directory @ ''/socks.sock''"
    using Clean_below_long(2) [of directory] by simp_all
qed

lemma Itoa_length: "n < 10 ^ Suc k \<Longrightarrow> length (Itoa n) \<le> Suc k"
proof (induction k arbitrary: n)
  case 0
  then show ?case by (simp add: Itoa.simps)
next
  case (Suc k)
  then have "n div 10 < 10 ^ Suc k" by (simp add: less_mult_imp_div_less)
  from Suc.IH [OF this] show ?case by (simp add: Itoa.simps [of n])
qed

lemma Itoa_32: "n < 2 ^ 32 \<Longrightarrow> length (Itoa n) \<le> 10"
  using Itoa_length [of n 9] by simp

lemma mkdir_temp_name:
  "mkdir_temp ops prefix n w = (Ok name, w') \<Longrightarrow> \<exists>x :: 32 word. name = prefix @ Itoa (unat x)"
  by (induction ops prefix n w rule: mkdir_temp.induct)
    (auto simp: Let_def split: prod.splits mkdir_result.splits)

lemma MkdirTemp_name:
  assumes "MkdirTemp ops (runtime_base uid xdg) ''session-'' w = (Ok directory, w')"
  shows "\<exists>x :: 32 word. directory = runtime_base uid xdg @ ''/session-'' @ Itoa (unat x)"
  using mkdir_temp_name assms runtime_base_clean(3) by (fastforce simp: MkdirTemp_def)

lemma runtime_base_tmp:
  assumes "0 \<le> uid"
  shows "runtime_base uid [] = ''/tmp/airjail-'' @ Itoa (nat uid)"
proof -
  have "name_element (''airjail-'' @ Itoa (nat uid))" by (rule name_element_prefix) simp_all
  moreover have "Clean ''/tmp'' = ''/tmp''" by code_simp
  ultimately have "JoinPath ''/tmp'' (''airjail-'' @ Itoa (nat uid)) = ''/tmp'' @ ''/'' @ ''airjail-'' @ Itoa (nat uid)"
    by (intro Clean_below_long(2)) simp_all
  then show ?thesis using assms by (simp add: runtime_base_def Sprint_int_def)
qed

text \<open>Every step of \<open>createRuntimeDir\<close>, by its result.\<close>

lemma createRuntimeDir_cases:
  assumes "createRuntimeDir ops uid xdg w = (r, w')"
  obtains e where "ensurePrivateDirectory ops (runtime_base uid xdg) uid w = (Err e, w')" "r = Err e"
    "e \<noteq> SocketPathTooLong"
  | w1 e where "ensurePrivateDirectory ops (runtime_base uid xdg) uid w = (Ok (), w1)"
    "MkdirTemp ops (runtime_base uid xdg) ''session-'' w1 = (Err e, w')" "r = Err (CreateSession e)"
  | w1 w2 w3 x directory c where
    "ensurePrivateDirectory ops (runtime_base uid xdg) uid w = (Ok (), w1)"
    "MkdirTemp ops (runtime_base uid xdg) ''session-'' w1 = (Ok directory, w2)"
    "directory = runtime_base uid xdg @ ''/session-'' @ Itoa (unat (x :: 32 word))"
    "fs_Chmod ops directory o700 w2 = (c, w3)"
    "if c = None \<and> length directory + 11 \<le> 107
     then r = Ok \<lparr>Directory = directory, HTTPSocket = directory @ ''/http.sock'',
                   SOCKSocket = directory @ ''/socks.sock''\<rparr> \<and> w' = w3
     else r = Err (case c of None \<Rightarrow> SocketPathTooLong | Some e \<Rightarrow> SessionPermissions e) \<and>
       w' = snd (fs_RemoveAll ops directory w3)"
proof -
  let ?base = "runtime_base uid xdg"
  obtain p w1 where p: "ensurePrivateDirectory ops ?base uid w = (p, w1)" by (metis surj_pair)
  show thesis
  proof (cases p)
    case (Inl e)
    have "e \<noteq> SocketPathTooLong"
      using p Inl unfolding ensurePrivateDirectory_def
      by (auto split: prod.splits mkdir_result.splits sum.splits option.splits if_splits)
    with that(1) assms p Inl show ?thesis by (simp add: createRuntimeDir_def)
  next
    case (Inr u)
    then have p: "ensurePrivateDirectory ops ?base uid w = (Ok (), w1)" using p by simp
    obtain m w2 where m: "MkdirTemp ops ?base ''session-'' w1 = (m, w2)" by (metis surj_pair)
    show ?thesis
    proof (cases m)
      case (Inl e)
      with that(2) [OF p] assms p m show ?thesis by (simp add: createRuntimeDir_def)
    next
      case d: (Inr directory)
      obtain x :: "32 word" where x: "directory = ?base @ ''/session-'' @ Itoa (unat x)"
        using MkdirTemp_name [OF m [unfolded d]] by blast
      obtain c w3 where c: "fs_Chmod ops directory o700 w2 = (c, w3)" by (metis surj_pair)
      show ?thesis
        by (rule that(3) [OF p m [unfolded d] x c])
          (use assms p m d c session_names [OF x] in
            \<open>auto simp: createRuntimeDir_def Let_def maxUnixSocketPath_def split: option.splits if_splits\<close>)
    qed
  qed
qed

section \<open>Properties\<close>

text \<open>
  C33: The session directory lies in a base directory of the user that nobody else can enter, which
  was made or found that way; it did not exist before, is itself private, and nothing else is
  touched.
\<close>

theorem session_is_private:
  assumes "fs_laws ops view uid" and "createRuntimeDir ops uid xdg w = (Ok rd, w')"
  shows "\<exists>base i. view w' (runtime_base uid xdg) = Some base \<and> private_directory uid base \<and>
    view w' (Directory rd) = Some i \<and> private_directory uid i \<and>
    HasPrefix (Directory rd) (runtime_base uid xdg @ ''/session-'') \<and>
    HTTPSocket rd = Directory rd @ ''/http.sock'' \<and> SOCKSocket rd = Directory rd @ ''/socks.sock'' \<and>
    (\<forall>q. q \<noteq> runtime_base uid xdg \<longrightarrow> view w q \<noteq> view w' q \<longrightarrow> q = Directory rd \<and> view w q = None)"
  using assms(2)
proof (cases rule: createRuntimeDir_cases)
  case (3 w1 w2 w3 x directory c)
  let ?base = "runtime_base uid xdg"
  note ensured = ensure_private [OF assms(1) 3(1)]
  have ne: "directory \<noteq> ?base" using 3(3) by simp
  have rd: "c = None" "rd = \<lparr>Directory = directory, HTTPSocket = directory @ ''/http.sock'',
      SOCKSocket = directory @ ''/socks.sock''\<rparr>" "w' = w3"
    using 3(5) by (auto split: if_splits)
  obtain i where v1: "view w1 directory = None" and v2: "view w2 = (view w1)(directory \<mapsto> i)"
    and i: "private_directory uid i"
    using mkdir_temp_private [OF assms(1) 3(2) [unfolded MkdirTemp_def]] by auto
  then obtain j where v3: "view w3 = (view w2)(directory \<mapsto> j)" and j: "private_directory uid j"
    using fs_chmod [OF assms(1) 3(4), of i] by auto
  have "HasPrefix directory (?base @ ''/session-'')" using 3(3) by (simp add: HasPrefix_iff)
  then show ?thesis using ensured v1 v2 v3 j ne rd by auto
qed auto

text \<open>
  C34: However it ends, no session directory stays behind: after an error, and after \<open>Close\<close> of a
  session in which anything was put below its directory, every path but the base is as before, when
  the removals succeed.
\<close>

theorem session_is_removed:
  assumes "fs_laws ops view uid" and "tree (view w)" and "\<forall>p w. fst (fs_RemoveAll ops p w) = None"
    and "createRuntimeDir ops uid xdg w = (r, w')"
  shows "case r of
      Inl e \<Rightarrow> \<forall>q. q \<noteq> runtime_base uid xdg \<longrightarrow> view w' q = view w q
    | Inr rd \<Rightarrow> (\<forall>used. (\<forall>q. \<not> below (Directory rd) q \<longrightarrow> view used q = view w' q) \<longrightarrow>
        fst (runtime_Close ops rd used) = Ok () \<and>
        (\<forall>q. q \<noteq> runtime_base uid xdg \<longrightarrow> view (snd (runtime_Close ops rd used)) q = view w q))"
proof -
  let ?base = "runtime_base uid xdg"
  have removed: "\<forall>q. q \<noteq> ?base \<longrightarrow> view (snd (fs_RemoveAll ops directory used)) q = view w q"
    if used: "\<forall>q. \<not> below directory q \<longrightarrow> q \<noteq> ?base \<longrightarrow> view used q = view w q"
      and none: "view w directory = None" for directory used
  proof (intro allI impI)
    fix q assume "q \<noteq> ?base"
    obtain u where "fs_RemoveAll ops directory used = (None, u)" using assms(3) by (metis prod.collapse)
    from fs_removed [OF assms(1) this, of q] \<open>q \<noteq> ?base\<close> used none assms(2) this
    show "view (snd (fs_RemoveAll ops directory used)) q = view w q"
      by (auto simp: tree_def split: if_splits)
  qed
  from assms(4) show ?thesis
  proof (cases rule: createRuntimeDir_cases)
    case (1 e)
    then show ?thesis using ensure_private [OF assms(1) 1(1)] by simp
  next
    case (2 w1 e)
    then show ?thesis using ensure_private [OF assms(1) 2(1)]
        mkdir_temp_private [OF assms(1) 2(2) [unfolded MkdirTemp_def]] by simp
  next
    case (3 w1 w2 w3 x directory c)
    have ne: "directory \<noteq> ?base" using 3(3) by simp
    obtain i where v1: "view w1 directory = None" and v2: "view w2 = (view w1)(directory \<mapsto> i)"
      and i: "private_directory uid i"
      using mkdir_temp_private [OF assms(1) 3(2) [unfolded MkdirTemp_def]] by auto
    then obtain j where v3: "view w3 = (view w2)(directory \<mapsto> j)"
      using fs_chmod [OF assms(1) 3(4), of i] by auto
    have none: "view w directory = None" and same: "\<forall>q. \<not> below directory q \<longrightarrow> q \<noteq> ?base \<longrightarrow> view w3 q = view w q"
      using ensure_private [OF assms(1) 3(1)] v1 v2 v3 ne by auto
    have closes: "runtime_Close ops rd used = (Ok (), snd (fs_RemoveAll ops (Directory rd) used))" for rd used
      using assms(3) by (auto simp: runtime_Close_def split: prod.splits option.splits) (metis fst_conv option.distinct(1))
    show ?thesis
    proof (cases r)
      case (Inl e)
      then have "w' = snd (fs_RemoveAll ops directory w3)" using 3(5) by (auto split: if_splits)
      then show ?thesis using removed [OF same none] Inl by simp
    next
      case (Inr rd)
      then have d: "Directory rd = directory" "w' = w3" using 3(5) by (auto split: if_splits)
      show ?thesis unfolding Inr sum.case closes fst_conv snd_conv d
        using removed [OF _ none] same by simp
    qed
  qed
qed

text \<open>
  C35: The check of the socket paths against the 107 bytes of a Unix socket address: it never fails
  without \<open>XDG_RUNTIME_DIR\<close>, nor below a base of at most 77 bytes; it always fails below a base of
  more than 86; and what is returned fits.
\<close>

theorem socket_paths_fit:
  "(0 \<le> uid \<and> uid < 2 ^ 32 \<longrightarrow> fst (createRuntimeDir ops uid [] w) \<noteq> Err SocketPathTooLong) \<and>
   (length (runtime_base uid xdg) \<le> 77 \<longrightarrow> fst (createRuntimeDir ops uid xdg w) \<noteq> Err SocketPathTooLong) \<and>
   (86 < length (runtime_base uid xdg) \<longrightarrow> fst (createRuntimeDir ops uid xdg w) \<noteq> Ok rd) \<and>
   (fst (createRuntimeDir ops uid xdg w) = Ok rd \<longrightarrow>
      length (HTTPSocket rd) \<le> 107 \<and> length (SOCKSocket rd) \<le> 107)"
proof -
  have digits: "1 \<le> length (Itoa (unat x))" "length (Itoa (unat x)) \<le> 10" for x :: "32 word"
    using Itoa_nonempty [of "unat x"] Itoa_32 [of "unat x"] unsigned_less [of x]
    by (auto simp: Suc_le_eq simp del: Itoa_nonempty)
  have short: "fst (createRuntimeDir ops uid xdg w) \<noteq> Err SocketPathTooLong"
    if "length (runtime_base uid xdg) \<le> 77" for uid xdg w
  proof -
    obtain r w' where r: "createRuntimeDir ops uid xdg w = (r, w')" by (metis surj_pair)
    then show ?thesis
    proof (cases rule: createRuntimeDir_cases)
      case (3 w1 w2 w3 x directory c)
      then have "length directory + 11 \<le> 107" using that digits(2) [of x] by simp
      with 3(5) r show ?thesis by (auto split: if_splits option.splits)
    qed (use r in auto)
  qed
  have tmp: "fst (createRuntimeDir ops uid [] w) \<noteq> Err SocketPathTooLong" if "0 \<le> uid" "uid < 2 ^ 32"
  proof (rule short)
    have "nat uid < 2 ^ 32" using that by simp
    then show "length (runtime_base uid []) \<le> 77"
      using Itoa_32 [of "nat uid"] runtime_base_tmp [OF that(1)] by simp
  qed
  obtain r w' where r: "createRuntimeDir ops uid xdg w = (r, w')" by (metis surj_pair)
  then have "(86 < length (runtime_base uid xdg) \<longrightarrow> r \<noteq> Ok rd) \<and>
    (r = Ok rd \<longrightarrow> length (HTTPSocket rd) \<le> 107 \<and> length (SOCKSocket rd) \<le> 107)"
  proof (cases rule: createRuntimeDir_cases)
    case (3 w1 w2 w3 x directory c)
    then show ?thesis using digits(1) [of x] by (auto split: if_splits)
  qed auto
  with r short [of uid xdg w] tmp show ?thesis by simp
qed

section \<open>An example\<close>

text \<open>A file system whose state is the map from paths to what is there.\<close>

definition demo_fs :: "(string \<Rightarrow> file_info option) fs_ops" where
  "demo_fs = \<lparr>
     fs_Mkdir = (\<lambda>p m w. if w p = None
        then (Created, w(p \<mapsto> \<lparr>fi_mode = ModeDir OR (m AND o777), fi_uid = Some 1000\<rparr>)) else (Exists, w)),
     fs_Lstat = (\<lambda>p w. (case w p of None \<Rightarrow> Err ''no such file or directory'' | Some i \<Rightarrow> Ok i, w)),
     fs_Chmod = (\<lambda>p m w. case w p of
          None \<Rightarrow> (Some ''no such file or directory'', w)
        | Some i \<Rightarrow> (None, w(p \<mapsto> i\<lparr>fi_mode := (fi_mode i AND NOT o777) OR (m AND o777)\<rparr>))),
     fs_RemoveAll = (\<lambda>p w. (None, \<lambda>q. if below p q then None else w q)),
     fs_random = (\<lambda>w. (42, w))\<rparr>"

lemma demo_fs_laws: "fs_laws demo_fs (\<lambda>w. w) 1000"
proof -
  have dir: "(ModeDir OR (m AND o777)) AND k = (ModeDir AND k) OR (m AND (o777 AND k))" for m k :: "32 word"
    by (simp only: bit.conj_disj_distrib2 and.assoc)
  have "(m AND o777) AND NOT m = 0" for m :: "32 word"
    by (rule bit_word_eqI) (simp add: bit_simps)
  then have "new_directory 1000 m \<lparr>fi_mode = ModeDir OR (m AND o777), fi_uid = Some 1000\<rparr>" for m :: "32 word"
    by (simp add: new_directory_def IsDir_def Perm_def dir) (simp add: ModeDir_def ModeSymlink_def)
  then show ?thesis
    by (auto simp: fs_laws_def mkdir_law_def lstat_law_def chmod_law_def remove_law_def demo_fs_def
        split: option.splits)
qed

lemma demo_session:
  "\<exists>w'. createRuntimeDir demo_fs 1000 ''/run/user/1000'' Map.empty =
     (Ok \<lparr>Directory = ''/run/user/1000/airjail/session-42'',
          HTTPSocket = ''/run/user/1000/airjail/session-42/http.sock'',
          SOCKSocket = ''/run/user/1000/airjail/session-42/socks.sock''\<rparr>, w')"
proof -
  have "fst (createRuntimeDir demo_fs 1000 ''/run/user/1000'' Map.empty) =
     Ok \<lparr>Directory = ''/run/user/1000/airjail/session-42'',
          HTTPSocket = ''/run/user/1000/airjail/session-42/http.sock'',
          SOCKSocket = ''/run/user/1000/airjail/session-42/socks.sock''\<rparr>"
    by code_simp
  then show ?thesis by (metis prod.collapse)
qed

theorem session_is_private_witness:
  "\<exists>w' i. snd (createRuntimeDir demo_fs 1000 ''/run/user/1000'' Map.empty) = w' \<and>
     w' ''/run/user/1000/airjail/session-42'' = Some i \<and> private_directory 1000 i \<and>
     w' ''/run/user/1000'' = None"
proof -
  obtain w' where c: "createRuntimeDir demo_fs 1000 ''/run/user/1000'' Map.empty =
      (Ok \<lparr>Directory = ''/run/user/1000/airjail/session-42'',
          HTTPSocket = ''/run/user/1000/airjail/session-42/http.sock'',
          SOCKSocket = ''/run/user/1000/airjail/session-42/socks.sock''\<rparr>, w')"
    using demo_session by blast
  have "''/run/user/1000'' \<noteq> runtime_base 1000 ''/run/user/1000''" by code_simp
  with session_is_private [OF demo_fs_laws c] c show ?thesis by fastforce
qed

theorem session_is_removed_witness:
  "\<exists>rd w'. createRuntimeDir demo_fs 1000 ''/run/user/1000'' Map.empty = (Ok rd, w') \<and>
     fst (runtime_Close demo_fs rd w') = Ok () \<and>
     (\<forall>q. q \<noteq> runtime_base 1000 ''/run/user/1000'' \<longrightarrow> snd (runtime_Close demo_fs rd w') q = None)"
proof -
  obtain rd w' where c: "createRuntimeDir demo_fs 1000 ''/run/user/1000'' Map.empty = (Ok rd, w')"
    using demo_session by blast
  have "tree Map.empty" "\<forall>p w. fst (fs_RemoveAll demo_fs p w) = None"
    by (simp_all add: tree_def demo_fs_def)
  from session_is_removed [OF demo_fs_laws this c] c show ?thesis by auto
qed

theorem socket_paths_fit_witness:
  "fst (createRuntimeDir demo_fs 1000 [] Map.empty) \<noteq> Err SocketPathTooLong \<and>
   fst (createRuntimeDir demo_fs 1000 ''/run/user/1000'' Map.empty) \<noteq> Err SocketPathTooLong \<and>
   fst (createRuntimeDir demo_fs 1000 (CHR ''/'' # replicate 90 CHR ''a'') Map.empty) \<noteq> Ok undefined"
proof -
  have "length (runtime_base 1000 ''/run/user/1000'') \<le> 77"
    "86 < length (runtime_base 1000 (CHR ''/'' # replicate 90 CHR ''a''))" by code_simp+
  then show ?thesis
    using socket_paths_fit [of 1000 demo_fs Map.empty "''/run/user/1000''"]
      socket_paths_fit [of 1000 demo_fs Map.empty "CHR ''/'' # replicate 90 CHR ''a''" undefined]
    by simp
qed

end
