(* ===== verification/Jobs.thy ===== *)
theory Jobs
  imports Launch "HOL-Library.Multiset"
begin

text \<open>
  The goroutines of \<open>runWithProxies\<close> in internal/application/application.go: the two proxy servers,
  the command, and the main goroutine, which waits for the first of them, cancels the context,
  and then waits for the others.  An event is one step of one of them.
\<close>

section \<open>The goroutines\<close>

datatype server = HTTPServer | SOCKSServer

datatype run_error = CommandError launch_error | ServerError string | ServerStoppedUnexpectedly

type_synonym command_result = "(launch_error, nat) result"

text \<open>Where the main goroutine is: in the \<open>select\<close>, behind one of its cases, in \<open>Wait\<close>, or returned.\<close>

datatype main_phase =
    Selecting
  | AwaitingCommand run_error
  | AwaitingServers "(run_error, nat) result"
  | JobsReturned "(run_error, nat) result"

text \<open>
  \<open>server_errors\<close> and \<open>command_results\<close> are the contents of the two buffered channels; \<open>running\<close> are
  the servers \<open>waitGroup\<close> counts, \<open>command_running\<close> says that the command has not returned.
\<close>

record jobs =
  running :: "server list"
  command_running :: bool
  server_errors :: "string option list"
  command_results :: "command_result list"
  ctx_cancelled :: bool
  main_at :: main_phase

definition jobs_start :: jobs where
  "jobs_start = \<lparr>running = [HTTPServer, SOCKSServer], command_running = True, server_errors = [],
     command_results = [], ctx_cancelled = False, main_at = Selecting\<rparr>"

datatype goroutine_event =
    ServerReturns server "string option"
  | CommandReturns command_result
  | SelectsCommand
  | SelectsServer
  | TakesCommand
  | WaitEnds

definition server_error :: "string option \<Rightarrow> run_error" where
  "server_error e = (case e of None \<Rightarrow> ServerStoppedUnexpectedly | Some text \<Rightarrow> ServerError text)"

text \<open>One step; \<open>None\<close> where it is not possible.\<close>

fun goroutine_step :: "goroutine_event \<Rightarrow> jobs \<Rightarrow> jobs option" where
  "goroutine_step (ServerReturns x e) s =
     (if x \<in> set (running s)
      then Some (s\<lparr>running := remove1 x (running s), server_errors := server_errors s @ [e]\<rparr>)
      else None)"
| "goroutine_step (CommandReturns r) s =
     (if command_running s
      then Some (s\<lparr>command_running := False, command_results := command_results s @ [r]\<rparr>)
      else None)"
| "goroutine_step SelectsCommand s =
     (case (main_at s, command_results s) of
        (Selecting, r # rs) \<Rightarrow>
          Some (s\<lparr>command_results := rs, ctx_cancelled := True,
                  main_at := AwaitingServers (rmap_err CommandError r)\<rparr>)
      | _ \<Rightarrow> None)"
| "goroutine_step SelectsServer s =
     (case (main_at s, server_errors s) of
        (Selecting, e # es) \<Rightarrow>
          Some (s\<lparr>server_errors := es, ctx_cancelled := True,
                  main_at := AwaitingCommand (server_error e)\<rparr>)
      | _ \<Rightarrow> None)"
| "goroutine_step TakesCommand s =
     (case (main_at s, command_results s) of
        (AwaitingCommand serverErr, r # rs) \<Rightarrow>
          Some (s\<lparr>command_results := rs, ctx_cancelled := True,
                  main_at := AwaitingServers
                    (case r of Inl e \<Rightarrow> Err (CommandError e) | Inr _ \<Rightarrow> Err serverErr)\<rparr>)
      | _ \<Rightarrow> None)"
| "goroutine_step WaitEnds s =
     (case main_at s of
        AwaitingServers r \<Rightarrow>
          if running s = [] then Some (s\<lparr>ctx_cancelled := True, main_at := JobsReturned r\<rparr>) else None
      | _ \<Rightarrow> None)"

fun run_jobs :: "goroutine_event list \<Rightarrow> jobs \<Rightarrow> jobs option" where
  "run_jobs [] s = Some s"
| "run_jobs (e # es) s = (case goroutine_step e s of None \<Rightarrow> None | Some s \<Rightarrow> run_jobs es s)"

section \<open>Invariants\<close>

text \<open>What the events so far say: the results of the command, the servers and their errors.\<close>

definition commands_of :: "goroutine_event list \<Rightarrow> command_result list" where
  "commands_of es = concat (map (\<lambda>e. case e of CommandReturns r \<Rightarrow> [r] | _ \<Rightarrow> []) es)"

definition servers_of :: "goroutine_event list \<Rightarrow> server list" where
  "servers_of es = concat (map (\<lambda>e. case e of ServerReturns x _ \<Rightarrow> [x] | _ \<Rightarrow> []) es)"

definition errors_of :: "goroutine_event list \<Rightarrow> string option list" where
  "errors_of es = concat (map (\<lambda>e. case e of ServerReturns _ x \<Rightarrow> [x] | _ \<Rightarrow> []) es)"

definition result_of :: "goroutine_event list \<Rightarrow> command_result \<Rightarrow> (run_error, nat) result" where
  "result_of es c =
     (case c of
        Inl e \<Rightarrow> Err (CommandError e)
      | Inr code \<Rightarrow> if SelectsServer \<in> set es then Err (server_error (hd (errors_of es))) else Ok code)"

definition jobs_inv :: "goroutine_event list \<Rightarrow> jobs \<Rightarrow> bool" where
  "jobs_inv es s \<longleftrightarrow>
     mset (servers_of es) + mset (running s) = {# HTTPServer, SOCKSServer #} \<and>
     length (commands_of es) = (if command_running s then 0 else 1) \<and>
     (case main_at s of
        Selecting \<Rightarrow> SelectsServer \<notin> set es \<and> command_results s = commands_of es \<and> server_errors s = errors_of es
      | AwaitingCommand e \<Rightarrow> ctx_cancelled s \<and> SelectsServer \<in> set es \<and> errors_of es \<noteq> [] \<and>
          e = server_error (hd (errors_of es)) \<and> command_results s = commands_of es
      | AwaitingServers r \<Rightarrow> ctx_cancelled s \<and> (SelectsServer \<in> set es \<longrightarrow> errors_of es \<noteq> []) \<and>
          (\<exists>c. commands_of es = [c] \<and> r = result_of es c)
      | JobsReturned r \<Rightarrow> ctx_cancelled s \<and> running s = [] \<and> (SelectsServer \<in> set es \<longrightarrow> errors_of es \<noteq> []) \<and>
          (\<exists>c. commands_of es = [c] \<and> r = result_of es c))"

lemma events_snoc [simp]:
  "commands_of (es @ [e]) = commands_of es @ (case e of CommandReturns r \<Rightarrow> [r] | _ \<Rightarrow> [])"
  "servers_of (es @ [e]) = servers_of es @ (case e of ServerReturns x _ \<Rightarrow> [x] | _ \<Rightarrow> [])"
  "errors_of (es @ [e]) = errors_of es @ (case e of ServerReturns _ x \<Rightarrow> [x] | _ \<Rightarrow> [])"
  by (simp_all add: commands_of_def servers_of_def errors_of_def)

lemma run_jobs_snoc:
  "run_jobs (es @ [e]) s = (case run_jobs es s of None \<Rightarrow> None | Some s \<Rightarrow> goroutine_step e s)"
  by (induction es arbitrary: s) (auto split: option.splits)

lemma server_moved [simp]:
  "add_mset x ({# HTTPServer, SOCKSServer #} - {# x #}) = {# HTTPServer, SOCKSServer #}"
  by (cases x) simp_all

lemma jobs_inv_step:
  assumes "jobs_inv es s" and "goroutine_step e s = Some s'"
  shows "jobs_inv (es @ [e]) s'"
proof (cases e)
  case (ServerReturns x err)
  with assms(2) have x: "x \<in> set (running s)"
    and s': "s' = s\<lparr>running := remove1 x (running s), server_errors := server_errors s @ [err]\<rparr>"
    by (auto split: if_splits)
  then show ?thesis using assms(1) ServerReturns s'
    by (cases "main_at s") (auto simp: jobs_inv_def result_of_def split: sum.splits)
next
  case (CommandReturns r)
  with assms(2) have run: "command_running s" by (auto split: if_splits)
  with assms(1) have "commands_of es = []" by (simp add: jobs_inv_def)
  then show ?thesis using assms CommandReturns run
    by (cases "main_at s") (auto simp: jobs_inv_def)
next
  case SelectsCommand
  then show ?thesis using assms
    by (cases "main_at s")
      (auto simp: jobs_inv_def result_of_def rmap_err_def split: if_splits sum.splits list.splits)
next
  case SelectsServer
  then show ?thesis using assms
    by (cases "main_at s") (auto simp: jobs_inv_def split: list.splits)
next
  case TakesCommand
  then show ?thesis using assms
    by (cases "main_at s") (auto simp: jobs_inv_def result_of_def split: if_splits sum.splits list.splits)
next
  case WaitEnds
  then show ?thesis using assms
    by (cases "main_at s") (auto simp: jobs_inv_def result_of_def split: if_splits sum.splits)
qed

lemma jobs_inv_run: "run_jobs es jobs_start = Some s \<Longrightarrow> jobs_inv es s"
proof (induction es arbitrary: s rule: rev_induct)
  case Nil
  then show ?case
    by (auto simp: jobs_start_def jobs_inv_def commands_of_def servers_of_def errors_of_def)
next
  case (snoc e es)
  then show ?case using jobs_inv_step by (auto simp: run_jobs_snoc split: option.splits)
qed

section \<open>The run ends\<close>

text \<open>What is left to do.\<close>

definition jobs_left :: "jobs \<Rightarrow> nat" where
  "jobs_left s = length (running s) + (if command_running s then 1 else 0) +
     (case main_at s of Selecting \<Rightarrow> 3 | AwaitingCommand _ \<Rightarrow> 2 | AwaitingServers _ \<Rightarrow> 1 | JobsReturned _ \<Rightarrow> 0)"

lemma remove1_shorter: "x \<in> set xs \<Longrightarrow> length (remove1 x xs) < length xs"
  using length_pos_if_in_set [of x xs] by (simp add: length_remove1)

lemma goroutine_step_left: "goroutine_step e s = Some s' \<Longrightarrow> jobs_left s' < jobs_left s"
  by (cases e; cases "main_at s")
    (auto simp: jobs_left_def remove1_shorter split: if_splits list.splits)

lemma run_jobs_left: "run_jobs es s = Some s' \<Longrightarrow> length es + jobs_left s' \<le> jobs_left s"
proof (induction es arbitrary: s)
  case (Cons e es)
  then show ?case using goroutine_step_left [of e s] by (fastforce split: option.splits)
qed simp

text \<open>
  The steps that come without help from outside.  Those of the main goroutine do.  A server and the
  command have to be told: as long as the context is not cancelled, a server returns only when its
  listener fails, and the command when it likes, so neither may be waited for in vain.
\<close>

fun prompted :: "jobs \<Rightarrow> goroutine_event \<Rightarrow> bool" where
  "prompted s (ServerReturns x e) \<longleftrightarrow> ctx_cancelled s"
| "prompted s (CommandReturns r) \<longleftrightarrow> ctx_cancelled s"
| "prompted s e \<longleftrightarrow> True"

definition goes_on :: "jobs \<Rightarrow> bool" where
  "goes_on s \<longleftrightarrow> (\<exists>e. prompted s e \<and> goroutine_step e s \<noteq> None)"

lemma goes_onI: "prompted s e \<Longrightarrow> goroutine_step e s \<noteq> None \<Longrightarrow> goes_on s"
  by (auto simp: goes_on_def)

text \<open>The first event of a run is the return of a server or of the command.\<close>

lemma first_event:
  assumes "run_jobs es jobs_start = Some s" and "es \<noteq> []"
  shows "commands_of es \<noteq> [] \<or> errors_of es \<noteq> []"
proof -
  obtain e rest where es: "es = e # rest" using assms(2) by (cases es) auto
  then have "goroutine_step e jobs_start \<noteq> None" using assms(1) by (auto split: option.splits)
  then show ?thesis by (cases e) (simp_all add: es jobs_start_def commands_of_def errors_of_def)
qed

lemma run_goes_on:
  assumes "run_jobs es jobs_start = Some s" and "es \<noteq> []" and "\<And>r. main_at s \<noteq> JobsReturned r"
  shows "goes_on s"
proof -
  note inv = jobs_inv_run [OF assms(1)]
  have results: "command_running s \<or> (\<exists>c. commands_of es = [c])"
    using inv by (cases "command_running s") (auto simp: jobs_inv_def length_Suc_conv)
  show ?thesis
  proof (cases "main_at s")
    case Selecting
    then have "command_results s \<noteq> [] \<or> server_errors s \<noteq> []"
      using inv first_event [OF assms(1,2)] by (simp add: jobs_inv_def)
    then show ?thesis
    proof
      assume "command_results s \<noteq> []"
      with Selecting show ?thesis by (intro goes_onI [of s SelectsCommand]) (auto simp: neq_Nil_conv)
    next
      assume "server_errors s \<noteq> []"
      with Selecting show ?thesis by (intro goes_onI [of s SelectsServer]) (auto simp: neq_Nil_conv)
    qed
  next
    case (AwaitingCommand e)
    with inv have "ctx_cancelled s" "command_results s = commands_of es" by (simp_all add: jobs_inv_def)
    from results show ?thesis
    proof
      assume "command_running s"
      with \<open>ctx_cancelled s\<close> show ?thesis by (intro goes_onI [of s "CommandReturns (Ok 0)"]) simp_all
    next
      assume "\<exists>c. commands_of es = [c]"
      with AwaitingCommand \<open>command_results s = _\<close> show ?thesis
        by (intro goes_onI [of s TakesCommand]) auto
    qed
  next
    case (AwaitingServers r)
    with inv have c: "ctx_cancelled s" by (simp add: jobs_inv_def)
    show ?thesis
    proof (cases "running s")
      case Nil
      with AwaitingServers show ?thesis by (intro goes_onI [of s WaitEnds]) simp_all
    next
      case (Cons x xs)
      with c show ?thesis by (intro goes_onI [of s "ServerReturns x None"]) simp_all
    qed
  qed (use assms(3) in simp)
qed

section \<open>Properties\<close>

text \<open>
  C37: When the run with proxies has returned, both servers and the command have, the context is
  cancelled, and the result is decided: the error of the command if it has one; else, if the select
  took a server's error rather than the result of the command, the error of the server that
  returned first; and the exit code of the command otherwise.  Where both are ready the select may
  take either, whichever came first.
\<close>

theorem proxies_run_result:
  assumes "run_jobs es jobs_start = Some s" and "main_at s = JobsReturned r"
  shows "\<exists>c. commands_of es = [c] \<and> mset (servers_of es) = {# HTTPServer, SOCKSServer #} \<and>
    ctx_cancelled s \<and> \<not> command_running s \<and> running s = [] \<and>
    r = (case c of
           Inl e \<Rightarrow> Err (CommandError e)
         | Inr code \<Rightarrow> if SelectsServer \<in> set es then Err (server_error (hd (errors_of es))) else Ok code)"
  using jobs_inv_run [OF assms(1)] assms(2) by (auto simp: jobs_inv_def result_of_def)

theorem proxies_run_result_witness:
  "\<exists>s. run_jobs [ServerReturns SOCKSServer None, SelectsServer, CommandReturns (Ok 7), TakesCommand,
      ServerReturns HTTPServer None, WaitEnds] jobs_start = Some s \<and>
    main_at s = JobsReturned (Err ServerStoppedUnexpectedly) \<and> \<not> command_running s"
proof -
  let ?es = "[ServerReturns SOCKSServer None, SelectsServer, CommandReturns (Ok 7), TakesCommand,
      ServerReturns HTTPServer None, WaitEnds]"
  obtain s where r: "run_jobs ?es jobs_start = Some s" "main_at s = JobsReturned (Err ServerStoppedUnexpectedly)"
    by (simp add: jobs_start_def server_error_def)
  from proxies_run_result [OF this] r show ?thesis by blast
qed

text \<open>
  C38: The run cannot block for ever.  It has at most six steps, and it has returned exactly when
  no step is possible.  Once the first of the servers and the command has returned, a step is
  possible that does not need luck: one of the main goroutine, or the return of a server or of the
  command after the context was cancelled for them.
\<close>

theorem proxies_run_ends:
  assumes "run_jobs es jobs_start = Some s"
  shows "length es \<le> 6 \<and> ((\<exists>r. main_at s = JobsReturned r) \<longleftrightarrow> (\<forall>e. goroutine_step e s = None)) \<and>
    ((\<exists>r. main_at s = JobsReturned r) \<or> es = [] \<or> (\<exists>e. prompted s e \<and> goroutine_step e s \<noteq> None))"
proof -
  note inv = jobs_inv_run [OF assms]
  have "length es \<le> 6" using run_jobs_left [OF assms] by (simp add: jobs_start_def jobs_left_def)
  moreover have "goroutine_step e s = None" if "main_at s = JobsReturned r" for e r
    using inv that by (cases e) (auto simp: jobs_inv_def)
  moreover have "goroutine_step (CommandReturns (Ok 0)) s \<noteq> None" if "es = []"
    using assms that by (auto simp: jobs_start_def)
  moreover have "goes_on s" if "\<And>r. main_at s \<noteq> JobsReturned r" "es \<noteq> []"
    using run_goes_on [OF assms that(2,1)] .
  ultimately show ?thesis unfolding goes_on_def by metis
qed

theorem proxies_run_ends_witness:
  "\<exists>s. run_jobs [ServerReturns HTTPServer None, SelectsServer] jobs_start = Some s \<and>
    ctx_cancelled s \<and> command_running s \<and> (\<exists>e. prompted s e \<and> goroutine_step e s \<noteq> None)"
proof -
  obtain s where s: "run_jobs [ServerReturns HTTPServer None, SelectsServer] jobs_start = Some s"
    "main_at s = AwaitingCommand ServerStoppedUnexpectedly" "ctx_cancelled s" "command_running s"
    by (simp add: jobs_start_def server_error_def)
  with proxies_run_ends [OF s(1)] show ?thesis by auto
qed

end
