(* ===== verification/Cli_Config.thy ===== *)
theory Cli_Config
  imports Logging
begin

text \<open>
  internal/config/config.go and internal/cli/cli.go: the strict configuration file and the command
  line that is laid over it.  Outside the repository, and parameters here: reading the file, the
  YAML decoder of go.yaml.in/yaml/v3, and the flag parser of github.com/spf13/pflag.
\<close>

section \<open>The configuration file\<close>

record config =
  Allow :: "string list"
  Block :: "string list"
  Log :: string
  RestrictUnixSockets :: bool
  AllowUnresolvedRules :: bool
  KeepUnsafeCapabilities :: "string list"

definition empty_config :: config where
  "empty_config = \<lparr>Allow = [], Block = [], Log = [], RestrictUnixSockets = False,
     AllowUnresolvedRules = False, KeepUnsafeCapabilities = []\<rparr>"

text \<open>One call of \<open>Decode\<close>: the end of the input, an error, or a document.\<close>

datatype 'a decoded = EndOfInput | DecodeError string | Document 'a

text \<open>
  A decoder over the contents of a file, made with or without \<open>KnownFields\<close>; decoding into a
  \<open>Config\<close> or into an \<open>any\<close> returns the decoder behind the document.
\<close>

record 'd yaml_ops =
  yaml_decoder :: "string \<Rightarrow> bool \<Rightarrow> 'd"
  decode_config :: "'d \<Rightarrow> config decoded \<times> 'd"
  decode_any :: "'d \<Rightarrow> unit decoded \<times> 'd"

datatype config_error =
    ReadConfig string string
  | DecodeConfig string string
  | DecodeTrailing string string
  | MultipleDocuments string

definition Load ::
  "(string \<Rightarrow> (string, string) result) \<Rightarrow> 'd yaml_ops \<Rightarrow> string \<Rightarrow> (config_error, config) result" where
  "Load ReadFile yaml path =
     (case ReadFile path of
        Inl e \<Rightarrow> Err (ReadConfig path e)
      | Inr contents \<Rightarrow>
          (case decode_config yaml (yaml_decoder yaml contents True) of
             (EndOfInput, _) \<Rightarrow> Ok empty_config
           | (DecodeError e, _) \<Rightarrow> Err (DecodeConfig path e)
           | (Document loaded, decoder) \<Rightarrow>
               (case decode_any yaml decoder of
                  (EndOfInput, _) \<Rightarrow> Ok loaded
                | (DecodeError e, _) \<Rightarrow> Err (DecodeTrailing path e)
                | (Document _, _) \<Rightarrow> Err (MultipleDocuments path))))"

section \<open>The command line\<close>

record invocation =
  Config :: config
  Command :: "string list"
  Help :: bool
  Version :: bool

record flagValues =
  configPath :: string
  allowRules :: "string list"
  blockRules :: "string list"
  logLevel :: string
  allowUnresolved :: bool
  restrictUnixSockets :: bool
  keepUnsafeCapabilities :: "string list"
  version :: bool

text \<open>\<open>newFlagSet\<close> sets every value to the default of its flag.\<close>

definition flag_defaults :: flagValues where
  "flag_defaults = \<lparr>configPath = [], allowRules = [], blockRules = [], logLevel = ''warning'',
     allowUnresolved = False, restrictUnixSockets = False, keepUnsafeCapabilities = [],
     version = False\<rparr>"

text \<open>
  What parsing the arguments gives: \<open>pflag.ErrHelp\<close>, another error, or the values, the names of the
  flags that were given (\<open>Changed\<close>) and the remaining arguments.
\<close>

datatype parsed = HelpRequested | FlagError string | Parsed flagValues "string set" "string list"

datatype cli_error = ParseFlags string | LoadConfig config_error | CommandRequired

definition no_invocation :: invocation where
  "no_invocation = \<lparr>Config = empty_config, Command = [], Help = False, Version = False\<rparr>"

definition merge_flags :: "flagValues \<Rightarrow> string set \<Rightarrow> config \<Rightarrow> config" where
  "merge_flags values changed effective =
     \<lparr>Allow = Allow effective @ allowRules values,
      Block = Block effective @ blockRules values,
      Log = (if ''log'' \<in> changed \<or> Log effective = [] then logLevel values else Log effective),
      RestrictUnixSockets =
        (if ''restrict-sockets'' \<in> changed then restrictUnixSockets values
         else RestrictUnixSockets effective),
      AllowUnresolvedRules =
        (if ''allow-unresolved-rules'' \<in> changed then allowUnresolved values
         else AllowUnresolvedRules effective),
      KeepUnsafeCapabilities = KeepUnsafeCapabilities effective @ keepUnsafeCapabilities values\<rparr>"

definition Parse ::
  "(flagValues \<Rightarrow> string list \<Rightarrow> parsed) \<Rightarrow> (string \<Rightarrow> (config_error, config) result) \<Rightarrow> string list \<Rightarrow>
   (cli_error, invocation) result" where
  "Parse pflag load args =
     (case pflag flag_defaults args of
        HelpRequested \<Rightarrow> Ok (no_invocation\<lparr>Help := True\<rparr>)
      | FlagError e \<Rightarrow> Err (ParseFlags e)
      | Parsed values changed command \<Rightarrow>
          if version values then Ok (no_invocation\<lparr>Version := True\<rparr>)
          else
            rbind (if configPath values \<noteq> [] then rmap_err LoadConfig (load (configPath values))
                   else Ok empty_config) (\<lambda>effective.
              if command = [] then Err CommandRequired
              else Ok (no_invocation\<lparr>Config := merge_flags values changed effective,
                                     Command := command\<rparr>)))"

section \<open>The flags a user gives\<close>

datatype user_flag =
    FConfig string
  | FAllow string
  | FBlock string
  | FLog string
  | FUnresolved bool
  | FRestrict bool
  | FKeep string

definition bool_text :: "bool \<Rightarrow> string" where
  "bool_text b = (if b then ''true'' else ''false'')"

fun flag_name :: "user_flag \<Rightarrow> string" where
  "flag_name (FConfig _) = ''config''"
| "flag_name (FAllow _) = ''allow''"
| "flag_name (FBlock _) = ''block''"
| "flag_name (FLog _) = ''log''"
| "flag_name (FUnresolved _) = ''allow-unresolved-rules''"
| "flag_name (FRestrict _) = ''restrict-sockets''"
| "flag_name (FKeep _) = ''keep-unsafe-capability''"

fun flag_value :: "user_flag \<Rightarrow> string" where
  "flag_value (FConfig v) = v"
| "flag_value (FAllow v) = v"
| "flag_value (FBlock v) = v"
| "flag_value (FLog v) = v"
| "flag_value (FUnresolved b) = bool_text b"
| "flag_value (FRestrict b) = bool_text b"
| "flag_value (FKeep v) = v"

definition flag_text :: "user_flag \<Rightarrow> string" where
  "flag_text x = ''--'' @ flag_name x @ ''='' @ flag_value x"

fun set_flag :: "flagValues \<Rightarrow> user_flag \<Rightarrow> flagValues" where
  "set_flag f (FConfig v) = f\<lparr>configPath := v\<rparr>"
| "set_flag f (FAllow v) = f\<lparr>allowRules := allowRules f @ [v]\<rparr>"
| "set_flag f (FBlock v) = f\<lparr>blockRules := blockRules f @ [v]\<rparr>"
| "set_flag f (FLog v) = f\<lparr>logLevel := v\<rparr>"
| "set_flag f (FUnresolved b) = f\<lparr>allowUnresolved := b\<rparr>"
| "set_flag f (FRestrict b) = f\<lparr>restrictUnixSockets := b\<rparr>"
| "set_flag f (FKeep v) = f\<lparr>keepUnsafeCapabilities := keepUnsafeCapabilities f @ [v]\<rparr>"

text \<open>
  What the code relies on pflag for: a flag with a value sets its variable, or appends to it where it
  may be repeated; \<open>--\<close> ends the flags, and so does the first argument that is no flag, because
  interspersed flags are switched off.
\<close>

definition public_pflag_laws :: "(flagValues \<Rightarrow> string list \<Rightarrow> parsed) \<Rightarrow> bool" where
  "public_pflag_laws parse \<longleftrightarrow> (\<forall>f x a rest.
     parse f (flag_text x # rest) =
       (case parse (set_flag f x) rest of
          Parsed values changed command \<Rightarrow> Parsed values (insert (flag_name x) changed) command
        | other \<Rightarrow> other) \<and>
     parse f (''--'' # rest) = Parsed f {} rest \<and>
     (\<not> HasPrefix a ''-'' \<longrightarrow> parse f (a # rest) = Parsed f {} (a # rest)))"

lemma parse_flags:
  assumes "public_pflag_laws parse"
    and "parse (foldl set_flag f fs) rest = Parsed values changed command"
  shows "parse f (map flag_text fs @ rest) = Parsed values (flag_name ` set fs \<union> changed) command"
  using assms(2)
proof (induction fs arbitrary: f)
  case (Cons x fs)
  have "parse f (flag_text x # xs) =
       (case parse (set_flag f x) xs of
          Parsed values changed command \<Rightarrow> Parsed values (insert (flag_name x) changed) command
        | other \<Rightarrow> other)" for xs
    using assms(1) unfolding public_pflag_laws_def by blast
  with Cons show ?case by simp
qed simp

text \<open>What the flags say, kind by kind.\<close>

definition configs :: "user_flag list \<Rightarrow> string list" where
  "configs fs = concat (map (\<lambda>x. case x of FConfig v \<Rightarrow> [v] | _ \<Rightarrow> []) fs)"
definition allows :: "user_flag list \<Rightarrow> string list" where
  "allows fs = concat (map (\<lambda>x. case x of FAllow v \<Rightarrow> [v] | _ \<Rightarrow> []) fs)"
definition blocks :: "user_flag list \<Rightarrow> string list" where
  "blocks fs = concat (map (\<lambda>x. case x of FBlock v \<Rightarrow> [v] | _ \<Rightarrow> []) fs)"
definition log_levels :: "user_flag list \<Rightarrow> string list" where
  "log_levels fs = concat (map (\<lambda>x. case x of FLog v \<Rightarrow> [v] | _ \<Rightarrow> []) fs)"
definition unresolveds :: "user_flag list \<Rightarrow> bool list" where
  "unresolveds fs = concat (map (\<lambda>x. case x of FUnresolved b \<Rightarrow> [b] | _ \<Rightarrow> []) fs)"
definition restricts :: "user_flag list \<Rightarrow> bool list" where
  "restricts fs = concat (map (\<lambda>x. case x of FRestrict b \<Rightarrow> [b] | _ \<Rightarrow> []) fs)"
definition keeps :: "user_flag list \<Rightarrow> string list" where
  "keeps fs = concat (map (\<lambda>x. case x of FKeep v \<Rightarrow> [v] | _ \<Rightarrow> []) fs)"

lemmas flag_lists = configs_def allows_def blocks_def log_levels_def unresolveds_def restricts_def keeps_def

lemma foldl_set_flag:
  "foldl set_flag f fs =
     \<lparr>configPath = last (configPath f # configs fs), allowRules = allowRules f @ allows fs,
      blockRules = blockRules f @ blocks fs, logLevel = last (logLevel f # log_levels fs),
      allowUnresolved = last (allowUnresolved f # unresolveds fs),
      restrictUnixSockets = last (restrictUnixSockets f # restricts fs),
      keepUnsafeCapabilities = keepUnsafeCapabilities f @ keeps fs, version = version f\<rparr>"
proof (induction fs arbitrary: f)
  case Nil
  then show ?case by (simp add: flag_lists)
next
  case (Cons x fs)
  then show ?case by (cases x) (simp_all add: flag_lists)
qed

lemma changed_iff:
  "''log'' \<in> flag_name ` set fs \<longleftrightarrow> log_levels fs \<noteq> []"
  "''restrict-sockets'' \<in> flag_name ` set fs \<longleftrightarrow> restricts fs \<noteq> []"
  "''allow-unresolved-rules'' \<in> flag_name ` set fs \<longleftrightarrow> unresolveds fs \<noteq> []"
proof -
  have n: "(''log'' = flag_name x) = (case x of FLog v \<Rightarrow> True | _ \<Rightarrow> False)"
    "(''restrict-sockets'' = flag_name x) = (case x of FRestrict v \<Rightarrow> True | _ \<Rightarrow> False)"
    "(''allow-unresolved-rules'' = flag_name x) = (case x of FUnresolved v \<Rightarrow> True | _ \<Rightarrow> False)" for x
    by (cases x; simp)+
  show "''log'' \<in> flag_name ` set fs \<longleftrightarrow> log_levels fs \<noteq> []"
    "''restrict-sockets'' \<in> flag_name ` set fs \<longleftrightarrow> restricts fs \<noteq> []"
    "''allow-unresolved-rules'' \<in> flag_name ` set fs \<longleftrightarrow> unresolveds fs \<noteq> []"
    unfolding image_iff n flag_lists by (auto split: user_flag.splits)
qed

definition config_of ::
  "(string \<Rightarrow> (config_error, config) result) \<Rightarrow> user_flag list \<Rightarrow> (config_error, config) result" where
  "config_of load fs =
     (let path = last ([] # configs fs) in if path = [] then Ok empty_config else load path)"

text \<open>
  C36: A command line of flags, in any order, and a command, after \<open>--\<close> or starting with an argument
  that is no flag: the command is taken word for word; the rules and kept capabilities are those
  of the file of the last \<open>--config\<close>, then those of the flags in their order; the log level is
  the last one given, else that of the file, else warning; a switch is as it was last given,
  else as in the file; and an error in the file is reported.
\<close>

theorem command_line_over_file:
  assumes "public_pflag_laws parse" and "command \<noteq> []"
    and "rest = ''--'' # command \<or> rest = command \<and> \<not> HasPrefix (hd command) ''-''"
  shows "Parse parse load (map flag_text fs @ rest) =
    rbind (rmap_err LoadConfig (config_of load fs)) (\<lambda>file. Ok
      \<lparr>Config =
         \<lparr>Allow = Allow file @ allows fs, Block = Block file @ blocks fs,
          Log = (if log_levels fs = [] \<and> Log file \<noteq> [] then Log file else last (''warning'' # log_levels fs)),
          RestrictUnixSockets = last (RestrictUnixSockets file # restricts fs),
          AllowUnresolvedRules = last (AllowUnresolvedRules file # unresolveds fs),
          KeepUnsafeCapabilities = KeepUnsafeCapabilities file @ keeps fs\<rparr>,
       Command = command, Help = False, Version = False\<rparr>)"
proof -
  let ?given = "foldl set_flag flag_defaults fs"
  have "parse ?given rest = Parsed ?given {} command"
    using assms unfolding public_pflag_laws_def by (cases command) auto
  from parse_flags [OF assms(1) this]
  have p: "parse flag_defaults (map flag_text fs @ rest) = Parsed ?given (flag_name ` set fs) command"
    by simp
  have v: "?given = \<lparr>configPath = last ([] # configs fs), allowRules = allows fs, blockRules = blocks fs,
      logLevel = last (''warning'' # log_levels fs), allowUnresolved = last (False # unresolveds fs),
      restrictUnixSockets = last (False # restricts fs), keepUnsafeCapabilities = keeps fs, version = False\<rparr>"
    unfolding foldl_set_flag by (simp add: flag_defaults_def)
  have m: "merge_flags ?given (flag_name ` set fs) c =
      \<lparr>Allow = Allow c @ allows fs, Block = Block c @ blocks fs,
       Log = (if log_levels fs = [] \<and> Log c \<noteq> [] then Log c else last (''warning'' # log_levels fs)),
       RestrictUnixSockets = last (RestrictUnixSockets c # restricts fs),
       AllowUnresolvedRules = last (AllowUnresolvedRules c # unresolveds fs),
       KeepUnsafeCapabilities = KeepUnsafeCapabilities c @ keeps fs\<rparr>" for c
    unfolding merge_flags_def changed_iff v by auto
  have "Parse parse load (map flag_text fs @ rest) =
      rbind (rmap_err LoadConfig (config_of load fs))
        (\<lambda>effective. Ok (no_invocation\<lparr>Config := merge_flags ?given (flag_name ` set fs) effective,
           Command := command\<rparr>))"
    unfolding Parse_def p parsed.case using assms(2) by (auto simp: v config_of_def Let_def)
  then show ?thesis unfolding m by (simp add: no_invocation_def)
qed

section \<open>An example\<close>

text \<open>A parser of flags written with an equals sign, and a configuration file.\<close>

definition demo_switch :: "(bool \<Rightarrow> user_flag) \<Rightarrow> string \<Rightarrow> user_flag option" where
  "demo_switch mk v = (if v = ''true'' then Some (mk True) else if v = ''false'' then Some (mk False) else None)"

definition demo_read :: "string \<Rightarrow> user_flag option" where
  "demo_read t =
     (case Cut t CHR ''='' of (n, v, found) \<Rightarrow>
        if \<not> found then None
        else if n = ''--config'' then Some (FConfig v)
        else if n = ''--allow'' then Some (FAllow v)
        else if n = ''--block'' then Some (FBlock v)
        else if n = ''--log'' then Some (FLog v)
        else if n = ''--allow-unresolved-rules'' then demo_switch FUnresolved v
        else if n = ''--restrict-sockets'' then demo_switch FRestrict v
        else if n = ''--keep-unsafe-capability'' then Some (FKeep v)
        else None)"

lemma demo_read_text: "demo_read (flag_text x) = Some x"
proof -
  have "CHR ''='' \<notin> set (''--'' @ flag_name x)" by (cases x) simp_all
  then have "Cut (flag_text x) CHR ''='' = (''--'' @ flag_name x, flag_value x, True)"
    using IndexByte_append [of "CHR ''=''" "''--'' @ flag_name x" "flag_value x"]
    by (simp add: Cut_def flag_text_def)
  then show ?thesis by (cases x) (simp_all add: demo_read_def demo_switch_def bool_text_def)
qed

fun demo_public :: "flagValues \<Rightarrow> string list \<Rightarrow> parsed" where
  "demo_public f [] = Parsed f {} []"
| "demo_public f (a # rest) =
     (if a = ''--'' then Parsed f {} rest
      else if \<not> HasPrefix a ''-'' then Parsed f {} (a # rest)
      else (case demo_read a of
          None \<Rightarrow> FlagError a
        | Some x \<Rightarrow>
            (case demo_public (set_flag f x) rest of
               Parsed values changed command \<Rightarrow> Parsed values (insert (flag_name x) changed) command
             | other \<Rightarrow> other)))"

lemma demo_public_laws: "public_pflag_laws demo_public"
proof -
  have "flag_text x \<noteq> ''--''" "HasPrefix (flag_text x) ''-''" for x
    by (simp_all add: flag_text_def HasPrefix_def)
  then show ?thesis
    unfolding public_pflag_laws_def by (auto simp: demo_read_text HasPrefix_def)
qed

definition demo_yaml :: "nat yaml_ops" where
  "demo_yaml = \<lparr>yaml_decoder = (\<lambda>contents known. if contents = [] then 0 else 1),
     decode_config = (\<lambda>d. if d = 0 then (EndOfInput, d)
        else (Document (empty_config\<lparr>Block := [''10.0.0.0/8''], Log := ''info''\<rparr>), d - 1)),
     decode_any = (\<lambda>d. if d = 0 then (EndOfInput, d) else (Document (), d - 1))\<rparr>"

theorem command_line_over_file_witness:
  "Parse demo_public (Load (\<lambda>path. Ok ''block: [10.0.0.0/8]'') demo_yaml)
     (map flag_text [FBlock ''192.168.0.0/16'', FConfig ''airjail.yaml'', FRestrict True] @ [''curl'', ''--allow=x'']) =
   Ok \<lparr>Config = \<lparr>Allow = [], Block = [''10.0.0.0/8'', ''192.168.0.0/16''], Log = ''info'',
         RestrictUnixSockets = True, AllowUnresolvedRules = False, KeepUnsafeCapabilities = []\<rparr>,
       Command = [''curl'', ''--allow=x''], Help = False, Version = False\<rparr>"
proof -
  have "Load (\<lambda>path. Ok ''block: [10.0.0.0/8]'') demo_yaml ''airjail.yaml'' =
      Ok (empty_config\<lparr>Block := [''10.0.0.0/8''], Log := ''info''\<rparr>)" by code_simp
  then show ?thesis
    using command_line_over_file [OF demo_public_laws, of "[''curl'', ''--allow=x'']" "[''curl'', ''--allow=x'']"
        "Load (\<lambda>path. Ok ''block: [10.0.0.0/8]'') demo_yaml"
        "[FBlock ''192.168.0.0/16'', FConfig ''airjail.yaml'', FRestrict True]"]
    by (simp add: HasPrefix_def config_of_def flag_lists empty_config_def)
qed

end
