(* ===== verification/Child_Environment.thy ===== *)
theory Child_Environment
  imports Environment Supervisor
begin

text \<open>
  \<open>childEnvironment\<close> of internal/application/application.go: the outer proxy variables, which may
  hold credentials, are taken out of the command's environment, and with proxies the addresses
  inside the namespace are put in.  The environment is read back with \<open>environmentMap\<close>, the reading
  that airjail itself applies (the last entry of a name wins).
\<close>

definition childProxyNames :: "string list" where
  "childProxyNames =
     [''HTTP_PROXY'', ''HTTPS_PROXY'', ''ALL_PROXY'', ''GRPC_PROXY'', ''FTP_PROXY'', ''NO_PROXY'',
      ''http_proxy'', ''https_proxy'', ''all_proxy'', ''grpc_proxy'', ''ftp_proxy'', ''no_proxy'']"

definition innerProxyEntries :: "string list" where
  "innerProxyEntries =
     [''HTTP_PROXY=http://'' @ HTTPAddress, ''HTTPS_PROXY=http://'' @ HTTPAddress,
      ''ALL_PROXY=http://'' @ HTTPAddress, ''GRPC_PROXY=http://'' @ HTTPAddress,
      ''FTP_PROXY=socks5h://'' @ SOCKAddress, ''http_proxy=http://'' @ HTTPAddress,
      ''https_proxy=http://'' @ HTTPAddress, ''all_proxy=http://'' @ HTTPAddress,
      ''grpc_proxy=http://'' @ HTTPAddress, ''ftp_proxy=socks5h://'' @ SOCKAddress,
      ''NO_PROXY='', ''no_proxy='']"

definition keeps_entry :: "string \<Rightarrow> bool" where
  "keeps_entry entry \<longleftrightarrow>
     (case Cut entry CHR ''='' of (name, _, found) \<Rightarrow> \<not> (found \<and> name \<in> set childProxyNames))"

definition childEnvironment :: "string list \<Rightarrow> bool \<Rightarrow> string list" where
  "childEnvironment original proxyMode =
     (let environment = filter keeps_entry original
      in if \<not> proxyMode then environment else environment @ innerProxyEntries)"

text \<open>What the inner entries say, by name.\<close>

definition innerProxy :: "string \<rightharpoonup> string" where
  "innerProxy = map_of
     [(''HTTP_PROXY'', ''http://127.0.0.1:19080''), (''HTTPS_PROXY'', ''http://127.0.0.1:19080''),
      (''ALL_PROXY'', ''http://127.0.0.1:19080''), (''GRPC_PROXY'', ''http://127.0.0.1:19080''),
      (''FTP_PROXY'', ''socks5h://127.0.0.1:19081''), (''http_proxy'', ''http://127.0.0.1:19080''),
      (''https_proxy'', ''http://127.0.0.1:19080''), (''all_proxy'', ''http://127.0.0.1:19080''),
      (''grpc_proxy'', ''http://127.0.0.1:19080''), (''ftp_proxy'', ''socks5h://127.0.0.1:19081''),
      (''NO_PROXY'', []), (''no_proxy'', [])]"

lemma environment_from_add: "environment_from m env = m ++ environmentMap env"
proof -
  have "environment_from (m ++ m') env = m ++ environment_from m' env" for m'
  proof (induction env arbitrary: m')
    case (Cons e env)
    obtain n x found where c: "Cut e CHR ''='' = (n, x, found)" by (metis surj_pair)
    have "environment_from (m ++ m') (e # env) =
        environment_from (m ++ (if found then m'(n \<mapsto> x) else m')) env"
      by (simp only: environment_from.simps c prod.case) simp
    also have "\<dots> = m ++ environment_from (if found then m'(n \<mapsto> x) else m') env" by (rule Cons)
    also have "\<dots> = m ++ environment_from m' (e # env)" by (simp only: environment_from.simps c prod.case)
    finally show ?case .
  qed simp
  from this [of Map.empty] show ?thesis by (simp add: environmentMap_def)
qed

lemma environmentMap_Cons:
  "environmentMap (e # env) v =
     (case environmentMap env v of
        Some x \<Rightarrow> Some x
      | None \<Rightarrow> (case Cut e CHR ''='' of (n, x, found) \<Rightarrow> if found \<and> n = v then Some x else None))"
  by (auto simp: environmentMap_def environment_from_add [of "_(_ \<mapsto> _)", unfolded environmentMap_def]
      map_add_def split: prod.splits option.splits)

lemma environmentMap_filter:
  "environmentMap (filter keeps_entry env) v =
     (if v \<in> set childProxyNames then None else environmentMap env v)"
proof (induction env)
  case Nil
  then show ?case by (simp add: environmentMap_def)
next
  case (Cons e env)
  obtain n x found where c: "Cut e CHR ''='' = (n, x, found)" by (metis surj_pair)
  then have k: "keeps_entry e \<longleftrightarrow> \<not> (found \<and> n \<in> set childProxyNames)" by (simp add: keeps_entry_def)
  show ?case
  proof (cases "keeps_entry e")
    case True
    with k have "found \<Longrightarrow> n = v \<Longrightarrow> v \<notin> set childProxyNames" by auto
    with True Cons c show ?thesis
      by (auto simp: environmentMap_Cons split: option.splits)
  next
    case False
    with k have "v \<notin> set childProxyNames \<Longrightarrow> \<not> (found \<and> n = v)" by auto
    with False Cons c show ?thesis
      by (auto simp: environmentMap_Cons split: option.splits)
  qed
qed

definition entry_values :: "string list \<Rightarrow> (string \<times> string) list" where
  "entry_values env =
     map (\<lambda>(n, x, found). (n, x)) (filter (\<lambda>(n, x, found). found) (map (\<lambda>e. Cut e CHR ''='') env))"

lemma environmentMap_entries: "environmentMap env = map_of (rev (entry_values env))"
proof (rule ext, induction env)
  case Nil
  then show ?case by (simp add: environmentMap_def entry_values_def)
next
  case (Cons e env)
  obtain n x found where c: "Cut e CHR ''='' = (n, x, found)" by (metis surj_pair)
  then have "entry_values (e # env) = (if found then [(n, x)] else []) @ entry_values env"
    by (simp add: entry_values_def)
  with Cons c show ?case
    by (auto simp: environmentMap_Cons map_of_append map_add_def split: option.splits)
qed

lemma environmentMap_append: "environmentMap (xs @ ys) = environmentMap xs ++ environmentMap ys"
  by (simp add: environmentMap_entries entry_values_def map_of_append)

lemma map_of_rev_distinct:
  assumes "distinct (map fst xs)"
  shows "map_of (rev xs) = map_of xs"
  using assms by (metis distinct_rev map_of_inject_set rev_map set_rev)

lemma innerProxy_names: "innerProxy v \<noteq> None \<longleftrightarrow> v \<in> set childProxyNames"
proof -
  have "dom innerProxy = set childProxyNames"
    unfolding innerProxy_def childProxyNames_def by (simp only: dom_map_of_conv_image_fst set_simps
        image_insert image_empty fst_conv insert_commute)
  then show ?thesis by (metis domIff)
qed

lemma inner_values: "entry_values innerProxyEntries =
    [(''HTTP_PROXY'', ''http://127.0.0.1:19080''), (''HTTPS_PROXY'', ''http://127.0.0.1:19080''),
     (''ALL_PROXY'', ''http://127.0.0.1:19080''), (''GRPC_PROXY'', ''http://127.0.0.1:19080''),
     (''FTP_PROXY'', ''socks5h://127.0.0.1:19081''), (''http_proxy'', ''http://127.0.0.1:19080''),
     (''https_proxy'', ''http://127.0.0.1:19080''), (''all_proxy'', ''http://127.0.0.1:19080''),
     (''grpc_proxy'', ''http://127.0.0.1:19080''), (''ftp_proxy'', ''socks5h://127.0.0.1:19081''),
     (''NO_PROXY'', []), (''no_proxy'', [])]"
  by code_simp

lemma inner_map: "environmentMap innerProxyEntries = innerProxy"
proof -
  have "distinct (map fst (entry_values innerProxyEntries))" by code_simp
  then have "environmentMap innerProxyEntries = map_of (entry_values innerProxyEntries)"
    by (simp only: environmentMap_entries map_of_rev_distinct)
  then show ?thesis by (simp only: inner_values innerProxy_def)
qed

lemma childEnvironment_map:
  "environmentMap (childEnvironment env proxies) v =
     (if v \<in> set childProxyNames then (if proxies then innerProxy v else None) else environmentMap env v)"
  using innerProxy_names [of v]
  by (auto simp: childEnvironment_def environmentMap_append environmentMap_filter inner_map map_add_def
      split: option.splits)

text \<open>An airjail started inside the command routes through the outer one's HTTP proxy.\<close>

lemma nested_proxy:
  "firstEnvironment (environmentMap (childEnvironment env proxies)) proxy_names =
     (if proxies then ''http://127.0.0.1:19080'' else [])"
proof -
  have names: "\<forall>v \<in> set proxy_names. v \<in> set childProxyNames" by code_simp
  have first: "innerProxy ''HTTPS_PROXY'' = Some ''http://127.0.0.1:19080''" by code_simp
  have none: "\<forall>v \<in> set names. m v = None \<Longrightarrow> firstEnvironment m names = []" for m names
    by (induction names) simp_all
  show ?thesis
  proof (cases proxies)
    case True
    have "''HTTPS_PROXY'' \<in> set childProxyNames" by code_simp
    with True first have "environmentMap (childEnvironment env proxies) ''HTTPS_PROXY'' =
        Some ''http://127.0.0.1:19080''" by (simp only: childEnvironment_map if_True)
    moreover have "firstEnvironment m proxy_names = (case m ''HTTPS_PROXY'' of
        Some u \<Rightarrow> if u \<noteq> [] then u else firstEnvironment m (tl proxy_names)
      | None \<Rightarrow> firstEnvironment m (tl proxy_names))" for m
      by (simp only: proxy_names_def firstEnvironment.simps list.sel)
    ultimately show ?thesis using True by simp
  next
    case False
    with names have "\<forall>v \<in> set proxy_names. environmentMap (childEnvironment env proxies) v = None"
      unfolding childEnvironment_map by simp
    with False none show ?thesis by simp
  qed
qed

text \<open>
  C32: Reading the child's environment: a proxy name has exactly the value that points at the
  proxies inside the namespace, or no value without them, and every other name is as it was; an
  entry without an equals sign is kept; the choice of an upstream proxy, made in the child,
  gives the outer airjail's HTTP proxy.
\<close>

theorem child_environment:
  "environmentMap (childEnvironment env proxies) v =
     (if v \<in> set childProxyNames then (if proxies then innerProxy v else None) else environmentMap env v) \<and>
   (innerProxy v \<noteq> None \<longleftrightarrow> v \<in> set childProxyNames) \<and>
   set env \<inter> {e. CHR ''='' \<notin> set e} \<subseteq> set (childEnvironment env proxies) \<and>
   firstEnvironment (environmentMap (childEnvironment env proxies)) proxy_names =
     (if proxies then ''http://127.0.0.1:19080'' else [])"
proof -
  have "keeps_entry e" if "CHR ''='' \<notin> set e" for e
    using that by (auto simp: keeps_entry_def Cut_def dest: IndexByte_None [THEN iffD2])
  then have "set env \<inter> {e. CHR ''='' \<notin> set e} \<subseteq> set (childEnvironment env proxies)"
    by (auto simp: childEnvironment_def Let_def)
  then show ?thesis using childEnvironment_map innerProxy_names nested_proxy by blast
qed

end
