(* ===== verification/Application.thy ===== *)
theory Application
  imports Jobs Runtime_Dir Cli_Config Child_Environment Policy
begin

text \<open>
  internal/application/application.go: \<open>Run\<close>, one invocation of airjail, and \<open>runWithProxies\<close>, which
  holds the session directory, the listeners and the servers around the run of the command.  The
  operating system is the record \<open>app_ops\<close>, acting on \<open>'w\<close>; the state keeps a trail of what was
  started and released, in order.  A deferred call is made when the body it belongs to has returned.
\<close>

section \<open>The outside\<close>

text \<open>
  \<open>ap_environ\<close> is \<open>os.Environ()\<close>, \<open>ap_term\<close> what the logger finds out about stderr, \<open>ap_listen\<close> and \<open>ap_close\<close>
  act on Unix listeners (\<open>net.ErrClosed\<close> counts as success), \<open>ap_socks\<close> is the error of making the
  SOCKS backend.
\<close>

record 'w app_ops =
  ap_caps :: "'w cap_ops"
  ap_procs :: "'w proc_ops"
  ap_fs :: "'w fs_ops"
  ap_resolver :: "'w resolver"
  ap_getwd :: "'w \<Rightarrow> (string, string) result \<times> 'w"
  ap_executable :: "'w \<Rightarrow> (string, string) result \<times> 'w"
  ap_environ :: "string list"
  ap_uid :: int
  ap_gid :: int
  ap_term :: "bool option"
  ap_getgroups :: "'w \<Rightarrow> (string, int list) result \<times> 'w"
  ap_group_name :: "int \<Rightarrow> 'w \<Rightarrow> string option \<times> 'w"
  ap_listen :: "string \<Rightarrow> 'w \<Rightarrow> (string, nat) result \<times> 'w"
  ap_close :: "nat \<Rightarrow> 'w \<Rightarrow> string option \<times> 'w"
  ap_parse_url :: "string \<Rightarrow> url option"
  ap_no_proxy :: "string \<Rightarrow> string \<Rightarrow> (string, bool) result"
  ap_socks :: "'w \<Rightarrow> string option \<times> 'w"

text \<open>\<open>os.Getenv\<close>: the first entry of the name, or the empty string.\<close>

fun Getenv :: "string list \<Rightarrow> string \<Rightarrow> string" where
  "Getenv [] name = []"
| "Getenv (entry # env) name =
     (case Cut entry CHR ''='' of
        (n, v, found) \<Rightarrow> if found \<and> n = name then v else Getenv env name)"

datatype app_error =
    CommandLine cli_error
  | GetWorkingDirectory string
  | LocateAirjail string
  | SetupLogger string
  | DetectModeFailed cap_error
  | NonDumpableFailed cap_error
  | PolicyFailed policy_error
  | IsolatedRun launch_error
  | SessionFailed runtime_error
  | ListenHTTP string
  | ListenSOCKS string
  | RouterFailed env_error
  | SocksFailed string
  | ProxiedRun run_error

datatype app_action =
    HelpWritten
  | VersionWritten
  | SessionMade runtimeDir
  | Listens nat string
  | ServersStarted policy router nat nat
  | CommandRan parent_options "proc_action list"
  | ListenerClosed nat
  | SessionClosed runtimeDir

record 'w app =
  aw :: 'w
  trail :: "app_action list"

definition note_action :: "app_action \<Rightarrow> 'w \<Rightarrow> 'w app \<Rightarrow> 'w app" where
  "note_action a w st = st\<lparr>aw := w, trail := trail st @ [a]\<rparr>"

type_synonym 'w outcome = "((app_error, nat) result \<times> 'w app) option"

section \<open>Supplementary groups\<close>

text \<open>
  What is logged: nothing, the error of \<open>os.Getgroups\<close>, or the names of the groups that are lost; a
  group without a name is written as its number (\<open>strconv.Itoa\<close>).
\<close>

datatype group_log = GroupsFailed string | GroupsLost string

fun group_names :: "'w app_ops \<Rightarrow> int list \<Rightarrow> 'w \<Rightarrow> string list \<times> 'w" where
  "group_names ops [] w = ([], w)"
| "group_names ops (gid # groups) w =
     (if gid = ap_gid ops then group_names ops groups w
      else
        (case ap_group_name ops gid w of
           (g, w) \<Rightarrow>
             (case group_names ops groups w of
                (names, w) \<Rightarrow>
                  ((case g of None \<Rightarrow> Sprint_int gid | Some name \<Rightarrow> name) # names, w))))"

fun join_comma :: "string list \<Rightarrow> string" where
  "join_comma [] = []"
| "join_comma [s] = s"
| "join_comma (s # t # ts) = s @ '', '' @ join_comma (t # ts)"

definition logSupplementaryGroupLimitation :: "'w app_ops \<Rightarrow> 'w \<Rightarrow> group_log option \<times> 'w" where
  "logSupplementaryGroupLimitation ops w =
     (case ap_getgroups ops w of
        (Inl e, w) \<Rightarrow> (Some (GroupsFailed e), w)
      | (Inr groups, w) \<Rightarrow>
          (case group_names ops groups w of
             (supplementaryGroups, w) \<Rightarrow>
               (if supplementaryGroups = [] then None else Some (GroupsLost (join_comma supplementaryGroups)), w)))"

section \<open>The run of the command\<close>

definition namespace_run ::
  "text_lib \<Rightarrow> 'w app_ops \<Rightarrow> thread \<Rightarrow> parent_options \<Rightarrow> 'w app \<Rightarrow> (command_result \<times> 'w app) option" where
  "namespace_run tx ops t options st =
     (case Run tx (ap_caps ops) (ap_procs ops) (ap_uid ops) (ap_gid ops) t options
         \<lparr>pw = aw st, acts = []\<rparr> of
        None \<Rightarrow> None
      | Some (r, _, p) \<Rightarrow> Some (r, note_action (CommandRan options (acts p)) (pw p) st))"

text \<open>Listening on a socket around a body, with the deferred close.\<close>

definition with_listener ::
  "'w app_ops \<Rightarrow> string \<Rightarrow> (string \<Rightarrow> app_error) \<Rightarrow> (nat \<Rightarrow> 'w app \<Rightarrow> 'w outcome) \<Rightarrow> 'w app \<Rightarrow> 'w outcome" where
  "with_listener ops path failed body st =
     (case ap_listen ops path (aw st) of
        (Inl e, w) \<Rightarrow> Some (Err (failed e), st\<lparr>aw := w\<rparr>)
      | (Inr l, w) \<Rightarrow>
          (case body l (note_action (Listens l path) w st) of
             None \<Rightarrow> None
           | Some (r, st) \<Rightarrow> Some (r, note_action (ListenerClosed l) (snd (ap_close ops l (aw st))) st)))"

text \<open>
  The body: the router, the servers and the command.  \<open>before\<close> and \<open>after\<close> are the steps of the goroutines
  around the return of the command; \<open>None\<close> when they do not lead to the end of the run.
\<close>

definition serve_and_run ::
  "text_lib \<Rightarrow> 'w app_ops \<Rightarrow> thread \<Rightarrow> goroutine_event list \<Rightarrow> goroutine_event list \<Rightarrow> policy \<Rightarrow>
   parent_options \<Rightarrow> nat \<Rightarrow> nat \<Rightarrow> 'w app \<Rightarrow> 'w outcome" where
  "serve_and_run tx ops t before after p options httpListener socksListener st =
     (case NewEnvironmentRouter tx (ap_parse_url ops) (ap_no_proxy ops) (ap_environ ops) of
        Inl e \<Rightarrow> Some (Err (RouterFailed e), st)
      | Inr router \<Rightarrow>
          (case ap_socks ops (aw st) of
             (Some e, w) \<Rightarrow> Some (Err (SocksFailed e), st\<lparr>aw := w\<rparr>)
           | (None, w) \<Rightarrow>
               (case namespace_run tx ops t options
                   (note_action (ServersStarted p router httpListener socksListener) w st) of
                  None \<Rightarrow> None
                | Some (r, st) \<Rightarrow>
                    (case run_jobs (before @ CommandReturns r # after) jobs_start of
                       None \<Rightarrow> None
                     | Some js \<Rightarrow>
                         (case main_at js of
                            JobsReturned result \<Rightarrow> Some (rmap_err ProxiedRun result, st)
                          | _ \<Rightarrow> None)))))"

definition runWithProxies ::
  "text_lib \<Rightarrow> 'w app_ops \<Rightarrow> thread \<Rightarrow> goroutine_event list \<Rightarrow> goroutine_event list \<Rightarrow> policy \<Rightarrow>
   parent_options \<Rightarrow> 'w app \<Rightarrow> 'w outcome" where
  "runWithProxies tx ops t before after p options st =
     (case createRuntimeDir (ap_fs ops) (ap_uid ops) (Getenv (ap_environ ops) ''XDG_RUNTIME_DIR'') (aw st) of
        (Inl e, w) \<Rightarrow> Some (Err (SessionFailed e), st\<lparr>aw := w\<rparr>)
      | (Inr runDir, w) \<Rightarrow>
          (case with_listener ops (HTTPSocket runDir) ListenHTTP
              (\<lambda>httpListener. with_listener ops (SOCKSocket runDir) ListenSOCKS
                (serve_and_run tx ops t before after p
                  (options\<lparr>po_HTTPSocket := HTTPSocket runDir, po_SOCKSocket := SOCKSocket runDir\<rparr>)
                  httpListener))
              (note_action (SessionMade runDir) w st) of
             None \<Rightarrow> None
           | Some (r, st) \<Rightarrow>
               Some (r, note_action (SessionClosed runDir) (snd (runtime_Close (ap_fs ops) runDir (aw st))) st)))"

section \<open>Run\<close>

text \<open>Up to the policy: the options of the command, without sockets, and the policy.\<close>

definition application_start ::
  "text_lib \<Rightarrow> 'w app_ops \<Rightarrow> thread \<Rightarrow> invocation \<Rightarrow> 'w \<Rightarrow>
   (app_error, parent_options \<times> policy) result \<times> 'w" where
  "application_start tx ops t call w =
     (case ap_getwd ops w of
        (Inl e, w) \<Rightarrow> (Err (GetWorkingDirectory e), w)
      | (Inr workingDirectory, w) \<Rightarrow>
     (case ap_executable ops w of
        (Inl e, w) \<Rightarrow> (Err (LocateAirjail e), w)
      | (Inr exe, w) \<Rightarrow>
     (case new_logger tx True (ap_term ops) (Log (Config call)) [] of
        Inl e \<Rightarrow> (Err (SetupLogger e), w)
      | Inr lg \<Rightarrow>
     (case DetectMode (ap_caps ops) t w of
        (Inl e, w) \<Rightarrow> (Err (DetectModeFailed e), w)
      | (Inr namespaceMode, w) \<Rightarrow>
     (case (if namespaceMode = PermissionPreservingMode then SetNonDumpable (ap_caps ops) w else (Ok (), w)) of
        (Inl e, w) \<Rightarrow> (Err (NonDumpableFailed e), w)
      | (Inr _, w) \<Rightarrow>
     (let w = (if namespaceMode = RootlessMode then snd (logSupplementaryGroupLimitation ops w) else w) in
      case new_policy tx (ap_resolver ops) (AllowUnresolvedRules (Config call))
          (Allow (Config call)) (Block (Config call)) w of
        (Inl e, ns) \<Rightarrow> (Err (PolicyFailed e), world ns)
      | (Inr networkPolicy, ns) \<Rightarrow>
          (Ok (\<lparr>po_Executable = exe, po_Command = Command call,
                po_Environment = childEnvironment (ap_environ ops) (\<not> policy_empty networkPolicy),
                po_Directory = workingDirectory, po_HTTPSocket = [], po_SOCKSocket = [],
                po_Mode = namespaceMode,
                po_RestrictUnixSockets = RestrictUnixSockets (Config call),
                po_KeepUnsafeCapabilities = KeepUnsafeCapabilities (Config call),
                po_Logger = lg\<rparr>, networkPolicy), world ns)))))))"

definition application_Run ::
  "text_lib \<Rightarrow> (flagValues \<Rightarrow> string list \<Rightarrow> parsed) \<Rightarrow> (string \<Rightarrow> (config_error, config) result) \<Rightarrow>
   'w app_ops \<Rightarrow> thread \<Rightarrow> goroutine_event list \<Rightarrow> goroutine_event list \<Rightarrow> string list \<Rightarrow> 'w app \<Rightarrow>
   'w outcome" where
  "application_Run tx pflag load ops t before after args st =
     (case Parse pflag load args of
        Inl e \<Rightarrow> Some (Err (CommandLine e), st)
      | Inr call \<Rightarrow>
          if Help call then Some (Ok 0, note_action HelpWritten (aw st) st)
          else if Version call then Some (Ok 0, note_action VersionWritten (aw st) st)
          else
            (case application_start tx ops t call (aw st) of
               (Inl e, w) \<Rightarrow> Some (Err e, st\<lparr>aw := w\<rparr>)
             | (Inr (options, networkPolicy), w) \<Rightarrow>
                 if policy_empty networkPolicy then
                   map_option (\<lambda>(r, st). (rmap_err IsolatedRun r, st))
                     (namespace_run tx ops t options (st\<lparr>aw := w\<rparr>))
                 else runWithProxies tx ops t before after networkPolicy options (st\<lparr>aw := w\<rparr>)))"

end
