(* ===== verification/Main_Command.thy ===== *)
theory Main_Command
  imports Application Seccomp
begin

text \<open>
  main.go: one binary plays three parts.  Started with the hidden supervisor command it runs the
  supervisor, with the hidden restricted command it installs the socket filter and becomes the command,
  otherwise it is airjail itself.  The outside is the record \<open>main_env\<close>; the threads and the order in which
  goroutines proceed are the record \<open>schedule\<close>.
\<close>

record 'w main_env =
  me_sup :: "'w sup_ops"
  me_seccomp :: "'w seccomp_ops"
  me_app :: "'w app_ops"
  me_goarch :: string
  me_supervisor_flags :: "supervisor_flags \<Rightarrow> string list \<Rightarrow> (string, supervisor_flags \<times> string list) result"
  me_public_flags :: "flagValues \<Rightarrow> string list \<Rightarrow> parsed"
  me_load :: "string \<Rightarrow> (config_error, config) result"

record schedule =
  sc_main :: thread
  sc_command :: thread
  sc_group_before :: "group_event list"
  sc_group_after :: "group_event list"
  sc_jobs_before :: "goroutine_event list"
  sc_jobs_after :: "goroutine_event list"

datatype main_failure =
    SupervisorPart supervisor_exit
  | RestrictedPart exec_error
  | ApplicationPart app_error

text \<open>What the process did, by its part.\<close>

datatype main_trace =
    SupervisorRan "proc_action list"
  | RestrictedRan "seccomp_act list"
  | ApplicationRan "app_action list"

type_synonym 'w main_outcome = "((main_failure, nat) result \<times> main_trace \<times> 'w) option"

text \<open>\<open>run\<close>; the arguments are those behind the name of the program.\<close>

definition main_run ::
  "text_lib \<Rightarrow> 'w main_env \<Rightarrow> schedule \<Rightarrow> string list \<Rightarrow> 'w \<Rightarrow> 'w main_outcome" where
  "main_run tx env sc args w =
     (let application = map_option (\<lambda>(r, st). (rmap_err ApplicationPart r, ApplicationRan (trail st), aw st))
            (application_Run tx (me_public_flags env) (me_load env) (me_app env) (sc_main sc)
               (sc_jobs_before sc) (sc_jobs_after sc) args \<lparr>aw = w, trail = []\<rparr>)
      in case args of
           [] \<Rightarrow> application
         | a # rest \<Rightarrow>
             if a = SupervisorCommand then
               map_option (\<lambda>(r, st). (rmap_err SupervisorPart r, SupervisorRan (acts st), pw st))
                 (runSupervisor tx (me_supervisor_flags env) (ap_term (me_app env)) (me_sup env)
                    (ap_environ (me_app env)) (ap_getwd (me_app env)) (sc_main sc) (sc_command sc)
                    (sc_group_before sc) (sc_group_after sc) rest \<lparr>pw = w, acts = []\<rparr>)
             else if a = RestrictedExecCommand then
               (case ExecRestricted (me_seccomp env) (me_goarch env) rest \<lparr>sw = w, sacts = []\<rparr> of
                  (r, st) \<Rightarrow> Some (map_sum RestrictedPart (\<lambda>_. 0) r, RestrictedRan (sacts st), sw st))
             else application)"

definition setupErrorExitCode :: nat where "setupErrorExitCode = 125"

text \<open>\<open>main\<close>: the code given to \<open>os.Exit\<close>, and whether an error is written to stderr.\<close>

definition main_exit :: "(main_failure, nat) result \<Rightarrow> nat \<times> bool" where
  "main_exit r = (case r of Inl _ \<Rightarrow> (setupErrorExitCode, True) | Inr exitCode \<Rightarrow> (exitCode, False))"

end
