(* ===== verification/Application_Properties.thy ===== *)
theory Application_Properties
  imports Application Launch_Properties Policy_Properties
begin

text \<open>
  What one invocation of airjail does, by its trail: which command it starts with which options,
  behind which proxies, that it releases what it holds, and what its exit code is.
\<close>

section \<open>Trails\<close>

lemma trail_note [simp]: "trail (note_action a w st) = trail st @ [a]" "aw (note_action a w st) = w"
  by (simp_all add: note_action_def)

lemma namespace_run_trail:
  assumes "namespace_run tx ops t options st = Some (r, st')"
  shows "\<exists>p warnings. Run tx (ap_caps ops) (ap_procs ops) (ap_uid ops) (ap_gid ops) t options
      \<lparr>pw = aw st, acts = []\<rparr> = Some (r, warnings, p) \<and>
    trail st' = trail st @ [CommandRan options (acts p)]"
  using assms by (auto simp: namespace_run_def split: option.splits)

lemma with_listener_cases:
  assumes "with_listener ops path failed body st = Some (r, st')"
  obtains (not_listening) e where "r = Err (failed e)" "trail st' = trail st"
    | (listening) l st1 st2 where "body l st1 = Some (r, st2)" "trail st1 = trail st @ [Listens l path]"
      "trail st' = trail st2 @ [ListenerClosed l]"
  using assms by (auto simp: with_listener_def split: prod.splits sum.splits option.splits)

lemma serve_and_run_cases:
  assumes "serve_and_run tx ops t before after p options h s st = Some (r, st')"
  obtains (not_started) "trail st' = trail st" "\<exists>e. r = Err e"
    | (started) router c warnings pst js result w1 where
      "NewEnvironmentRouter tx (ap_parse_url ops) (ap_no_proxy ops) (ap_environ ops) = Ok router"
      "Run tx (ap_caps ops) (ap_procs ops) (ap_uid ops) (ap_gid ops) t options
        \<lparr>pw = w1, acts = []\<rparr> = Some (c, warnings, pst)"
      "run_jobs (before @ CommandReturns c # after) jobs_start = Some js"
      "main_at js = JobsReturned result" "r = rmap_err ProxiedRun result"
      "trail st' = trail st @ [ServersStarted p router h s, CommandRan options (acts pst)]"
proof (cases "NewEnvironmentRouter tx (ap_parse_url ops) (ap_no_proxy ops) (ap_environ ops)")
  case (Inl e)
  then show ?thesis using assms not_started by (auto simp: serve_and_run_def)
next
  case (Inr router)
  obtain e w where k: "ap_socks ops (aw st) = (e, w)" by (metis surj_pair)
  show ?thesis
  proof (cases e)
    case (Some e')
    then show ?thesis using assms not_started Inr k by (auto simp: serve_and_run_def)
  next
    case None
    let ?st = "note_action (ServersStarted p router h s) w st"
    obtain c st2 where n: "namespace_run tx ops t options ?st = Some (c, st2)"
      using assms Inr k None by (auto simp: serve_and_run_def split: option.splits)
    obtain js where j: "run_jobs (before @ CommandReturns c # after) jobs_start = Some js"
      using assms Inr k None n by (auto simp: serve_and_run_def split: option.splits)
    obtain result where "main_at js = JobsReturned result" "r = rmap_err ProxiedRun result" "st' = st2"
      using assms Inr k None n j by (auto simp: serve_and_run_def split: main_phase.splits)
    moreover obtain pst warnings where
      "Run tx (ap_caps ops) (ap_procs ops) (ap_uid ops) (ap_gid ops) t options \<lparr>pw = aw ?st, acts = []\<rparr> =
        Some (c, warnings, pst)" "trail st2 = trail ?st @ [CommandRan options (acts pst)]"
      using namespace_run_trail [OF n] by blast
    ultimately show ?thesis using started [OF Inr _ j] by (metis trail_note append.assoc append_Cons append_Nil)
  qed
qed

text \<open>The trail of a run with proxies whose command was started, and of one that failed before.\<close>

definition proxied_trail ::
  "runtimeDir \<Rightarrow> nat \<Rightarrow> nat \<Rightarrow> policy \<Rightarrow> router \<Rightarrow> parent_options \<Rightarrow> proc_action list \<Rightarrow> app_action list" where
  "proxied_trail rd h s p router options as =
     [SessionMade rd, Listens h (HTTPSocket rd), Listens s (SOCKSocket rd), ServersStarted p router h s,
      CommandRan options as, ListenerClosed s, ListenerClosed h, SessionClosed rd]"

definition failed_trail :: "app_action list \<Rightarrow> bool" where
  "failed_trail tr \<longleftrightarrow> tr = [] \<or>
     (\<exists>rd h s. tr \<in> {[SessionMade rd, SessionClosed rd],
        [SessionMade rd, Listens h (HTTPSocket rd), ListenerClosed h, SessionClosed rd],
        [SessionMade rd, Listens h (HTTPSocket rd), Listens s (SOCKSocket rd),
         ListenerClosed s, ListenerClosed h, SessionClosed rd]})"

lemma runWithProxies_cases:
  assumes "runWithProxies tx ops t before after p options st = Some (r, st')" and "trail st = []"
  obtains (failed) e where "r = Err e" "failed_trail (trail st')"
    | (started) rd h s router c warnings pst js result w where
      "Run tx (ap_caps ops) (ap_procs ops) (ap_uid ops) (ap_gid ops) t
        (options\<lparr>po_HTTPSocket := HTTPSocket rd, po_SOCKSocket := SOCKSocket rd\<rparr>)
        \<lparr>pw = w, acts = []\<rparr> = Some (c, warnings, pst)"
      "NewEnvironmentRouter tx (ap_parse_url ops) (ap_no_proxy ops) (ap_environ ops) = Ok router"
      "run_jobs (before @ CommandReturns c # after) jobs_start = Some js"
      "main_at js = JobsReturned result" "r = rmap_err ProxiedRun result"
      "trail st' = proxied_trail rd h s p router
        (options\<lparr>po_HTTPSocket := HTTPSocket rd, po_SOCKSocket := SOCKSocket rd\<rparr>) (acts pst)"
proof -
  obtain m w where m: "createRuntimeDir (ap_fs ops) (ap_uid ops) (Getenv (ap_environ ops) ''XDG_RUNTIME_DIR'') (aw st) = (m, w)"
    by (metis surj_pair)
  show thesis
  proof (cases m)
    case (Inl e)
    then show ?thesis using failed assms m by (auto simp: runWithProxies_def failed_trail_def)
  next
    case (Inr rd)
    let ?options = "options\<lparr>po_HTTPSocket := HTTPSocket rd, po_SOCKSocket := SOCKSocket rd\<rparr>"
    obtain st2 where b: "with_listener ops (HTTPSocket rd) ListenHTTP
          (\<lambda>h. with_listener ops (SOCKSocket rd) ListenSOCKS
            (serve_and_run tx ops t before after p ?options h)) (note_action (SessionMade rd) w st) = Some (r, st2)"
      and st': "trail st' = trail st2 @ [SessionClosed rd]"
      using assms(1) m Inr by (auto simp: runWithProxies_def split: option.splits)
    from b show ?thesis
    proof (cases rule: with_listener_cases)
      case (not_listening e)
      then show ?thesis using failed assms(2) st' by (auto simp: failed_trail_def)
    next
      case http: (listening h sta stb)
      from http(1) show ?thesis
      proof (cases rule: with_listener_cases)
        case (not_listening e)
        then show ?thesis using failed assms(2) st' http by (auto simp: failed_trail_def)
      next
        case socks: (listening s stc std)
        from socks(1) show ?thesis
        proof (cases rule: serve_and_run_cases)
          case not_started
          then show ?thesis using failed assms(2) st' http socks by (auto simp: failed_trail_def)
        next
          case (started router c warnings pst js result w1)
          then have "trail st' = proxied_trail rd h s p router ?options (acts pst)"
            using st' http socks assms(2) by (simp add: proxied_trail_def)
          with started that(2) [of rd w1] show ?thesis by blast
        qed
      qed
    qed
  qed
qed

lemma application_start_Ok:
  assumes "application_start tx ops t call w = (Ok (options, p), w')"
  shows "\<exists>w1 ns. new_policy tx (ap_resolver ops) (AllowUnresolvedRules (Config call))
      (Allow (Config call)) (Block (Config call)) w1 = (Ok p, ns) \<and>
    po_Command options = Command call \<and> po_HTTPSocket options = [] \<and> po_SOCKSocket options = [] \<and>
    po_Environment options = childEnvironment (ap_environ ops) (\<not> policy_empty p) \<and>
    po_RestrictUnixSockets options = RestrictUnixSockets (Config call) \<and>
    po_KeepUnsafeCapabilities options = KeepUnsafeCapabilities (Config call)"
  using assms
  by (auto simp: application_start_def Let_def split: prod.splits sum.splits)

lemma application_Run_cases:
  assumes "application_Run tx pflag load ops t before after args st = Some (r, st')" and "trail st = []"
  obtains (no_command) e where "r = Err e" "failed_trail (trail st')"
    | (written) "r = Ok 0" "trail st' = [HelpWritten] \<or> trail st' = [VersionWritten]"
    | (isolated) call options p w0 w c warnings pst where
      "Parse pflag load args = Ok call" "application_start tx ops t call (aw st) = (Ok (options, p), w0)"
      "policy_empty p"
      "Run tx (ap_caps ops) (ap_procs ops) (ap_uid ops) (ap_gid ops) t options \<lparr>pw = w, acts = []\<rparr> =
        Some (c, warnings, pst)"
      "r = rmap_err IsolatedRun c" "trail st' = [CommandRan options (acts pst)]"
    | (proxied) call options p w0 w c warnings pst rd h s router js result where
      "Parse pflag load args = Ok call" "application_start tx ops t call (aw st) = (Ok (options, p), w0)"
      "\<not> policy_empty p"
      "Run tx (ap_caps ops) (ap_procs ops) (ap_uid ops) (ap_gid ops) t
        (options\<lparr>po_HTTPSocket := HTTPSocket rd, po_SOCKSocket := SOCKSocket rd\<rparr>) \<lparr>pw = w, acts = []\<rparr> =
        Some (c, warnings, pst)"
      "run_jobs (before @ CommandReturns c # after) jobs_start = Some js"
      "main_at js = JobsReturned result" "r = rmap_err ProxiedRun result"
      "trail st' = proxied_trail rd h s p router
        (options\<lparr>po_HTTPSocket := HTTPSocket rd, po_SOCKSocket := SOCKSocket rd\<rparr>) (acts pst)"
      "NewEnvironmentRouter tx (ap_parse_url ops) (ap_no_proxy ops) (ap_environ ops) = Ok router"
proof (cases "Parse pflag load args")
  case (Inl e)
  then show ?thesis using no_command assms by (auto simp: application_Run_def failed_trail_def)
next
  case parsed: (Inr call)
  show ?thesis
  proof (cases "Help call \<or> Version call")
    case True
    then show ?thesis using written assms parsed by (auto simp: application_Run_def split: if_splits)
  next
    case False
    obtain m w0 where m: "application_start tx ops t call (aw st) = (m, w0)" by (metis surj_pair)
    show ?thesis
    proof (cases m)
      case (Inl e)
      then show ?thesis using no_command assms parsed False m by (auto simp: application_Run_def failed_trail_def)
    next
      case (Inr op)
      obtain options p where op: "op = (options, p)" by (metis surj_pair)
      note start = m [unfolded Inr op]
      show ?thesis
      proof (cases "policy_empty p")
        case True
        then obtain c where "namespace_run tx ops t options (st\<lparr>aw := w0\<rparr>) = Some (c, st')" "r = rmap_err IsolatedRun c"
          using assms(1) parsed False start by (auto simp: application_Run_def)
        from this(1) [THEN namespace_run_trail] this(2) True show ?thesis
          using isolated [OF parsed start True] assms(2) by auto
      next
        case ne: False
        then have "runWithProxies tx ops t before after p options (st\<lparr>aw := w0\<rparr>) = Some (r, st')"
          "trail (st\<lparr>aw := w0\<rparr>) = []"
          using assms parsed False start by (simp_all add: application_Run_def)
        then show ?thesis
        proof (cases rule: runWithProxies_cases)
          case (failed e)
          then show ?thesis by (rule no_command)
        next
          case (started rd h s router c warnings pst js result w)
          show ?thesis
            by (rule proxied [OF parsed start ne started(1) started(3-6,2)])
        qed
      qed
    qed
  qed
qed

section \<open>Properties\<close>

text \<open>
  C5: whenever airjail starts a command, it is the one of the command line, with the environment
  for its kind of run, the socket restriction and the kept capabilities that were configured.
  If the policy made of the configured rules is empty, nothing else is started and the command
  gets no socket.  Otherwise it gets exactly the two sockets of the session, on which the servers
  listened before with this very policy, and both listeners and then the session are closed after it.
\<close>

theorem application_contains_command:
  assumes "application_Run tx pflag load ops t before after args st = Some (r, st')" and "trail st = []"
    and "CommandRan options as \<in> set (trail st')"
  shows "\<exists>call p w ns. Parse pflag load args = Ok call \<and>
    new_policy tx (ap_resolver ops) (AllowUnresolvedRules (Config call))
      (Allow (Config call)) (Block (Config call)) w = (Ok p, ns) \<and>
    po_Command options = Command call \<and>
    po_Environment options = childEnvironment (ap_environ ops) (\<not> policy_empty p) \<and>
    po_RestrictUnixSockets options = RestrictUnixSockets (Config call) \<and>
    po_KeepUnsafeCapabilities options = KeepUnsafeCapabilities (Config call) \<and>
    (if policy_empty p
     then po_HTTPSocket options = [] \<and> po_SOCKSocket options = [] \<and> trail st' = [CommandRan options as]
     else \<exists>rd h s router. po_HTTPSocket options = HTTPSocket rd \<and> po_SOCKSocket options = SOCKSocket rd \<and>
       trail st' = [SessionMade rd, Listens h (HTTPSocket rd), Listens s (SOCKSocket rd),
         ServersStarted p router h s, CommandRan options as,
         ListenerClosed s, ListenerClosed h, SessionClosed rd])"
  using assms(1,2)
proof (cases rule: application_Run_cases)
  case (no_command e)
  then show ?thesis using assms(3) by (auto simp: failed_trail_def)
next
  case written
  then show ?thesis using assms(3) by auto
next
  case (isolated call opts p w0 w c warnings pst)
  then have "opts = options" "acts pst = as" using assms(3) by auto
  with isolated application_start_Ok [OF isolated(2)] show ?thesis by auto
next
  case (proxied call opts p w0 w c warnings pst rd h s router js result)
  then have "options = opts\<lparr>po_HTTPSocket := HTTPSocket rd, po_SOCKSocket := SOCKSocket rd\<rparr>" "acts pst = as"
    using assms(3) by (auto simp: proxied_trail_def)
  with proxied application_start_Ok [OF proxied(2)] show ?thesis
    unfolding proxied_trail_def by fastforce
qed

text \<open>What is held, replayed over a trail: a listener or session is released only while it is the
  last one that is held; \<open>None\<close> otherwise.\<close>

datatype held = HeldSession runtimeDir | HeldListener nat

fun held_after :: "app_action list \<Rightarrow> held list \<Rightarrow> held list option" where
  "held_after [] hs = Some hs"
| "held_after (SessionMade rd # tr) hs = held_after tr (HeldSession rd # hs)"
| "held_after (Listens l _ # tr) hs = held_after tr (HeldListener l # hs)"
| "held_after (ListenerClosed l # tr) hs =
     (case hs of h # hs \<Rightarrow> if h = HeldListener l then held_after tr hs else None | [] \<Rightarrow> None)"
| "held_after (SessionClosed rd # tr) hs =
     (case hs of h # hs \<Rightarrow> if h = HeldSession rd then held_after tr hs else None | [] \<Rightarrow> None)"
| "held_after (_ # tr) hs = held_after tr hs"

text \<open>
  C39: however an invocation ends, every listener and the session directory it made are released
  again, in the reverse order of their making.
\<close>

theorem application_releases:
  assumes "application_Run tx pflag load ops t before after args st = Some (r, st')" and "trail st = []"
  shows "held_after (trail st') [] = Some []"
  using assms
proof (cases rule: application_Run_cases)
  case (no_command e)
  then show ?thesis by (auto simp: failed_trail_def)
next
  case written
  then show ?thesis by auto
qed (simp_all add: proxied_trail_def)

lemma Run_exit:
  assumes "Run tx cops pops uid gid t options \<lparr>pw = w, acts = []\<rparr> = Some (Ok n, warnings, pst)"
    and "positive_pids pops"
  shows "\<exists>foreground kept child pid. Started t child (Ok pid) \<in> set (acts pst) \<and>
    cmd_args child = supervisor_arguments options foreground kept \<and>
    cmd_env child = po_Environment options \<and> life pid (acts pst) = [Began pid, Ended n]"
proof -
  obtain m w1 where m: "resolveUnsafeCapabilities tx cops t (po_KeepUnsafeCapabilities options) (po_Mode options) w = (m, w1)"
    by (metis surj_pair)
  obtain kept ws where k: "m = Ok (kept, ws)" using assms(1) m by (cases m) (auto simp: Run_def)
  obtain terminal fg st1 where f: "terminalForeground pops (\<lparr>pw = w, acts = []\<rparr>\<lparr>pw := w1\<rparr>) = ((terminal, fg), st1)"
    by (metis surj_pair)
  let ?fg = "ownsTerminalForeground terminal fg (getpgrp pops (pw st1))"
  have a: "acts st1 = []" using quiet_terminalForeground [OF f] by simp
  let ?ro = "\<lparr>ro_Environment = po_Environment options, ro_Directory = po_Directory options,
      ro_Sys = Some (namespaceProcessAttributes uid gid (po_Mode options)),
      JoinParentProcessGroup = True, ro_ManageForeground = False, ReapProcessGroup = False\<rparr>"
  have r: "runSandboxedProcess pops t (supervisor_arguments options ?fg kept) ?ro st1 = Some (Ok n, pst)"
    using assms(1) m k f
    by (auto simp: Run_def Let_def rmap_err_Inr_iff split: option.splits prod.splits)
  from run_exit_code [OF r assms(2)] a show ?thesis by auto
qed

lemma jobs_Ok:
  assumes "run_jobs (before @ CommandReturns c # after) jobs_start = Some js" and "main_at js = JobsReturned (Ok n)"
  shows "c = Ok n \<and> SelectsServer \<notin> set (before @ after)"
proof -
  let ?es = "before @ CommandReturns c # after"
  obtain c' where c': "commands_of ?es = [c']" "Ok n = result_of ?es c'"
    using jobs_inv_run [OF assms(1)] assms(2) by (auto simp: jobs_inv_def)
  have "c \<in> set (commands_of ?es)" by (simp add: commands_of_def)
  with c' show ?thesis by (auto simp: result_of_def split: sum.splits if_splits)
qed

text \<open>
  C40: an exit code of airjail that is not that of its help or version text is the exit code of the one
  supervisor process it started, whose command line is that of the options; and in a run with
  proxies the select took the result of the command, not the error of a server.
\<close>

theorem application_exit_code:
  assumes "application_Run tx pflag load ops t before after args st = Some (Ok n, st')" and "trail st = []"
    and "positive_pids (ap_procs ops)" and "HelpWritten \<notin> set (trail st')" and "VersionWritten \<notin> set (trail st')"
  shows "\<exists>options as foreground kept child pid. CommandRan options as \<in> set (trail st') \<and>
    Started t child (Ok pid) \<in> set as \<and> cmd_args child = supervisor_arguments options foreground kept \<and>
    cmd_env child = po_Environment options \<and> life pid as = [Began pid, Ended n] \<and>
    (po_HTTPSocket options \<noteq> [] \<longrightarrow> SelectsServer \<notin> set (before @ after))"
  using assms(1,2)
proof (cases rule: application_Run_cases)
  case (isolated call opts p w0 w c warnings pst)
  then have "c = Ok n" by (metis rmap_err_Inr_iff)
  with Run_exit [OF isolated(4) [unfolded this] assms(3)] isolated application_start_Ok [OF isolated(2)]
  show ?thesis by fastforce
next
  case (proxied call opts p w0 w c warnings pst rd h s router js result)
  then have "result = Ok n" by (metis rmap_err_Inr_iff)
  with jobs_Ok [OF proxied(5)] proxied(6) have c: "c = Ok n" "SelectsServer \<notin> set (before @ after)" by simp_all
  from Run_exit [OF proxied(4) [unfolded c(1)] assms(3)] proxied(8) c(2)
  show ?thesis by (fastforce simp: proxied_trail_def)
qed (use assms(4,5) in auto)

lemma new_policy_block_grows:
  assumes "new_policy tx (pure_resolver f) l0 as bs w0 = (Inr p0, st0)"
    and "new_policy tx (pure_resolver f) l1 as' (bs @ xs) w1 = (Inr p1, st1)"
  shows "\<exists>d. pol_block p1 = join_rules (pol_block p0) d"
proof -
  obtain al bl la lb where one: "parseRules tx bs la = (Inr bl, lb)" "pol_block p0 = resolved_rules f bl"
    by (rule new_policy_pure [OF assms(1)])
  obtain al' bl' la' lb' where two: "parseRules tx (bs @ xs) la' = (Inr bl', lb')"
    "pol_block p1 = resolved_rules f bl'"
    by (rule new_policy_pure [OF assms(2)])
  obtain d where "bl' = join_rules bl d" using parseRules_append [OF one(1) two(1)] by blast
  then show ?thesis by (intro exI [of _ "resolved_rules f d"]) (simp only: one two resolved_rules_join)
qed

lemma covers_join: "covers rs q \<Longrightarrow> covers (join_rules rs d) q"
  by (auto simp: covers_def join_rules_def)

text \<open>
  C7: what the configuration file blocks stays blocked, whatever the flags say: with a resolver that
  is a function of the name, a request covered by the block rules of the policy made of the file alone
  is denied by the policy of the invocation.
\<close>

theorem file_blocks_hold:
  assumes "pflag flag_defaults args = Parsed values changed rest" and "configPath values \<noteq> []"
    and "load (configPath values) = Ok file" and "\<not> version values" and "Parse pflag load args = Ok call"
    and "new_policy tx (pure_resolver f) l0 (Allow file) (Block file) w0 = (Inr p0, st0)"
    and "new_policy tx (pure_resolver f) (AllowUnresolvedRules (Config call))
      (Allow (Config call)) (Block (Config call)) w1 = (Inr p1, st1)"
    and "normalize_request tx h a n = Inr q" and "covers (pol_block p0) q"
  shows "Allows tx p1 h a n = Ok False"
proof -
  have "Block (Config call) = Block file @ blockRules values"
    using assms(1-5) by (auto simp: Parse_def merge_flags_def split: if_splits)
  with assms(6,7) obtain d where "pol_block p1 = join_rules (pol_block p0) d"
    using new_policy_block_grows by metis
  with assms(9) have "covers (pol_block p1) q" by (simp add: covers_join)
  then have "\<not> permits p1 q" by (auto simp: permits_def)
  then show ?thesis using Allows_permits [OF new_policy_wf [OF assms(7)], of tx h a n] assms(8) by simp
qed

end
