(* ===== verification/Application_Examples.thy ===== *)
theory Application_Examples
  imports Application_Properties
begin

text \<open>
  Concrete invocations at which the properties of the application are applied, on the kernel of
  Kernel_Examples with a file system that creates everything it is asked for.
\<close>

definition demo_app :: "kernel app_ops" where
  "demo_app = \<lparr>ap_caps = demo_caps, ap_procs = demo_procs,
     ap_fs = \<lparr>fs_Mkdir = (\<lambda>p m w. (Created, w)), fs_Lstat = (\<lambda>p w. (Err ''unused'', w)),
       fs_Chmod = (\<lambda>p m w. (None, w)), fs_RemoveAll = (\<lambda>p w. (None, w)), fs_random = (\<lambda>w. (42, w))\<rparr>,
     ap_resolver = pure_resolver demo_lookup,
     ap_getwd = (\<lambda>w. (Ok ''/'', w)), ap_executable = (\<lambda>w. (Ok ''/usr/bin/airjail'', w)),
     ap_environ = [''PATH=/bin'', ''XDG_RUNTIME_DIR=/run/user/1000''], ap_uid = 1000, ap_gid = 1000,
     ap_term = None, ap_getgroups = (\<lambda>w. (Ok [1000, 27], w)), ap_group_name = (\<lambda>g w. (Some ''sudo'', w)),
     ap_listen = (\<lambda>path w. (Ok (length path), w)), ap_close = (\<lambda>l w. (None, w)),
     ap_parse_url = (\<lambda>u. None), ap_no_proxy = (\<lambda>n h. Ok False), ap_socks = (\<lambda>w. (None, w))\<rparr>"

definition demo_load :: "string \<Rightarrow> (config_error, config) result" where
  "demo_load = Load (\<lambda>path. Ok ''block: [10.0.0.0/8]'') demo_yaml"

definition demo_invoke :: "string list \<Rightarrow> ((app_error, nat) result \<times> kernel app) option" where
  "demo_invoke args = application_Run ascii_lib demo_public demo_load demo_app 0 []
     [SelectsCommand, ServerReturns SOCKSServer None, ServerReturns HTTPServer None, WaitEnds]
     args \<lparr>aw = demo_kernel, trail = []\<rparr>"

fun commands_in :: "app_action list \<Rightarrow> parent_options list" where
  "commands_in [] = []"
| "commands_in (CommandRan options _ # tr) = options # commands_in tr"
| "commands_in (_ # tr) = commands_in tr"

lemma demo_proxied:
  "map_option (\<lambda>(r, st). (r, map po_Command (commands_in (trail st)), length (trail st)))
     (demo_invoke [''--config=airjail.yaml'', ''sh'', ''-c'']) = Some (Ok 3, [[''sh'', ''-c'']], 8)"
  by code_simp

lemma demo_isolated:
  "map_option (\<lambda>(r, st). (r, map po_Command (commands_in (trail st)), length (trail st)))
     (demo_invoke [''sh'']) = Some (Ok 3, [[''sh'']], 1)"
  by code_simp

lemma in_commands: "options \<in> set (commands_in tr) \<longleftrightarrow> (\<exists>as. CommandRan options as \<in> set tr)"
  by (induction tr rule: commands_in.induct) auto

text \<open>The two invocations end, and what they ran.\<close>

lemma demo_proxied_ends:
  "\<exists>st' options as. demo_invoke [''--config=airjail.yaml'', ''sh'', ''-c''] = Some (Ok 3, st') \<and>
     length (trail st') = 8 \<and> CommandRan options as \<in> set (trail st') \<and> po_Command options = [''sh'', ''-c'']"
proof -
  obtain st' where st': "demo_invoke [''--config=airjail.yaml'', ''sh'', ''-c''] = Some (Ok 3, st')"
    "map po_Command (commands_in (trail st')) = [[''sh'', ''-c'']]" "length (trail st') = 8"
    using demo_proxied by auto
  then obtain options where "commands_in (trail st') = [options]" "po_Command options = [''sh'', ''-c'']" by auto
  then have "options \<in> set (commands_in (trail st'))" by simp
  with st' \<open>po_Command options = _\<close> show ?thesis unfolding in_commands by blast
qed

theorem application_contains_command_witness:
  "\<exists>st' options rd h s p router as. demo_invoke [''--config=airjail.yaml'', ''sh'', ''-c''] = Some (Ok 3, st') \<and>
     po_Command options = [''sh'', ''-c''] \<and> po_HTTPSocket options = HTTPSocket rd \<and>
     trail st' = [SessionMade rd, Listens h (HTTPSocket rd), Listens s (SOCKSocket rd),
       ServersStarted p router h s, CommandRan options as, ListenerClosed s, ListenerClosed h, SessionClosed rd]"
proof -
  obtain st' options as where st': "demo_invoke [''--config=airjail.yaml'', ''sh'', ''-c''] = Some (Ok 3, st')"
    "length (trail st') = 8" "CommandRan options as \<in> set (trail st')" "po_Command options = [''sh'', ''-c'']"
    using demo_proxied_ends by blast
  have "trail \<lparr>aw = demo_kernel, trail = []\<rparr> = []" by simp
  from application_contains_command [OF st'(1) [unfolded demo_invoke_def] this st'(3)] st'(1,2,4)
  show ?thesis by (auto split: if_splits)
qed

theorem application_releases_witness:
  "\<exists>st'. demo_invoke [''--config=airjail.yaml'', ''sh'', ''-c''] = Some (Ok 3, st') \<and>
     length (trail st') = 8 \<and> held_after (trail st') [] = Some []"
proof -
  obtain st' where st': "demo_invoke [''--config=airjail.yaml'', ''sh'', ''-c''] = Some (Ok 3, st')"
    "length (trail st') = 8"
    using demo_proxied_ends by blast
  have "trail \<lparr>aw = demo_kernel, trail = []\<rparr> = []" by simp
  from application_releases [OF st'(1) [unfolded demo_invoke_def] this] st' show ?thesis by blast
qed

theorem application_exit_code_witness:
  "\<exists>st' options as child pid. demo_invoke [''sh''] = Some (Ok 3, st') \<and> trail st' = [CommandRan options as] \<and>
     Started 0 child (Ok pid) \<in> set as \<and> life pid as = [Began pid, Ended 3]"
proof -
  obtain st' where st': "demo_invoke [''sh''] = Some (Ok 3, st')"
    "map po_Command (commands_in (trail st')) = [[''sh'']]" "length (trail st') = 1"
    using demo_isolated by auto
  then obtain options as where t: "trail st' = [CommandRan options as]"
    by (cases "trail st'" rule: commands_in.cases) auto
  have "trail \<lparr>aw = demo_kernel, trail = []\<rparr> = []" "positive_pids (ap_procs demo_app)"
    by (simp_all add: demo_app_def demo_positive_pids)
  from application_exit_code [OF st'(1) [unfolded demo_invoke_def] this] t
  have "\<exists>child pid. Started 0 child (Ok pid) \<in> set as \<and> life pid as = [Began pid, Ended 3]" by fastforce
  with st'(1) t show ?thesis by blast
qed

text \<open>The file blocks 10.0.0.0/8; the flags allow an address of it.\<close>

definition demo_call :: invocation where
  "demo_call = \<lparr>Config = \<lparr>Allow = [''10.0.0.1''], Block = [''10.0.0.0/8''], Log = ''info'',
      RestrictUnixSockets = False, AllowUnresolvedRules = False, KeepUnsafeCapabilities = []\<rparr>,
    Command = [''sh''], Help = False, Version = False\<rparr>"

definition demo_file :: config where
  "demo_file = \<lparr>Allow = [], Block = [''10.0.0.0/8''], Log = ''info'', RestrictUnixSockets = False,
     AllowUnresolvedRules = False, KeepUnsafeCapabilities = []\<rparr>"

definition demo_args :: "string list" where
  "demo_args = [''--config=airjail.yaml'', ''--allow=10.0.0.1'', ''sh'']"

definition demo_values :: flagValues where
  "demo_values = flag_defaults\<lparr>configPath := ''airjail.yaml'', allowRules := [''10.0.0.1'']\<rparr>"

definition demo_blocked :: policy where
  "demo_blocked = \<lparr>pol_allow = empty_rules, pol_block = empty_rules\<lparr>prefixes :=
     [\<lparr>pr_prefix = Prefix (Addr4 167772160) (Some 8), pr_port = any_port\<rparr>]\<rparr>\<rparr>"

lemma demo_file_policy:
  "fst (new_policy ascii_lib (pure_resolver demo_lookup) False (Allow demo_file) (Block demo_file) ()) = Inr demo_blocked"
  by code_simp

theorem file_blocks_hold_witness:
  "\<exists>p st. new_policy ascii_lib (pure_resolver demo_lookup) False
      (Allow (Config demo_call)) (Block (Config demo_call)) () = (Inr p, st) \<and>
    Allows ascii_lib p [] (Addr4 167772161) 443 = Ok False"
proof -
  have args: "demo_public flag_defaults demo_args = Parsed demo_values (set [''config'', ''allow'']) [''sh'']"
    by code_simp
  have load: "demo_load ''airjail.yaml'' = Ok demo_file" by code_simp
  have parse: "Parse demo_public demo_load demo_args = Ok demo_call" by code_simp
  have v: "configPath demo_values \<noteq> []" "demo_load (configPath demo_values) = Ok demo_file" "\<not> version demo_values"
    using load by (simp_all add: demo_values_def flag_defaults_def)
  obtain st0 where p0: "new_policy ascii_lib (pure_resolver demo_lookup) False (Allow demo_file) (Block demo_file) () =
      (Inr demo_blocked, st0)"
    using demo_file_policy by (metis prod.collapse)
  have "is_ok (fst (new_policy ascii_lib (pure_resolver demo_lookup) False
      (Allow (Config demo_call)) (Block (Config demo_call)) ()))"
    by code_simp
  then obtain p st where p: "new_policy ascii_lib (pure_resolver demo_lookup) (AllowUnresolvedRules (Config demo_call))
      (Allow (Config demo_call)) (Block (Config demo_call)) () = (Inr p, st)"
    by (simp add: is_ok_iff demo_call_def) (metis prod.collapse)
  have q: "normalize_request ascii_lib [] (Addr4 167772161) 443 = Inr ([], Addr4 167772161, 443)" by code_simp
  have "prefix_rule_covers ([], Addr4 167772161, 443)
      \<lparr>pr_prefix = Prefix (Addr4 167772160) (Some 8), pr_port = any_port\<rparr>" by code_simp
  then have "covers (pol_block demo_blocked) ([], Addr4 167772161, 443)" by (simp add: covers_def demo_blocked_def)
  from file_blocks_hold [OF args v(1,2,3) parse p0 p q this] p show ?thesis by (auto simp: demo_call_def)
qed

end
