(* ===== verification/Main_Properties.thy ===== *)
theory Main_Properties
  imports Main_Command Application_Examples
begin

text \<open>
  The processes of one invocation, end to end: what the outer process passes on its command line is
  what the supervisor runs, and what the supervisor passes on is what the restricted process executes.
\<close>

section \<open>From airjail to the supervisor\<close>

lemma SupervisorCommand_arguments:
  "tl (supervisor_arguments options foreground kept) =
     SupervisorCommand # drop 2 (supervisor_arguments options foreground kept)"
  by (simp add: supervisor_arguments_def)

text \<open>
  C28: started with the command line that the outer airjail builds, the same binary runs the
  supervisor, in the process's own environment and directory, with the command of the invocation
  word for word, its sockets, its mode and restriction, and the capabilities that were resolved.
\<close>

theorem supervisor_process_options:
  assumes "pflag_laws (me_supervisor_flags env)" and "cap_laws (caps (me_sup env)) view top_cap"
    and "resolveUnsafeCapabilities tx (caps (me_sup env)) t (po_KeepUnsafeCapabilities options) (po_Mode options) w0 =
      (Ok (kept, warnings), w1)"
    and "po_Command options \<noteq> []" and "SetNonDumpable (caps (me_sup env)) w = (Ok (), w2)"
    and "ap_getwd (me_app env) w2 = (Ok dir, w3)"
  shows "\<exists>lg. LevelName lg = LevelName (po_Logger options) \<and>
    main_run tx env sc (tl (supervisor_arguments options foreground kept)) w =
      map_option (\<lambda>(r, st). (rmap_err (SupervisorPart \<circ> SupervisorFailed) r, SupervisorRan (acts st), pw st))
        (RunSupervisor tx (me_sup env) (sc_main sc) (sc_command sc)
          \<lparr>so_Command = po_Command options, so_Environment = ap_environ (me_app env), so_Directory = dir,
           so_HTTPSocket = po_HTTPSocket options, so_SOCKSocket = po_SOCKSocket options,
           so_PreservePermissions = (po_Mode options = PermissionPreservingMode),
           so_RestrictUnixSockets = po_RestrictUnixSockets options,
           so_ManageForeground = foreground, so_KeepUnsafeCapabilities = kept, so_Logger = lg\<rparr>
          (sc_group_before sc) (sc_group_after sc) \<lparr>pw = w3, acts = []\<rparr>)"
proof -
  obtain lg capabilities where
    start: "supervisor_start tx (me_supervisor_flags env) (ap_term (me_app env)) (caps (me_sup env))
      (ap_environ (me_app env)) (ap_getwd (me_app env)) (drop 2 (supervisor_arguments options foreground kept)) w =
      (Ok \<lparr>so_Command = po_Command options, so_Environment = ap_environ (me_app env), so_Directory = dir,
           so_HTTPSocket = po_HTTPSocket options, so_SOCKSocket = po_SOCKSocket options,
           so_PreservePermissions = (po_Mode options = PermissionPreservingMode),
           so_RestrictUnixSockets = po_RestrictUnixSockets options,
           so_ManageForeground = foreground, so_KeepUnsafeCapabilities = kept, so_Logger = lg\<rparr>, w3)"
    and lg: "LevelName lg = LevelName (po_Logger options)"
    using supervisor_gets_options [where getwd = "ap_getwd (me_app env)", OF assms,
        of "ap_term (me_app env)" "ap_environ (me_app env)" foreground]
    by blast
  have e: "rmap_err f (rmap_err g r) = rmap_err (f \<circ> g) r" for f g and r :: "(sup_error, nat) result"
    by (cases r) simp_all
  show ?thesis
    unfolding SupervisorCommand_arguments main_run_def Let_def list.case simp_thms if_True
    using lg by (intro exI [of _ lg])
      (auto simp: runSupervisor_def start e option.map_comp comp_def split: option.splits)
qed

section \<open>From the supervisor to the restricted command\<close>

lemma exec_behind_barriers_Ok:
  assumes "exec_behind_barriers ops goarch name path command st = (Ok (), st')"
  shows "\<exists>env. Executed path command env \<in> set (sacts st')"
proof -
  obtain env st2 where "sact (Executed path command env) (execve ops path command env (sw st2)) st2 = (None, st')"
    using assms by (auto simp: exec_behind_barriers_def split: prod.splits option.splits sum.splits)
  from sact_None [OF this] show ?thesis by auto
qed

lemma ExecRestricted_Ok:
  assumes "ExecRestricted ops goarch (''--'' # name # args) st = (Ok (), st')"
  shows "\<exists>path env. Executed path (name # args) env \<in> set (sacts st')"
  using assms exec_behind_barriers_Ok
  by (fastforce simp: ExecRestricted_def split: prod.splits sum.splits)

text \<open>
  C30: the command line that the supervisor gives a socket-restricted command makes the same binary
  install the barriers and execute exactly that command: if it executes anything, it is the command of the
  options, word for word and even if it begins with two dashes or a hidden command, after
  \<open>no_new_privs\<close>, the architecture guard, complete and of exact length, and the socket filter, in this
  order; and without an error it has executed it.
\<close>

theorem restricted_child_barriers:
  assumes "isolated_command sops options w0 = (Ok argv, w1)" and "so_RestrictUnixSockets options"
    and "main_run tx env sc (tl argv) w = Some (r, tr, w')" and "so_Command options \<noteq> []"
  shows "\<exists>as. tr = RestrictedRan as \<and> (is_ok r \<longrightarrow> (\<exists>path e. Executed path (so_Command options) e \<in> set as)) \<and>
    (\<forall>path command e. Executed path command e \<in> set as \<longrightarrow> command = so_Command options \<and>
      (\<exists>native raws. arch_info (me_seccomp env) = Ok native \<and>
        bpf_assemble (me_seccomp env) (nativeArchitectureGuard native) = Ok raws \<and>
        unat (Len (guard_program raws)) = length (Filter (guard_program raws)) \<and>
        as = [NoNewPrivsSet, GuardLoaded (guard_program raws),
          FilterLoaded (restrictedSocketFilter (me_goarch env)), Executed path command e]))"
proof -
  have tl: "tl argv = RestrictedExecCommand # ''--'' # so_Command options"
    using assms(1,2) by (auto simp: isolated_command_def split: prod.splits sum.splits)
  have ne: "RestrictedExecCommand \<noteq> SupervisorCommand" by code_simp
  obtain x st where x: "ExecRestricted (me_seccomp env) (me_goarch env) (''--'' # so_Command options) \<lparr>sw = w, sacts = []\<rparr> = (x, st)"
    by (metis surj_pair)
  have run: "r = map_sum RestrictedPart (\<lambda>_. 0) x" "tr = RestrictedRan (sacts st)"
    using assms(3) x ne by (auto simp: tl main_run_def)
  have "\<exists>path e. Executed path (so_Command options) e \<in> set (sacts st)" if "is_ok r"
  proof -
    have "x = Ok ()" using that run(1) by (cases x) simp_all
    then show ?thesis using ExecRestricted_Ok x assms(4) by (cases "so_Command options") auto
  qed
  moreover have "command = so_Command options \<and> (\<exists>native raws. arch_info (me_seccomp env) = Ok native \<and>
        bpf_assemble (me_seccomp env) (nativeArchitectureGuard native) = Ok raws \<and>
        unat (Len (guard_program raws)) = length (Filter (guard_program raws)) \<and>
        sacts st = [NoNewPrivsSet, GuardLoaded (guard_program raws),
          FilterLoaded (restrictedSocketFilter (me_goarch env)), Executed path command e])"
    if "Executed path command e \<in> set (sacts st)" for path command e
    using restricted_exec_barriers [OF x _ that] by auto
  ultimately show ?thesis using run(2) by blast
qed

section \<open>An example\<close>

definition demo_kernel_seccomp :: "kernel seccomp_ops" where
  "demo_kernel_seccomp = \<lparr>arch_info = Ok 5,
     bpf_assemble = (\<lambda>p. Ok (map (\<lambda>_. \<lparr>ri_Op = 1, ri_Jt = 0, ri_Jf = 0, ri_K = 0\<rparr>) p)),
     seccomp_set_mode = (\<lambda>p w. (None, w)), seccomp_no_new_privs = (\<lambda>w. (None, w)),
     load_filter = (\<lambda>f w. (None, w)), find_executable = (\<lambda>name w. (Ok (''/bin/'' @ name), w)),
     environ = (\<lambda>w. []), execve = (\<lambda>p c e w. (None, w))\<rparr>"

definition demo_env :: "kernel main_env" where
  "demo_env = \<lparr>me_sup = demo_sup, me_seccomp = demo_kernel_seccomp, me_app = demo_app,
     me_goarch = ''amd64'', me_supervisor_flags = demo_pflag, me_public_flags = demo_public,
     me_load = demo_load\<rparr>"

definition demo_schedule :: schedule where
  "demo_schedule = \<lparr>sc_main = 0, sc_command = 0, sc_group_before = [],
     sc_group_after = [BridgeReturned None],
     sc_jobs_before = [], sc_jobs_after = []\<rparr>"

theorem supervisor_process_options_witness:
  "\<exists>lg. main_run ascii_lib demo_env demo_schedule
      (tl (supervisor_arguments demo_parent False [''CAP_NET_ADMIN''])) demo_kernel =
    map_option (\<lambda>(r, st). (rmap_err (SupervisorPart \<circ> SupervisorFailed) r, SupervisorRan (acts st), pw st))
      (RunSupervisor ascii_lib demo_sup 0 0
        \<lparr>so_Command = [''sh'', ''--help''], so_Environment = ap_environ demo_app, so_Directory = ''/'',
         so_HTTPSocket = ''/run/http.sock'', so_SOCKSocket = [], so_PreservePermissions = True,
         so_RestrictUnixSockets = True, so_ManageForeground = False,
         so_KeepUnsafeCapabilities = [''CAP_NET_ADMIN''], so_Logger = lg\<rparr>
        [] [BridgeReturned None] \<lparr>pw = demo_kernel, acts = []\<rparr>)"
proof -
  have c: "caps (me_sup demo_env) = demo_caps" "me_supervisor_flags demo_env = demo_pflag"
    by (simp_all add: demo_env_def demo_sup_def)
  have "po_Command demo_parent \<noteq> []" "SetNonDumpable (caps (me_sup demo_env)) demo_kernel = (Ok (), demo_kernel)"
    "ap_getwd (me_app demo_env) demo_kernel = (Ok ''/'', demo_kernel)"
    by (simp_all add: demo_parent_def SetNonDumpable_def demo_caps_def c) (simp add: demo_env_def demo_app_def)
  from supervisor_process_options [OF demo_pflag_laws [folded c(2)] demo_cap_laws [folded c(1)]
      demo_resolve [folded c(1)] this, of demo_schedule False]
  show ?thesis by (auto simp: demo_parent_def demo_schedule_def demo_env_def)
qed

theorem restricted_child_barriers_witness:
  "\<exists>as r path e. main_run ascii_lib demo_env demo_schedule [RestrictedExecCommand, ''--'', ''sh''] demo_kernel =
      Some (r, RestrictedRan as, demo_kernel) \<and> Executed path [''sh''] e \<in> set as \<and> length as = 4"
proof -
  have i: "isolated_command demo_sup demo_options demo_kernel =
      (Ok [''/usr/bin/airjail'', RestrictedExecCommand, ''--'', ''sh''], demo_kernel)"
    by (simp add: isolated_command_def demo_options_def demo_sup_def)
  have "map_option (\<lambda>(r, tr, w). (r, w = demo_kernel)) (main_run ascii_lib demo_env demo_schedule
      [RestrictedExecCommand, ''--'', ''sh''] demo_kernel) = Some (Ok 0, True)"
    by code_simp
  then obtain tr where m: "main_run ascii_lib demo_env demo_schedule
      (tl [''/usr/bin/airjail'', RestrictedExecCommand, ''--'', ''sh'']) demo_kernel = Some (Ok 0, tr, demo_kernel)"
    by auto
  have "so_RestrictUnixSockets demo_options" "so_Command demo_options \<noteq> []" "so_Command demo_options = [''sh'']"
    by (simp_all add: demo_options_def)
  note sh = this(3) and r = restricted_child_barriers [OF i this(1) m this(2)]
  from r obtain as where as: "tr = RestrictedRan as"
    and ran: "is_ok (Ok 0 :: (main_failure, nat) result) \<longrightarrow> (\<exists>path e. Executed path (so_Command demo_options) e \<in> set as)"
    and order: "\<forall>path command e. Executed path command e \<in> set as \<longrightarrow> (\<exists>g f. as = [NoNewPrivsSet, GuardLoaded g, f, Executed path command e])"
    by blast
  from ran obtain path e where x: "Executed path (so_Command demo_options) e \<in> set as" by auto
  with order have "length as = 4" by fastforce
  with m as x [unfolded sh] show ?thesis by (intro exI [of _ as] exI [of _ "Ok 0"] exI [of _ path] exI [of _ e]) simp
qed

end
