(* ===== verification/Session_Requests.thy ===== *)
theory Session_Requests
  imports Application Outer_Proxy Proxy_HTTP Proxy_SOCKS
begin

text \<open>
  The proxies of one invocation put together, the way \<open>runWithProxies\<close> in
  internal/application/application.go does: one connector of the policy and the router behind both
  servers.  What clients ask for is a series of requests, each handled by the operation of the
  server it came to; what the outside sees of it is \<open>outside_run\<close>.
\<close>

section \<open>The servers of a session\<close>

text \<open>
  \<open>dir\<close> is the connector \<open>outbound.NewRouted(networkPolicy, nil, router.Dial, logger)\<close>.  The route
  of a connector returns always, \<open>RouterDial\<close> is \<open>None\<close> where a proxy keeps sending nothing.
\<close>

definition session_connector ::
  "text_lib \<Rightarrow> ('w, 'c) net_ops \<Rightarrow> 'w resolver \<Rightarrow> policy \<Rightarrow> router \<Rightarrow> ('w, env_error, 'c) direct \<Rightarrow> bool" where
  "session_connector tx net defaultResolver p router dir \<longleftrightarrow>
     dir = NewRouted (Some p) defaultResolver None (dir_route dir) \<and>
     (\<forall>h a n w. RouterDial tx net router h a n w = Some (dir_route dir h a n w))"

text \<open>
  A request that reached a server: an HTTP request with the answers of the operations its handler
  calls, or a call of the dial callback by the SOCKS backend, with whatever arguments.
\<close>

datatype 'c client_request =
    HTTPRequest "'c http_answers" http_request
  | SOCKSRequest string string

fun serve_request ::
  "text_lib \<Rightarrow> ('s, 'e dial_error, 'c) dial \<Rightarrow> 'c client_request \<Rightarrow> 's \<Rightarrow> 's" where
  "serve_request tx dial (HTTPRequest an rq) st =
     snd (ServeHTTP tx (hs_connector (http_New dial)) an rq st)"
| "serve_request tx dial (SOCKSRequest network address) st =
     (case socks_New tx (\<lambda>_. None) dial of
        Inl e \<Rightarrow> st
      | Inr socksServer \<Rightarrow> snd (sc_dial (ss_backend socksServer) network address st))"

fun serve_requests ::
  "text_lib \<Rightarrow> ('s, 'e dial_error, 'c) dial \<Rightarrow> 'c client_request list \<Rightarrow> 's \<Rightarrow> 's" where
  "serve_requests tx dial [] st = st"
| "serve_requests tx dial (r # rs) st = serve_requests tx dial rs (serve_request tx dial r st)"

lemma serve_request_dials:
  "\<exists>ts. list_all (\<lambda>(d, n). wf_destination d) ts \<and> length ts \<le> 1 \<and>
     serve_request tx dial r st = snd (dial_all dial ts st)"
proof (cases r)
  case (HTTPRequest an rq)
  then show ?thesis using ServeHTTP_dials [of tx dial an rq st] by (auto simp: http_New_def)
next
  case (SOCKSRequest network address)
  then show ?thesis using socks_dial_calls [of tx dial network address st]
    by (simp add: socks_New_def)
qed

section \<open>What the outside sees\<close>

text \<open>
  A run of the outside: lookups of any hostname, and network operations for one target after the
  other, each in \<open>T\<close> and reached straight or through the proxy, if there is one.
\<close>

inductive outside_run ::
  "text_lib \<Rightarrow> 'w resolver \<Rightarrow> ('w, 'c) net_ops \<Rightarrow> url option \<Rightarrow> string set \<Rightarrow> 'w \<Rightarrow> 'w \<Rightarrow> bool"
  for tx lookup net proxy T w where
  outside_start: "outside_run tx lookup net proxy T w w"
| outside_lookup: "outside_run tx lookup net proxy T w w1 \<Longrightarrow>
    outside_run tx lookup net proxy T w (snd (lookup h w1))"
| outside_direct: "outside_run tx lookup net proxy T w w1 \<Longrightarrow> target \<in> T \<Longrightarrow>
    net_run net None {target} {} w1 w2 \<Longrightarrow> outside_run tx lookup net proxy T w w2"
| outside_proxied: "outside_run tx lookup net proxy T w w1 \<Longrightarrow> target \<in> T \<Longrightarrow> proxy = Some u \<Longrightarrow>
    net_run net (Some u) {proxy_address tx u} {target} w1 w2 \<Longrightarrow> outside_run tx lookup net proxy T w w2"

lemma outside_target:
  assumes "outside_run tx lookup net (proxy_url router) T w w1" and "target \<in> T"
    and "target_run tx net (chosen_proxy router h a n) target w1 w2"
  shows "outside_run tx lookup net (proxy_url router) T w w2"
proof (cases "chosen_proxy router h a n")
  case None
  with assms show ?thesis by (auto simp: target_run_def intro: outside_direct)
next
  case (Some u)
  then have "proxy_url router = Some u" by (simp add: chosen_proxy_def split: if_splits)
  with Some assms show ?thesis by (auto simp: target_run_def intro: outside_proxied)
qed

text \<open>The addresses, written as the network is asked for them, that the policy's specification permits.\<close>

definition permitted_authorities :: "text_lib \<Rightarrow> policy \<Rightarrow> string set" where
  "permitted_authorities tx p =
     {JoinHostPort (addr_string a) (Itoa (unat n)) | h a n.
        \<exists>q. normalize_request tx h (WithZone a []) n = Ok q \<and> permits p q}"

lemma approved_authority:
  "wf_policy p \<Longrightarrow> approves tx p (h, a, n) \<Longrightarrow> authority a n \<in> permitted_authorities tx p"
proof -
  assume "wf_policy p" "approves tx p (h, a, n)"
  then have "\<exists>q. normalize_request tx h (WithZone a []) n = Ok q \<and> permits p q"
    by (auto simp: approves_def Allows_permits rbind_Inr_iff)
  then show ?thesis unfolding permitted_authorities_def authority_def by blast
qed

section \<open>The connector and the outside\<close>

text \<open>What every lookup and every approved call of the route keeps of the outside, the connector keeps.\<close>

lemma call_route_out:
  "call_route route h a n st = (r, st') \<Longrightarrow> out st' = snd (route h a n (out st))"
  by (auto simp: call_route_def split: prod.splits)

lemma dial_loop_keeps:
  assumes route: "\<And>a w. approves tx p (h, a, n) \<Longrightarrow> P w \<Longrightarrow> P (snd (route h a n w))"
  shows "P (out st) \<Longrightarrow> P (out (snd (dial_loop tx p route h n seen le as st)))"
proof (induction as arbitrary: seen le st)
  case Nil
  then show ?case by simp
next
  case (Cons a as)
  show ?case
  proof (cases "IsValid a \<and> Zone a = [] \<and> Unmap a \<notin> seen")
    case False
    with Cons show ?thesis by (metis dial_loop_stale)
  next
    case True
    then have fresh: "IsValid a" "Zone a = []" "Unmap a \<notin> seen" by auto
    have ok: "approves tx p (h, Unmap a, n)" if "Allows tx p h (Unmap a) n = Inr True"
      using that fresh by (simp add: approves_def)
    obtain ans st1 where call: "call_route route h (Unmap a) n (logDecision True h (Unmap a) n st) = (ans, st1)"
      by (metis surj_pair)
    have "P (out st1)" if "Allows tx p h (Unmap a) n = Inr True"
      using route [OF ok [OF that] Cons.prems] call_route_out [OF call] by simp
    with Cons call show ?thesis
      by (auto simp: dial_loop_fresh [OF fresh] simp del: dial_loop.simps split: sum.splits bool.splits)
  qed
qed

lemma Dial_keeps:
  assumes "dir_policy dir = Some p"
    and lookup: "\<And>h w. P w \<Longrightarrow> P (snd (dir_resolver dir h w))"
    and route: "\<And>h a n w. approves tx p (h, a, n) \<Longrightarrow> P w \<Longrightarrow> P (snd (dir_route dir h a n w))"
    and "P (out st)"
  shows "P (out (snd (Dial tx dir d n st)))"
proof (cases "IsHostname d")
  case False
  let ?a = "RoutingAddress d"
  obtain ans st1 where call: "call_route (dir_route dir) [] ?a n (logDecision True [] ?a n st) = (ans, st1)"
    by (metis surj_pair)
  have "P (out st1)" if "Allows tx p [] (WithZone ?a []) n = Inr True"
    using route [of "[]" ?a n "out st"] that assms(4) call_route_out [OF call] by (simp add: approves_def)
  with False assms(1,4) call show ?thesis
    by (auto simp: Dial_def dialLiteral_def Let_def split: sum.splits)
next
  case True
  obtain answer w where look: "dir_resolver dir (d_hostname d) (out st) = (answer, w)" by (metis surj_pair)
  with lookup assms(4) have "P w" by (metis snd_conv)
  then have loop: "P (out (snd (dial_loop tx p (dir_route dir) (d_hostname d) n {} None as (st\<lparr>out := w\<rparr>))))" for as
    using dial_loop_keeps [where P = P and st = "st\<lparr>out := w\<rparr>", OF route] by simp
  have "Dial tx dir d n st = (if n = 0 then (Err DialPortZero, st) else
      (case answer of
         Inl e \<Rightarrow> (Err (ResolveDestination (d_hostname d) e), st\<lparr>out := w\<rparr>)
       | Inr as \<Rightarrow> dial_loop tx p (dir_route dir) (d_hostname d) n {} None as (st\<lparr>out := w\<rparr>)))"
    using True assms(1) look by (simp add: Dial_def Let_def)
  with loop assms(4) \<open>P w\<close> show ?thesis by (cases answer) simp_all
qed

lemma dial_all_keeps:
  assumes "\<And>d n s. P s \<Longrightarrow> P (snd (dial d n s))"
  shows "P s \<Longrightarrow> P (snd (dial_all dial ts s))"
proof (induction ts arbitrary: s)
  case (Cons t ts)
  then show ?case using assms by (cases t) (auto simp: split_def)
qed simp

lemma serve_requests_keeps:
  assumes "\<And>d n s. P s \<Longrightarrow> P (snd (dial d n s))"
  shows "P s \<Longrightarrow> P (serve_requests tx dial rs s)"
proof (induction rs arbitrary: s)
  case (Cons r rs)
  obtain ts where "serve_request tx dial r s = snd (dial_all dial ts s)"
    using serve_request_dials [of tx dial r s] by blast
  with Cons assms show ?case by (simp add: dial_all_keeps)
qed simp

text \<open>Whatever is asked of the servers, the outside sees only what the policy permits.\<close>

lemma session_outside:
  assumes "session_connector tx net lookup p router dir" and "wf_policy p"
  shows "outside_run tx lookup net (proxy_url router) (permitted_authorities tx p) (out st)
    (out (serve_requests tx (Dial tx dir) requests st))"
    (is "?R (out (serve_requests tx (Dial tx dir) requests st))")
proof -
  have dir: "dir_policy dir = Some p" "dir_resolver dir = lookup"
    and routed: "\<And>h a n w. RouterDial tx net router h a n w = Some (dir_route dir h a n w)"
    using assms(1) by (auto simp: session_connector_def) (metis NewRouted_def direct.select_convs option.simps(4))+
  have route: "?R (snd (dir_route dir h a n w))" if "approves tx p (h, a, n)" "?R w" for h a n w
  proof -
    have "RouterDial tx net router h a n w = Some (fst (dir_route dir h a n w), snd (dir_route dir h a n w))"
      using routed by simp
    from outside_target [OF that(2) approved_authority [OF assms(2) that(1)] RouterDial_net [OF this]]
    show ?thesis .
  qed
  have lookup: "?R (snd (dir_resolver dir h w))" if "?R w" for h w
    unfolding dir(2) using that by (rule outside_lookup)
  have "?R (out (snd (Dial tx dir d n s)))" if "?R (out s)" for d n s
    by (rule Dial_keeps [where P = ?R, OF dir(1) lookup route that])
  from serve_requests_keeps [where P = "\<lambda>s. ?R (out s)", OF this outside_start]
  show ?thesis .
qed

end
