(* ===== verification/Session_Properties.thy ===== *)
theory Session_Properties
  imports Session_Requests Application_Examples
begin

text \<open>
  From the command line to the network: what the servers airjail started around a command let
  through, with the invocation at which the property is applied.
\<close>

lemma servers_started:
  assumes "application_Run tx pflag load ops t before after args st = Some (r, st')" and "trail st = []"
    and "ServersStarted p router h s \<in> set (trail st')"
  shows "\<exists>call w ns. Parse pflag load args = Ok call \<and>
    new_policy tx (ap_resolver ops) (AllowUnresolvedRules (Config call))
      (Allow (Config call)) (Block (Config call)) w = (Ok p, ns) \<and>
    NewEnvironmentRouter tx (ap_parse_url ops) (ap_no_proxy ops) (ap_environ ops) = Ok router"
  using assms(1,2)
proof (cases rule: application_Run_cases)
  case (no_command e)
  then show ?thesis using assms(3) by (auto simp: failed_trail_def)
next
  case written
  then show ?thesis using assms(3) by auto
next
  case (isolated call opts p w0 w c warnings pst)
  then show ?thesis using assms(3) by auto
next
  case (proxied call opts p' w0 w c warnings pst rd h' s' router' js result)
  then have "p' = p" "router' = router" using assms(3) by (auto simp: proxied_trail_def)
  with proxied(1,9) application_start_Ok [OF proxied(2)] show ?thesis by blast
qed

text \<open>
  C1: whatever the contained program asks of the proxies, in however many HTTP and SOCKS requests,
  the outside sees only lookups of hostnames and, target by target, either a connection to an
  address and port that the policy made of the configured rules permits, or a connection to the
  outer proxy that the environment names, which is asked only for such an address and port.
\<close>

theorem session_reaches_only_permitted:
  assumes "application_Run tx pflag load ops t before after args st = Some (r, st')" and "trail st = []"
    and "ServersStarted p router h s \<in> set (trail st')"
    and "session_connector tx net (ap_resolver ops) p router dir"
  shows "\<exists>call w ns. Parse pflag load args = Ok call \<and>
    new_policy tx (ap_resolver ops) (AllowUnresolvedRules (Config call))
      (Allow (Config call)) (Block (Config call)) w = (Ok p, ns) \<and>
    NewEnvironmentRouter tx (ap_parse_url ops) (ap_no_proxy ops) (ap_environ ops) = Ok router \<and>
    outside_run tx (ap_resolver ops) net (proxy_url router) (permitted_authorities tx p)
      (out cs) (out (serve_requests tx (Dial tx dir) requests cs))"
proof -
  obtain call w ns where call: "Parse pflag load args = Ok call"
    and p: "new_policy tx (ap_resolver ops) (AllowUnresolvedRules (Config call))
      (Allow (Config call)) (Block (Config call)) w = (Ok p, ns)"
    and router: "NewEnvironmentRouter tx (ap_parse_url ops) (ap_no_proxy ops) (ap_environ ops) = Ok router"
    using servers_started [OF assms(1,2,3)] by blast
  from p have "wf_policy p" by (rule new_policy_wf)
  from call p router session_outside [OF assms(4) this] show ?thesis by blast
qed

text \<open>A network on which every dial is counted, and a session over it without an outer proxy.\<close>

definition counting_net :: "(kernel, nat) net_ops" where
  "counting_net = \<lparr>tcp_dial = \<lambda>a w. (Ok 1, w\<lparr>kn_handles := length a # kn_handles w\<rparr>),
     set_deadline = \<lambda>c w. (None, w), clear_deadline = \<lambda>c w. (None, w),
     tls_handshake = \<lambda>c n w. (Ok c, w), write_request = \<lambda>c q w. (None, w),
     read_byte = \<lambda>c w. (ReadErr ''EOF'', w), parse_response = \<lambda>h. Err ''unused'',
     close_conn = \<lambda>c w. w, socks_from_url = \<lambda>u. Err ''unused''\<rparr>"

definition plain_router :: router where
  "plain_router = \<lparr>proxy_url = None, bypass = \<lambda>h. Ok False\<rparr>"

definition demo_session :: "(kernel, env_error, nat) direct" where
  "demo_session = NewRouted (Some demo_blocked) (pure_resolver demo_lookup) None
     (\<lambda>h a n w. (Ok 1, w\<lparr>kn_handles := length (authority a n) # kn_handles w\<rparr>))"

lemma demo_session_connector:
  "session_connector ascii_lib counting_net (pure_resolver demo_lookup) demo_blocked plain_router demo_session"
  by (simp add: session_connector_def demo_session_def NewRouted_def plain_router_def RouterDial_def
      dial_direct_def counting_net_def)

fun policies_in :: "app_action list \<Rightarrow> policy list" where
  "policies_in [] = []"
| "policies_in (ServersStarted p router h s # tr) = p # policies_in tr"
| "policies_in (_ # tr) = policies_in tr"

lemma in_policies: "p \<in> set (policies_in tr) \<longleftrightarrow> (\<exists>router h s. ServersStarted p router h s \<in> set tr)"
  by (induction tr rule: policies_in.induct) auto

lemma demo_served:
  "map_option (\<lambda>(r, st). policies_in (trail st)) (demo_invoke [''--config=airjail.yaml'', ''sh'', ''-c'']) =
     Some [demo_blocked]"
  by code_simp

lemma demo_router_plain:
  "NewEnvironmentRouter ascii_lib (ap_parse_url demo_app) (ap_no_proxy demo_app) (ap_environ demo_app) =
     Ok plain_router"
proof -
  have "firstEnvironment (environmentMap (ap_environ demo_app)) proxy_names = []" by code_simp
  then show ?thesis
    by (simp add: NewEnvironmentRouter_def Let_def parseProxyURL_def demo_app_def plain_router_def)
qed

text \<open>Two requests, of which the file blocks the second: one connection is made.\<close>

definition demo_requests :: "nat client_request list" where
  "demo_requests = [SOCKSRequest ''tcp'' ''192.168.1.1:443'', SOCKSRequest ''tcp'' ''10.0.0.1:443'']"

lemma demo_requests_count:
  "kn_handles (out (serve_requests ascii_lib (Dial ascii_lib demo_session) demo_requests
     \<lparr>out = demo_kernel, events = []\<rparr>)) = 15 # kn_handles demo_kernel"
  by code_simp

theorem session_reaches_only_permitted_witness:
  "\<exists>k. outside_run ascii_lib (pure_resolver demo_lookup) counting_net None
     (permitted_authorities ascii_lib demo_blocked) demo_kernel k \<and>
   kn_handles k = 15 # kn_handles demo_kernel"
proof -
  obtain r st' where st': "demo_invoke [''--config=airjail.yaml'', ''sh'', ''-c''] = Some (r, st')"
    "policies_in (trail st') = [demo_blocked]"
    using demo_served by auto
  then have "demo_blocked \<in> set (policies_in (trail st'))" by simp
  then obtain router h s where started: "ServersStarted demo_blocked router h s \<in> set (trail st')"
    unfolding in_policies by blast
  have t: "trail \<lparr>aw = demo_kernel, trail = []\<rparr> = []" by simp
  have "router = plain_router"
    using servers_started [OF st'(1) [unfolded demo_invoke_def] t started] demo_router_plain by auto
  with session_reaches_only_permitted [OF st'(1) [unfolded demo_invoke_def] t started, of counting_net demo_session
      "\<lparr>out = demo_kernel, events = []\<rparr>" demo_requests] demo_session_connector demo_requests_count
  show ?thesis by (auto simp: demo_app_def plain_router_def)
qed

end
