(* ===== verification/Spec2Isabelle.thy ===== *)
theory Spec2Isabelle
  imports Policy_Properties Outbound_Properties Outer_Properties HTTP_Properties SOCKS_Properties Relay
    Kernel_Examples Launch_Properties Forwarder Seccomp Runtime_Dir Main_Properties Session_Properties
begin

text \<open>
  airjail runs a command in a network namespace of its own.  Whatever of the network the command
  may use, it reaches through two proxies outside, which ask a policy about every address.  This
  development models the Go sources and states what makes them correct.

  The parts, and how they interact.  One binary plays three parts (main.go).  As airjail itself
  (internal/application) it reads the command line and a configuration file (internal/cli,
  internal/config), builds the policy (internal/policy), makes a private session directory,
  listens there on two Unix sockets with the HTTP proxy (internal/proxyhttp) and the SOCKS proxy
  (internal/proxysocks), and starts itself again in new namespaces as the supervisor
  (internal/namespace).  The supervisor forwards two TCP ports inside the namespace to those
  sockets (forwarder.go), gives its capabilities up and starts the command, if asked to through
  a third part that installs a seccomp filter and then becomes the command.  The proxies dial
  through one connector (internal/outbound), which resolves a name, asks the policy about each
  answer, and hands allowed addresses to a route: direct, or through an outer proxy named by the
  environment.  Tunnels are copied by internal/relay.

  The model.  Records and datatypes follow the structs and errors of the code, one constructor
  for each place that makes an error; a function is translated with all its branches.  An effect
  on the outside is an operation of a record (\<open>net_ops\<close>, \<open>cap_ops\<close>,
  \<open>proc_ops\<close>, \<open>sup_ops\<close>, \<open>fs_ops\<close>,
  \<open>seccomp_ops\<close>, \<open>app_ops\<close>) on a world \<open>'w\<close> about which
  nothing is assumed but the laws a property names: \<open>cap_laws\<close>,
  \<open>creds_laws\<close>, \<open>handle_laws\<close>, \<open>fs_laws\<close>,
  \<open>pflag_laws\<close>, \<open>public_pflag_laws\<close>, \<open>policy_laws\<close>,
  \<open>bpf_laws\<close>.  What a function did is kept as a sequence of its actions
  (\<open>events\<close>, \<open>acts\<close>, \<open>sacts\<close>, \<open>trail\<close>),
  deferred calls included.  Goroutines are step functions or step relations: a lock makes an
  operation one step, and the steps come in any order.  Integers that can wrap are words.

  Theories and sources.
  \<^item> Prelude, Go_Lib, Netip, Paths: results, and the functions of strings, strconv,
    unicode/utf8, net, net/netip and path/filepath that the code calls.  Addr_Text: the text of
    an address parses back.
  \<^item> Logging: internal/logging/logging.go.
  \<^item> Hostname, Rules, Destination: rules.go and destination.go of internal/policy.
    Decision holds the locale \<open>rule_matcher\<close>, the interface between the decision
    and the rules; Policy is policy.go; Policy_Spec the specification \<open>permits\<close>,
    the refinement, and the interpretation of the locale; Policy_New is about the construction;
    Destination_Text about a destination as text.
  \<^item> Connector holds the locale \<open>connector\<close>, the contract between the
    connector and its clients; Direct is internal/outbound/direct.go and interprets it;
    Environment and Outer_Proxy are environment.go.
  \<^item> Tracker holds the locales \<open>tracker\<close> and \<open>conn_tracker\<close>, the
    contract of a set that counts handlers until a shutdown; Conn_Sets are the three sets of the
    proxies, which interpret it.  Proxy_HTTP is internal/proxyhttp/server.go, Proxy_SOCKS
    internal/proxysocks/server.go, Relay internal/relay/relay.go.
  \<^item> Syscalls, Capabilities: capabilities_linux.go; Process: run_linux.go; Supervisor:
    \<open>RunSupervisor\<close> of namespace_linux.go; Launch: \<open>Run\<close> of
    namespace_linux.go and \<open>runSupervisor\<close> of main.go; Forwarder: forwarder.go;
    Seccomp: seccomp_linux.go and seccomp_arch_linux.go.
  \<^item> Cli_Config: internal/cli/cli.go and internal/config/config.go; Runtime_Dir:
    runtime.go, Child_Environment, Jobs and Application: application.go of internal/application;
    Main_Command: main.go.  Session_Requests: the servers of one invocation with the connector they
    share, and the requests they handle.
  \<^item> The theories named Examples hold the concrete inputs of the witnesses.

  What the properties show.
  \<^item> Policy: \<open>Allows\<close> refines \<open>permits\<close>; the four modes of allow
    and block lists; every constructed policy is well-formed; masking a CIDR rule keeps its
    members; the block rules of the configuration file hold whatever the flags say.
  \<^item> Connector and proxies: only addresses that the specification permits are dialed, over
    any series of calls and for whatever a client asks; a name is tried at exactly its allowed
    answers; the router leaks no connection and reaches the approved address straight or asks the
    configured proxy for it; each connection a handler acquired is closed and each tunnel
    unregistered; a request gets one final status; shutdown leaves nothing running; a target
    written upstream is the target that was checked; the CONNECT header is read exactly
    and the reader returns.
  \<^item> Namespace: on the thread of the setup the command starts without the dangerous
    capabilities that are not kept; listeners are closed or handed over; exit codes are those of
    the command; a process is waited for or killed, and its group is reaped; job control
    stops airjail itself and continues the process; the wait loops return; the restricted command
    runs only behind the three barriers, in order; the guard kills foreign system calls.
  \<^item> Session: from the command line to the network, whatever is asked of the servers that were
    started lets through only what the policy of the configured rules permits.
  \<^item> Application: which command is started with what, and behind which policy; everything
    held is released in reverse order; the session directory is private, is removed, and its
    socket paths fit; the environment of the command; the merge of flags over the file; the result
    of the goroutines, and that none is waited for in vain once the context is cancelled; and that
    the command lines between the three parts are read back as they were meant.

  Bounds.  The CONNECT header is bounded by 16384 bytes but not the number of reads that return
  nothing, so \<open>read_header\<close> is a partial function; so are the wait and reap loops
  of Process, which depend on the kernel.  \<open>None\<close> means that such a call never
  returns, and that they return is proved under the hypothesis that a measure of the world
  decreases.  \<open>mkdir_temp\<close> has the 10000 tries of \<open>os.MkdirTemp\<close>.  A
  socket path has at most 107 bytes.  The guard program has at most 65535 instructions. A run
  with proxies has at most six steps of its goroutines.

  Two simplifications of the world.  Paths in \<open>fs_laws\<close> name one file each, so the
  base of the session directory is not reached under two names through links.  A context of a
  goroutine is a flag, or an event that comes at any point.

  Not modelled: the text of errors, of the help and of log lines other than those of the policy
  and the traffic log, which are output only; net/http (parsing requests, hijacking,
  ReverseProxy), the SOCKS5 backend, TLS, YAML, pflag, IDNA, the Unicode tables, the seccomp
  assembler and the kernel, which are outside the repository and are parameters; deadlines as
  times; the memory model below the locks.
\<close>

end
